(* ===== verification/Prelude.thy ===== *)
theory Prelude
  imports Main "HOL-Library.Word"
begin

text \<open>
  Shared vocabulary of the development: results of Go calls, the state-passing
  combinators in which the keeper's handlers are written, a small calculus for
  relations that every step of a handler keeps, and lemmas on path strings.

  Go strings and the byte slices that are store keys or store prefixes are
  Isabelle strings (one \<open>char\<close> per byte); payload byte slices (values, proofs,
  wire data) are lists of 8-bit words.
\<close>

named_theorems outcome_simps \<open>case analysis of results and of the state-passing combinators\<close>
named_theorems path_simps \<open>shape of store paths\<close>

type_synonym byte = "8 word"
type_synonym bytes = "byte list"
type_synonym u64 = "64 word"

section \<open>Results of Go calls\<close>

text \<open>
  Error values. The first group are the registered errors of ibc-go that the code
  wraps; \<open>Errorf\<close> carries the format string of an error made with
  \<open>fmt.Errorf\<close> or \<open>errors.New\<close>; \<open>ErrLib\<close> is an error returned by code outside
  the repository. \<open>sdkerrors.Wrap\<close> only adds text to an error and is the identity here.
\<close>

datatype err =
    ErrClientNotFound string
  | ErrConnectionNotFound
  | ErrInvalidConnectionState
  | ErrInvalidVersion
  | ErrChannelNotFound
  | ErrInvalidPacket
  | ErrInvalidClient
  | ErrInvalidConsensus
  | ErrConsensusStateNotFound
  | Errorf string
  | ErrLib string

text \<open>
  A call returns a value, returns an error, panics, or (only for the bounded
  unfolding of nested light clients) runs out of unfoldings.
\<close>

datatype 'a outcome = Ok 'a | Err err | Panic | Diverge

primrec is_ok :: "'a outcome \<Rightarrow> bool" where
  "is_ok (Ok x) = True"
| "is_ok (Err e) = False"
| "is_ok Panic = False"
| "is_ok Diverge = False"

primrec obind :: "'a outcome \<Rightarrow> ('a \<Rightarrow> 'b outcome) \<Rightarrow> 'b outcome" where
  "obind (Ok x) f = f x"
| "obind (Err e) f = Err e"
| "obind Panic f = Panic"
| "obind Diverge f = Diverge"

text \<open>\<open>x, err := f(); if err != nil { panic(err) }\<close>\<close>

primrec must :: "'a outcome \<Rightarrow> 'a outcome" where
  "must (Ok x) = Ok x"
| "must (Err e) = Panic"
| "must Panic = Panic"
| "must Diverge = Diverge"

text \<open>The assertion of a condition: an error when it fails.\<close>

definition check :: "bool \<Rightarrow> err \<Rightarrow> unit outcome" where
  "check b e = (if b then Ok () else Err e)"

definition from_option :: "err \<Rightarrow> 'a option \<Rightarrow> 'a outcome" where
  "from_option e v = (case v of None \<Rightarrow> Err e | Some x \<Rightarrow> Ok x)"

lemma obind_Ok_iff [outcome_simps]: "obind m f = Ok y \<longleftrightarrow> (\<exists>x. m = Ok x \<and> f x = Ok y)"
  by (cases m) simp_all

lemma must_Ok_iff [outcome_simps]: "must m = Ok y \<longleftrightarrow> m = Ok y"
  by (cases m) simp_all

lemma check_Ok_iff [outcome_simps]: "check b e = Ok u \<longleftrightarrow> b"
  by (simp add: check_def)

lemma check_simps [simp]: "check True e = Ok ()" "check False e = Err e"
  by (simp_all add: check_def)

lemma from_option_Ok_iff [outcome_simps]: "from_option e v = Ok x \<longleftrightarrow> v = Some x"
  by (simp add: from_option_def split: option.splits)

lemma from_option_simps [simp]: "from_option e None = Err e" "from_option e (Some x) = Ok x"
  by (simp_all add: from_option_def)

lemma is_ok_iff [outcome_simps]: "is_ok m \<longleftrightarrow> (\<exists>x. m = Ok x)"
  by (cases m) simp_all

lemma obind_Diverge_iff: "obind m f = Diverge \<longleftrightarrow> m = Diverge \<or> (\<exists>x. m = Ok x \<and> f x = Diverge)"
  by (cases m) simp_all

lemma must_Diverge_iff: "must m = Diverge \<longleftrightarrow> m = Diverge"
  by (cases m) simp_all

lemma obind_assoc: "obind (obind m f) g = obind m (\<lambda>x. obind (f x) g)"
  by (cases m) simp_all

section \<open>State passing\<close>

text \<open>
  A stateful call takes the state and returns its result with the state at the time it
  returned, also when it returned an error: Go does not undo writes on an error path.
\<close>

type_synonym ('s, 'a) prog = "'s \<Rightarrow> 'a outcome \<times> 's"

definition mret :: "'a \<Rightarrow> ('s, 'a) prog" where
  "mret x = (\<lambda>s. (Ok x, s))"

definition mlift :: "'a outcome \<Rightarrow> ('s, 'a) prog" where
  "mlift r = (\<lambda>s. (r, s))"

definition mget :: "('s \<Rightarrow> 'a) \<Rightarrow> ('s, 'a) prog" where
  "mget f = (\<lambda>s. (Ok (f s), s))"

definition mput :: "('s \<Rightarrow> 's) \<Rightarrow> ('s, unit) prog" where
  "mput f = (\<lambda>s. (Ok (), f s))"

definition mbind :: "('s, 'a) prog \<Rightarrow> ('a \<Rightarrow> ('s, 'b) prog) \<Rightarrow> ('s, 'b) prog" where
  "mbind m f = (\<lambda>s. case m s of (r, s') \<Rightarrow>
     (case r of Ok x \<Rightarrow> f x s' | Err e \<Rightarrow> (Err e, s') | Panic \<Rightarrow> (Panic, s') | Diverge \<Rightarrow> (Diverge, s')))"

abbreviation mthen :: "('s, unit) prog \<Rightarrow> ('s, 'b) prog \<Rightarrow> ('s, 'b) prog" where
  "mthen m n \<equiv> mbind m (\<lambda>_. n)"

lemma mret_apply [simp]: "mret x s = (Ok x, s)"
  by (simp add: mret_def)

lemma mlift_apply [simp]: "mlift r s = (r, s)"
  by (simp add: mlift_def)

lemma mget_apply [simp]: "mget f s = (Ok (f s), s)"
  by (simp add: mget_def)

lemma mput_apply [simp]: "mput f s = (Ok (), f s)"
  by (simp add: mput_def)

lemma mbind_apply:
  "mbind m f s = (case fst (m s) of Ok x \<Rightarrow> f x (snd (m s)) | Err e \<Rightarrow> (Err e, snd (m s))
     | Panic \<Rightarrow> (Panic, snd (m s)) | Diverge \<Rightarrow> (Diverge, snd (m s)))"
  by (simp add: mbind_def case_prod_beta)

lemma mbind_Ok_iff [outcome_simps]:
  "mbind m f s = (Ok y, s'') \<longleftrightarrow> (\<exists>x s'. m s = (Ok x, s') \<and> f x s' = (Ok y, s''))"
  by (auto simp: mbind_def split: prod.splits outcome.splits)

lemma mbind_step: "m s = (Ok x, s') \<Longrightarrow> mbind m f s = f x s'"
  by (simp add: mbind_def)

lemma mbind_mret [simp]: "mbind (mret x) f = f x"
  by (simp add: mbind_def fun_eq_iff)

lemma mbind_mget [simp]: "mbind (mget g) f s = f (g s) s"
  by (simp add: mbind_def)

lemma mbind_mput [simp]: "mbind (mput g) f s = f () (g s)"
  by (simp add: mbind_def)

lemma mbind_mlift_Ok [simp]: "mbind (mlift (Ok x)) f = f x"
  by (simp add: mbind_def fun_eq_iff)

lemma mbind_mlift_Err [simp]: "mbind (mlift (Err e)) f = mlift (Err e)"
  by (simp add: mbind_def fun_eq_iff)

lemma mbind_mlift_Panic [simp]: "mbind (mlift Panic) f = mlift Panic"
  by (simp add: mbind_def fun_eq_iff)

lemma mbind_mlift_Diverge [simp]: "mbind (mlift Diverge) f = mlift Diverge"
  by (simp add: mbind_def fun_eq_iff)

lemma mlift_Ok_iff [outcome_simps]: "mlift r s = (Ok x, s') \<longleftrightarrow> r = Ok x \<and> s' = s"
  by auto

lemma mlift_obind: "mlift (obind r f) = mbind (mlift r) (\<lambda>x. mlift (f x))"
  by (cases r) (simp_all add: mbind_def fun_eq_iff)

section \<open>Relations kept by every step\<close>

text \<open>
  \<open>keeps R m\<close>: whatever \<open>m\<close> returns, the state it leaves is related by \<open>R\<close> to the
  state it started in. The rules hold for any preorder; a component interprets the locale
  with its own relation and then only has to look at the calls that write.
\<close>

definition keeps :: "('s \<Rightarrow> 's \<Rightarrow> bool) \<Rightarrow> ('s, 'a) prog \<Rightarrow> bool" where
  "keeps R m \<longleftrightarrow> (\<forall>s. R s (snd (m s)))"

lemma keepsI: "(\<And>s. R s (snd (m s))) \<Longrightarrow> keeps R m"
  by (simp add: keeps_def)

lemma keepsD: "keeps R m \<Longrightarrow> m s = (r, s') \<Longrightarrow> R s s'"
  by (metis keeps_def snd_conv)

locale state_frame =
  fixes R :: "'s \<Rightarrow> 's \<Rightarrow> bool"
  assumes frame_refl: "R s s"
    and frame_trans: "R s t \<Longrightarrow> R t u \<Longrightarrow> R s u"
begin

lemma keeps_mret: "keeps R (mret x)"
  by (simp add: keeps_def frame_refl)

lemma keeps_mlift: "keeps R (mlift r)"
  by (simp add: keeps_def frame_refl)

lemma keeps_mget: "keeps R (mget f)"
  by (simp add: keeps_def frame_refl)

lemma keeps_mbind: "keeps R m \<Longrightarrow> (\<And>x. keeps R (f x)) \<Longrightarrow> keeps R (mbind m f)"
  by (auto simp: keeps_def mbind_apply intro: frame_trans split: outcome.splits)

lemma keeps_mbind_state:
  assumes "keeps R m"
    and "\<And>x s s'. m s = (Ok x, s') \<Longrightarrow> R s (snd (f x s'))"
  shows "keeps R (mbind m f)"
proof (rule keepsI)
  fix s
  obtain r s' where m: "m s = (r, s')" by (cases "m s")
  show "R s (snd (mbind m f s))"
    using assms(2)[of s] keepsD[OF assms(1) m] m by (cases r) (simp_all add: mbind_apply)
qed

lemma keeps_mlift_bind: "(\<And>x. r = Ok x \<Longrightarrow> keeps R (f x)) \<Longrightarrow> keeps R (mbind (mlift r) f)"
  by (cases r) (auto simp: keeps_def mbind_apply frame_refl)

lemma keeps_if: "(b \<Longrightarrow> keeps R m) \<Longrightarrow> (\<not> b \<Longrightarrow> keeps R n) \<Longrightarrow> keeps R (if b then m else n)"
  by simp

lemma keeps_option:
  "(v = None \<Longrightarrow> keeps R m) \<Longrightarrow> (\<And>x. v = Some x \<Longrightarrow> keeps R (f x)) \<Longrightarrow>
    keeps R (case v of None \<Rightarrow> m | Some x \<Rightarrow> f x)"
  by (simp split: option.splits)

lemma keeps_pair:
  "(\<And>x y. p = (x, y) \<Longrightarrow> keeps R (f x y)) \<Longrightarrow> keeps R (case p of (x, y) \<Rightarrow> f x y)"
  by (simp split: prod.splits)

lemma keeps_pure: "(\<And>s. snd (m s) = s) \<Longrightarrow> keeps R m"
  by (simp add: keeps_def frame_refl)

lemmas keeps_rules = keeps_mret keeps_mlift keeps_mget keeps_mlift_bind keeps_mbind keeps_if keeps_option keeps_pair

text \<open>A whole run of steps stays related.\<close>

lemma run_kept:
  assumes step: "\<And>a s. R s (step a s)"
  shows "R s (fold step xs s)"
proof (induction xs arbitrary: s)
  case Nil
  then show ?case by (simp add: frame_refl)
next
  case (Cons x xs)
  show ?case using frame_trans [OF step Cons.IH] by simp
qed

end

text \<open>A run that ends with a property it did not start with has a step that establishes it.\<close>

lemma rtranclp_crossing:
  assumes "R\<^sup>*\<^sup>* x y" and "P y" and "\<not> P x"
  shows "\<exists>a b. R\<^sup>*\<^sup>* x a \<and> R a b \<and> \<not> P a \<and> P b \<and> R\<^sup>*\<^sup>* b y"
  using assms
proof (induction rule: rtranclp_induct)
  case (step y z)
  show ?case
  proof (cases "P y")
    case True
    then obtain a b where "R\<^sup>*\<^sup>* x a" "R a b" "\<not> P a" "P b" "R\<^sup>*\<^sup>* b y"
      using step by blast
    then show ?thesis using step.hyps(2) by (meson rtranclp.rtrancl_into_rtrancl)
  next
    case False
    then show ?thesis using step by blast
  qed
qed simp

section \<open>Path strings\<close>

definition no_slash :: "string \<Rightarrow> bool" where
  "no_slash s \<longleftrightarrow> CHR ''/'' \<notin> set s"

lemma no_slash_simps [simp]:
  "no_slash []"
  "no_slash (c # s) \<longleftrightarrow> c \<noteq> CHR ''/'' \<and> no_slash s"
  "no_slash (s @ t) \<longleftrightarrow> no_slash s \<and> no_slash t"
  by (auto simp: no_slash_def)

text \<open>The first segment of a path determines the split.\<close>

lemma slash_split:
  assumes "no_slash a" and "no_slash b"
    and "a @ CHR ''/'' # s = b @ CHR ''/'' # t"
  shows "a = b \<and> s = t"
  using assms
proof (induction a arbitrary: b)
  case Nil
  then show ?case by (cases b) auto
next
  case (Cons x a)
  then show ?case by (cases b) auto
qed

lemma slash_split_iff:
  "no_slash a \<Longrightarrow> no_slash b \<Longrightarrow>
    a @ CHR ''/'' # s = b @ CHR ''/'' # t \<longleftrightarrow> a = b \<and> s = t"
  using slash_split by blast

end
