(* ===== verification/Ibc_Types.thy ===== *)
theory Ibc_Types
  imports Prelude
begin

text \<open>
  The data the proxy module and its two light clients handle, and the interfaces they
  call. Structs of the repository (\<open>xx-proxy\<close> and \<open>xx-multiv\<close> protobuf types, the
  keeper) and the IBC messages of \<open>third_party/proto\<close> are records with the source's
  fields. Code outside the repository enters only as parameters: \<open>lib\<close> (the codec and
  the package functions of ibc-go and the SDK), \<open>client_ops\<close> (the methods of the
  \<open>exported.ClientState\<close> interface) and \<open>ClientKeeper\<close> (\<open>expected_keepers.go\<close>).
\<close>

section \<open>IBC data\<close>

record Height =
  RevisionNumber :: u64
  RevisionHeight :: u64

text \<open>A protobuf \<open>Any\<close>; a Go pointer to one is an option (\<open>None\<close> is nil).\<close>

record Any =
  TypeUrl :: string
  AnyValue :: bytes

record Version =
  Identifier :: string
  Features :: "string list"

text \<open>Enum values are \<open>int32\<close>: the wire may carry values outside the named ones.\<close>

type_synonym int32 = "32 word"

abbreviation CONN_UNINITIALIZED :: int32 where "CONN_UNINITIALIZED \<equiv> 0"
abbreviation CONN_INIT :: int32 where "CONN_INIT \<equiv> 1"
abbreviation CONN_TRYOPEN :: int32 where "CONN_TRYOPEN \<equiv> 2"
abbreviation CONN_OPEN :: int32 where "CONN_OPEN \<equiv> 3"

abbreviation CHAN_INIT :: int32 where "CHAN_INIT \<equiv> 1"
abbreviation CHAN_TRYOPEN :: int32 where "CHAN_TRYOPEN \<equiv> 2"
abbreviation CHAN_OPEN :: int32 where "CHAN_OPEN \<equiv> 3"

text \<open>A \<open>MerklePrefix\<close> is its \<open>KeyPrefix\<close> bytes.\<close>

type_synonym MerklePrefix = string

record ConnCounterparty =
  CpClientId :: string
  CpConnectionId :: string
  CpPrefix :: MerklePrefix

record ConnectionEnd =
  ClientId :: string
  Versions :: "Version list"
  ConnState :: int32
  ConnCp :: ConnCounterparty
  DelayPeriod :: u64

record ChanCounterparty =
  CpPortId :: string
  CpChannelId :: string

record Channel =
  ChanState :: int32
  Ordering :: int32
  ChanCp :: ChanCounterparty
  ConnectionHops :: "string list"
  ChanVersion :: string

record Packet =
  Sequence :: u64
  SourcePort :: string
  SourceChannel :: string
  DestinationPort :: string
  DestinationChannel :: string
  PacketData :: bytes
  TimeoutHeight :: Height
  TimeoutTimestamp :: u64

text \<open>
  Values of the \<open>exported.Prefix\<close> interface: a Merkle prefix, a nil pointer to one (the
  optional prefixes of a proxy client), or the fork's \<open>MultiPrefix\<close>.
\<close>

datatype prefix =
    MerklePfx MerklePrefix
  | NilMerklePfx
  | MultiPrefix prefix string

definition prefix_ptr :: "MerklePrefix option \<Rightarrow> prefix" where
  "prefix_ptr p = (case p of None \<Rightarrow> NilMerklePfx | Some b \<Rightarrow> MerklePfx b)"

section \<open>Client states, consensus states and multi-proofs\<close>

record ProxyClientState =
  ProxyClientStateAny :: "Any option"
  UpstreamClientId :: string
  ProxyPrefix :: "MerklePrefix option"
  IbcPrefix :: "MerklePrefix option"

record ProxyConsensusState =
  ProxyConsensusStateAny :: "Any option"

record MultivClientState =
  UnderlyingClientState :: "Any option"
  Depth :: "32 word"

record Proof =
  ClientProof :: bytes
  ClientState :: "Any option"
  ConsensusProof :: bytes
  ConsensusState :: "Any option"
  ProofHeight :: Height
  ConsensusHeight :: Height

record LeafProof =
  LfProof :: bytes
  LfProofHeight :: Height

record MultiProof =
  Head :: Proof
  Branches :: "Proof list"
  Leaf :: LeafProof

text \<open>
  Dynamic values of the interfaces \<open>exported.ClientState\<close> and
  \<open>exported.ConsensusState\<close>: the two clients of the repository, or a value \<open>'x\<close> of a
  client outside it. Headers and misbehaviour evidence are such outside values too.
\<close>

datatype 'x client_state =
    ExternalClient 'x
  | ProxyClient ProxyClientState
  | MultivClient MultivClientState

datatype 'x consensus_state =
    ExternalConsensus 'x
  | ProxyConsensus ProxyConsensusState

datatype 'x proof_value = MultiProofVal MultiProof | OtherProof 'x

text \<open>
  Key-value stores handed to a light client: a concrete map of present keys, or the
  struct \<open>proxyExtractorStore\<close> that embeds another store.
\<close>

datatype kvstore =
    MapStore "string \<rightharpoonup> bytes"
  | ProxyExtractorStore kvstore

section \<open>Interfaces to code outside the repository\<close>

text \<open>
  The codec (\<open>codec.BinaryCodec\<close> and the packing helpers of \<open>02-client\<close>) and the package
  functions the sources call: the store keys of \<open>24-host\<close>, the packet commitments of
  \<open>04-channel\<close>, \<open>VerifySupportedFeature\<close> of \<open>03-connection\<close>, \<open>Height.EQ\<close>,
  \<open>Prefix.Bytes\<close> and \<open>sdk.Uint64ToBigEndian\<close>. Unpacking an \<open>Any\<close> with
  \<open>cdc.UnpackAny\<close> can leave the interface nil, hence the option.
\<close>

record 'x lib =
  PackClientState :: "'x client_state option \<Rightarrow> Any outcome"
  UnpackClientState :: "Any option \<Rightarrow> 'x client_state outcome"
  PackConsensusState :: "'x consensus_state option \<Rightarrow> Any outcome"
  UnpackConsensusState :: "Any option \<Rightarrow> 'x consensus_state outcome"
  MarshalClientState :: "'x client_state \<Rightarrow> bytes outcome"
  UnmarshalClientState :: "bytes \<Rightarrow> 'x client_state outcome"
  MarshalConsensusState :: "'x consensus_state \<Rightarrow> bytes outcome"
  UnmarshalConsensusState :: "bytes \<Rightarrow> 'x consensus_state outcome"
  MarshalConnectionEnd :: "ConnectionEnd \<Rightarrow> bytes"
  UnmarshalConnectionEnd :: "bytes \<Rightarrow> ConnectionEnd outcome"
  MarshalChannel :: "Channel \<Rightarrow> bytes"
  UnmarshalChannel :: "bytes \<Rightarrow> Channel outcome"
  UnpackAnyClientState :: "Any option \<Rightarrow> 'x client_state option outcome"
  UnpackAnyConsensusState :: "Any option \<Rightarrow> 'x consensus_state option outcome"
  UnmarshalProof :: "bytes \<Rightarrow> 'x proof_value option outcome"
  ClientStateKey :: string
  ConsensusStateKey :: "Height \<Rightarrow> string"
  FullClientStateKey :: "string \<Rightarrow> string"
  FullConsensusStateKey :: "string \<Rightarrow> Height \<Rightarrow> string"
  ConnectionKey :: "string \<Rightarrow> string"
  ChannelKey :: "string \<Rightarrow> string \<Rightarrow> string"
  PacketCommitmentKey :: "string \<Rightarrow> string \<Rightarrow> u64 \<Rightarrow> string"
  PacketAcknowledgementKey :: "string \<Rightarrow> string \<Rightarrow> u64 \<Rightarrow> string"
  PacketReceiptKey :: "string \<Rightarrow> string \<Rightarrow> u64 \<Rightarrow> string"
  NextSequenceRecvKey :: "string \<Rightarrow> string \<Rightarrow> string"
  KeyConsensusStatePrefix :: string
  CommitPacket :: "Packet \<Rightarrow> bytes"
  CommitAcknowledgement :: "bytes \<Rightarrow> bytes"
  Uint64ToBigEndian :: "u64 \<Rightarrow> bytes"
  VerifySupportedFeature :: "Version \<Rightarrow> string \<Rightarrow> bool"
  OrderString :: "int32 \<Rightarrow> string"
  HeightEQ :: "Height \<Rightarrow> Height \<Rightarrow> bool"
  PrefixBytes :: "prefix \<Rightarrow> string"

text \<open>
  The methods of \<open>exported.ClientState\<close>, by receiver. A method that takes a store may
  write to it, so it is a program over the store. \<open>'i\<close> is the rest of the SDK context
  (block header and the stores of other modules).
  \<open>CheckSubstituteAndUpdateState\<close> returns both of its Go results, because a caller of
  it in the repository looks at the value without looking at the error.
\<close>

record ('x, 'i) client_ops =
  op_ClientType :: "'x client_state \<Rightarrow> string outcome"
  op_GetLatestHeight :: "'x client_state \<Rightarrow> Height outcome"
  op_Validate :: "'x client_state \<Rightarrow> unit outcome"
  op_GetProofSpecs :: "'x client_state \<Rightarrow> 'x list outcome"
  op_Status :: "'x client_state \<Rightarrow> 'i \<Rightarrow> (kvstore, string) prog"
  op_Initialize :: "'x client_state \<Rightarrow> 'i \<Rightarrow> 'x consensus_state option \<Rightarrow> (kvstore, unit) prog"
  op_ExportMetadata :: "'x client_state \<Rightarrow> (kvstore, (string \<times> bytes) list) prog"
  op_ZeroCustomFields :: "'x client_state \<Rightarrow> 'x client_state option outcome"
  op_CheckHeaderAndUpdateState :: "'x client_state \<Rightarrow> 'i \<Rightarrow> 'x \<Rightarrow>
    (kvstore, 'x client_state option \<times> 'x consensus_state option) prog"
  op_CheckMisbehaviourAndUpdateState :: "'x client_state \<Rightarrow> 'i \<Rightarrow> 'x \<Rightarrow>
    (kvstore, 'x client_state option) prog"
  op_CheckSubstituteAndUpdateState :: "'x client_state \<Rightarrow> 'i \<Rightarrow> 'x client_state \<Rightarrow>
    (kvstore \<times> kvstore, 'x client_state option \<times> err option) prog"
  op_VerifyUpgradeAndUpdateState :: "'x client_state \<Rightarrow> 'i \<Rightarrow> 'x client_state \<Rightarrow>
    'x consensus_state \<Rightarrow> bytes \<Rightarrow> bytes \<Rightarrow>
    (kvstore, 'x client_state option \<times> 'x consensus_state option) prog"
  op_VerifyClientState :: "'x client_state \<Rightarrow> Height \<Rightarrow> prefix \<Rightarrow> string \<Rightarrow> bytes \<Rightarrow>
    'x client_state \<Rightarrow> (kvstore, unit) prog"
  op_VerifyClientConsensusState :: "'x client_state \<Rightarrow> Height \<Rightarrow> string \<Rightarrow> Height \<Rightarrow> prefix \<Rightarrow>
    bytes \<Rightarrow> 'x consensus_state \<Rightarrow> (kvstore, unit) prog"
  op_VerifyConnectionState :: "'x client_state \<Rightarrow> Height \<Rightarrow> prefix \<Rightarrow> bytes \<Rightarrow> string \<Rightarrow>
    ConnectionEnd \<Rightarrow> (kvstore, unit) prog"
  op_VerifyChannelState :: "'x client_state \<Rightarrow> Height \<Rightarrow> prefix \<Rightarrow> bytes \<Rightarrow> string \<Rightarrow> string \<Rightarrow>
    Channel \<Rightarrow> (kvstore, unit) prog"
  op_VerifyPacketCommitment :: "'x client_state \<Rightarrow> 'i \<Rightarrow> Height \<Rightarrow> u64 \<Rightarrow> u64 \<Rightarrow> prefix \<Rightarrow> bytes \<Rightarrow>
    string \<Rightarrow> string \<Rightarrow> u64 \<Rightarrow> bytes \<Rightarrow> (kvstore, unit) prog"
  op_VerifyPacketAcknowledgement :: "'x client_state \<Rightarrow> 'i \<Rightarrow> Height \<Rightarrow> u64 \<Rightarrow> u64 \<Rightarrow> prefix \<Rightarrow> bytes \<Rightarrow>
    string \<Rightarrow> string \<Rightarrow> u64 \<Rightarrow> bytes \<Rightarrow> (kvstore, unit) prog"
  op_VerifyPacketReceiptAbsence :: "'x client_state \<Rightarrow> 'i \<Rightarrow> Height \<Rightarrow> u64 \<Rightarrow> u64 \<Rightarrow> prefix \<Rightarrow> bytes \<Rightarrow>
    string \<Rightarrow> string \<Rightarrow> u64 \<Rightarrow> (kvstore, unit) prog"
  op_VerifyNextSequenceRecv :: "'x client_state \<Rightarrow> 'i \<Rightarrow> Height \<Rightarrow> u64 \<Rightarrow> u64 \<Rightarrow> prefix \<Rightarrow> bytes \<Rightarrow>
    string \<Rightarrow> string \<Rightarrow> u64 \<Rightarrow> (kvstore, unit) prog"

text \<open>The methods of \<open>exported.ConsensusState\<close>.\<close>

record 'x consensus_ops =
  co_GetRoot :: "'x consensus_state \<Rightarrow> bytes outcome"
  co_GetTimestamp :: "'x consensus_state \<Rightarrow> u64 outcome"
  co_ValidateBasic :: "'x consensus_state \<Rightarrow> unit outcome"

text \<open>
  \<open>types.ClientKeeper\<close>. \<open>ClientStore\<close> returns a handle into the client store of a
  client; \<open>PutClientStore\<close> is the effect of writes through that handle.
\<close>

record ('x, 'i) ClientKeeper =
  ClientStore :: "'i \<Rightarrow> string \<Rightarrow> kvstore"
  PutClientStore :: "'i \<Rightarrow> string \<Rightarrow> kvstore \<Rightarrow> 'i"
  GetClientState :: "'i \<Rightarrow> string \<Rightarrow> 'x client_state option"
  GetSelfConsensusState :: "'i \<Rightarrow> Height \<Rightarrow> 'x consensus_state option"
  ValidateSelfClient :: "'i \<Rightarrow> 'x client_state \<Rightarrow> unit outcome"

text \<open>
  The keeper, and the part of \<open>sdk.Context\<close> it works on: the proxy module's own store and
  the rest of the world.
\<close>

record ('x, 'i) Keeper =
  proxyStoreKey :: string
  ibcStoreKey :: string
  cdc :: "'x lib"
  clientKeeper :: "('x, 'i) ClientKeeper"

record 'i ctx =
  proxyStore :: "string \<rightharpoonup> bytes"
  world :: 'i

section \<open>Documented behaviour of the outside code\<close>

text \<open>Decimal digits, as in ICS-24 sequence numbers and heights.\<close>

definition digit :: "nat \<Rightarrow> char" where
  "digit d = char_of (48 + d)"

fun decimal :: "nat \<Rightarrow> string" where
  "decimal n = (if n < 10 then [digit n] else decimal (n div 10) @ [digit (n mod 10)])"

declare decimal.simps [simp del]

definition height_string :: "Height \<Rightarrow> string" where
  "height_string h = decimal (unat (RevisionNumber h)) @ ''-'' @ decimal (unat (RevisionHeight h))"

text \<open>The paths of ICS-24 (host state machine requirements).\<close>

definition ics24_paths :: "'x lib \<Rightarrow> bool" where
  "ics24_paths L \<longleftrightarrow>
     ClientStateKey L = ''clientState'' \<and>
     KeyConsensusStatePrefix L = ''consensusStates'' \<and>
     (\<forall>h. ConsensusStateKey L h = ''consensusStates/'' @ height_string h) \<and>
     (\<forall>i. FullClientStateKey L i = ''clients/'' @ i @ ''/clientState'') \<and>
     (\<forall>i h. FullConsensusStateKey L i h = ''clients/'' @ i @ ''/consensusStates/'' @ height_string h) \<and>
     (\<forall>i. ConnectionKey L i = ''connections/'' @ i) \<and>
     (\<forall>p c. ChannelKey L p c = ''channelEnds/ports/'' @ p @ ''/channels/'' @ c) \<and>
     (\<forall>p c n. PacketCommitmentKey L p c n =
        ''commitments/ports/'' @ p @ ''/channels/'' @ c @ ''/sequences/'' @ decimal (unat n)) \<and>
     (\<forall>p c n. PacketAcknowledgementKey L p c n =
        ''acks/ports/'' @ p @ ''/channels/'' @ c @ ''/sequences/'' @ decimal (unat n)) \<and>
     (\<forall>p c n. PacketReceiptKey L p c n =
        ''receipts/ports/'' @ p @ ''/channels/'' @ c @ ''/sequences/'' @ decimal (unat n)) \<and>
     (\<forall>p c. NextSequenceRecvKey L p c = ''nextSequenceRecv/ports/'' @ p @ ''/channels/'' @ c)"

text \<open>
  The codec decodes what it encoded, and never encodes to nothing. \<open>Prefix.Bytes\<close> of a
  Merkle prefix is its key prefix, \<open>Height.EQ\<close> is equality.
\<close>

definition codec_ok :: "'x lib \<Rightarrow> bool" where
  "codec_ok L \<longleftrightarrow>
     (\<forall>c. UnmarshalConnectionEnd L (MarshalConnectionEnd L c) = Ok c \<and> MarshalConnectionEnd L c \<noteq> []) \<and>
     (\<forall>c. UnmarshalChannel L (MarshalChannel L c) = Ok c \<and> MarshalChannel L c \<noteq> []) \<and>
     (\<forall>c b. MarshalClientState L c = Ok b \<longrightarrow> UnmarshalClientState L b = Ok c \<and> b \<noteq> []) \<and>
     (\<forall>c b. MarshalConsensusState L c = Ok b \<longrightarrow> UnmarshalConsensusState L b = Ok c \<and> b \<noteq> []) \<and>
     (\<forall>c a. PackClientState L (Some c) = Ok a \<longrightarrow> UnpackClientState L (Some a) = Ok c) \<and>
     (\<forall>c a. PackConsensusState L (Some c) = Ok a \<longrightarrow> UnpackConsensusState L (Some a) = Ok c)"

definition helpers_ok :: "'x lib \<Rightarrow> bool" where
  "helpers_ok L \<longleftrightarrow>
     (\<forall>b. PrefixBytes L (MerklePfx b) = b) \<and> (\<forall>h h'. HeightEQ L h h' \<longleftrightarrow> h = h')"

text \<open>Client identifiers on the proxy follow ICS-24: they contain no slash.\<close>

definition client_ids_ok :: "('x, 'i) ClientKeeper \<Rightarrow> bool" where
  "client_ids_ok CK \<longleftrightarrow> (\<forall>w i. GetClientState CK w i \<noteq> None \<longrightarrow> no_slash i)"

lemma ics24_pathsD [path_simps]:
  assumes "ics24_paths L"
  shows "ClientStateKey L = ''clientState''"
    and "ConsensusStateKey L h = ''consensusStates/'' @ height_string h"
    and "FullClientStateKey L i = ''clients/'' @ i @ ''/clientState''"
    and "FullConsensusStateKey L i h = ''clients/'' @ i @ ''/consensusStates/'' @ height_string h"
    and "ConnectionKey L i = ''connections/'' @ i"
    and "ChannelKey L p c = ''channelEnds/ports/'' @ p @ ''/channels/'' @ c"
    and "PacketCommitmentKey L p c n =
      ''commitments/ports/'' @ p @ ''/channels/'' @ c @ ''/sequences/'' @ decimal (unat n)"
    and "PacketAcknowledgementKey L p c n =
      ''acks/ports/'' @ p @ ''/channels/'' @ c @ ''/sequences/'' @ decimal (unat n)"
    and "PacketReceiptKey L p c n =
      ''receipts/ports/'' @ p @ ''/channels/'' @ c @ ''/sequences/'' @ decimal (unat n)"
    and "NextSequenceRecvKey L p c = ''nextSequenceRecv/ports/'' @ p @ ''/channels/'' @ c"
    and "KeyConsensusStatePrefix L = ''consensusStates''"
  using assms by (simp_all add: ics24_paths_def)

lemma codec_okD:
  assumes "codec_ok L"
  shows "UnmarshalConnectionEnd L (MarshalConnectionEnd L c) = Ok c"
    and "MarshalConnectionEnd L c \<noteq> []"
    and "UnmarshalChannel L (MarshalChannel L ch) = Ok ch"
    and "MarshalChannel L ch \<noteq> []"
    and "MarshalClientState L s = Ok b \<Longrightarrow> UnmarshalClientState L b = Ok s"
    and "MarshalClientState L s = Ok b \<Longrightarrow> b \<noteq> []"
    and "MarshalConsensusState L k = Ok b \<Longrightarrow> UnmarshalConsensusState L b = Ok k"
    and "MarshalConsensusState L k = Ok b \<Longrightarrow> b \<noteq> []"
    and "PackClientState L (Some s) = Ok a \<Longrightarrow> UnpackClientState L (Some a) = Ok s"
    and "PackConsensusState L (Some k) = Ok a \<Longrightarrow> UnpackConsensusState L (Some a) = Ok k"
  using assms by (simp_all add: codec_ok_def)

end
