(* ===== verification/Proxy_Keys.thy ===== *)
theory Proxy_Keys
  imports Ibc_Types
begin

text \<open>
  Where the proxy module keeps its commitments: \<open>modules/proxy/types/keys.go\<close> and the
  prefix stores of \<open>modules/proxy/keeper/keeper.go\<close>. The abstract view is a
  \<open>slot\<close>: which upstream object a commitment is about; the lemmas show that
  the store path determines the upstream client, the upstream prefix and the slot when
  none of the identifiers contains a slash.
\<close>

section \<open>Splitting a path at its slashes\<close>

fun segments :: "string \<Rightarrow> string list" where
  "segments [] = [[]]"
| "segments (c # s) =
     (if c = CHR ''/'' then [] # segments s
      else (case segments s of [] \<Rightarrow> [[c]] | x # xs \<Rightarrow> (c # x) # xs))"

lemma segments_no_slash [simp]: "no_slash a \<Longrightarrow> segments a = [a]"
  by (induction a) auto

lemma segments_append_slash [simp]: "no_slash a \<Longrightarrow> segments (a @ CHR ''/'' # s) = a # segments s"
  by (induction a) auto

section \<open>Decimal numbers in paths\<close>

lemma digit_code: "d < 10 \<Longrightarrow> of_char (digit d) = 48 + d"
  by (simp add: digit_def)

lemma digit_inj: "d < 10 \<Longrightarrow> e < 10 \<Longrightarrow> digit d = digit e \<Longrightarrow> d = e"
  by (metis digit_code add_left_cancel)

definition is_digit :: "char \<Rightarrow> bool" where
  "is_digit c \<longleftrightarrow> 48 \<le> (of_char c :: nat) \<and> (of_char c :: nat) \<le> 57"

lemma is_digit_digit [simp]: "d < 10 \<Longrightarrow> is_digit (digit d)"
  by (simp add: is_digit_def digit_code)

lemma is_digit_slash [simp]: "\<not> is_digit (CHR ''/'')" and is_digit_dash [simp]: "\<not> is_digit (CHR ''-'')"
  by (simp_all add: is_digit_def)

lemma decimal_digits: "\<forall>c \<in> set (decimal n). is_digit c"
proof (induction n rule: decimal.induct)
  case (1 n)
  then show ?case by (subst decimal.simps) auto
qed

lemma decimal_nonempty [simp]: "decimal n \<noteq> []"
  by (subst decimal.simps) simp

lemma no_slash_decimal [simp]: "no_slash (decimal n)"
  using decimal_digits [of n] by (auto simp: no_slash_def)

text \<open>The value of a string of digits: the inverse of \<open>decimal\<close>.\<close>

definition value_of :: "string \<Rightarrow> nat" where
  "value_of s = foldl (\<lambda>a c. 10 * a + (of_char c - 48)) 0 s"

lemma value_of_decimal: "value_of (decimal n) = n"
proof (induction n rule: decimal.induct)
  case (1 n)
  then show ?case by (subst decimal.simps) (auto simp: value_of_def digit_code)
qed

lemma decimal_inject [simp]: "decimal n = decimal m \<longleftrightarrow> n = m"
  by (metis value_of_decimal)

lemma dash_split:
  assumes "CHR ''-'' \<notin> set a" and "CHR ''-'' \<notin> set b"
    and "a @ CHR ''-'' # s = b @ CHR ''-'' # t"
  shows "a = b \<and> s = t"
  using assms
proof (induction a arbitrary: b)
  case Nil
  then show ?case by (cases b) auto
next
  case (Cons x a)
  then show ?case by (cases b) auto
qed

lemma no_dash_decimal: "CHR ''-'' \<notin> set (decimal n)"
  using decimal_digits is_digit_dash by blast

lemma height_string_inject [simp]: "height_string h = height_string h' \<longleftrightarrow> h = h'"
proof
  assume "height_string h = height_string h'"
  then have "decimal (unat (RevisionNumber h)) @ CHR ''-'' # decimal (unat (RevisionHeight h)) =
      decimal (unat (RevisionNumber h')) @ CHR ''-'' # decimal (unat (RevisionHeight h'))"
    by (simp only: height_string_def append.simps)
  then have "decimal (unat (RevisionNumber h)) = decimal (unat (RevisionNumber h')) \<and>
      decimal (unat (RevisionHeight h)) = decimal (unat (RevisionHeight h'))"
    by (rule dash_split [OF no_dash_decimal no_dash_decimal])
  then have "RevisionNumber h = RevisionNumber h'" and "RevisionHeight h = RevisionHeight h'"
    by (simp_all only: decimal_inject word_unat_eq_iff)
  then show "h = h'" by (cases h; cases h') simp
qed simp

lemma no_slash_height_string [simp]: "no_slash (height_string h)"
  by (simp add: height_string_def)

section \<open>\<open>keys.go\<close>\<close>

definition ProxyKey :: "'x lib \<Rightarrow> prefix \<Rightarrow> string \<Rightarrow> string \<Rightarrow> string" where
  "ProxyKey L upstreamPrefix upstreamClientID key =
     ((upstreamClientID @ ''/'') @ (PrefixBytes L upstreamPrefix @ ''/'')) @ key"

definition ProxyClientStateKey :: "'x lib \<Rightarrow> prefix \<Rightarrow> string \<Rightarrow> string \<Rightarrow> string" where
  "ProxyClientStateKey L upstreamPrefix upstreamClientID clientID =
     ProxyKey L upstreamPrefix upstreamClientID (FullClientStateKey L clientID)"

definition ProxyConsensusStateKey :: "'x lib \<Rightarrow> prefix \<Rightarrow> string \<Rightarrow> string \<Rightarrow> Height \<Rightarrow> string" where
  "ProxyConsensusStateKey L upstreamPrefix upstreamClientID clientID consensusHeight =
     ProxyKey L upstreamPrefix upstreamClientID (FullConsensusStateKey L clientID consensusHeight)"

definition ProxyConnectionKey :: "'x lib \<Rightarrow> prefix \<Rightarrow> string \<Rightarrow> string \<Rightarrow> string" where
  "ProxyConnectionKey L upstreamPrefix upstreamClientID connectionID =
     ProxyKey L upstreamPrefix upstreamClientID (ConnectionKey L connectionID)"

definition ProxyChannelKey :: "'x lib \<Rightarrow> prefix \<Rightarrow> string \<Rightarrow> string \<Rightarrow> string \<Rightarrow> string" where
  "ProxyChannelKey L upstreamPrefix upstreamClientID portID channelID =
     ProxyKey L upstreamPrefix upstreamClientID (ChannelKey L portID channelID)"

definition ProxyPacketCommitmentKey :: "'x lib \<Rightarrow> prefix \<Rightarrow> string \<Rightarrow> string \<Rightarrow> string \<Rightarrow> u64 \<Rightarrow> string" where
  "ProxyPacketCommitmentKey L upstreamPrefix upstreamClientID portID channelID seq =
     ProxyKey L upstreamPrefix upstreamClientID (PacketCommitmentKey L portID channelID seq)"

definition ProxyAcknowledgementKey :: "'x lib \<Rightarrow> prefix \<Rightarrow> string \<Rightarrow> string \<Rightarrow> string \<Rightarrow> u64 \<Rightarrow> string" where
  "ProxyAcknowledgementKey L upstreamPrefix upstreamClientID portID channelID seq =
     ProxyKey L upstreamPrefix upstreamClientID (PacketAcknowledgementKey L portID channelID seq)"

section \<open>The keeper and its prefix stores\<close>

definition NewKeeper :: "'x lib \<Rightarrow> string \<Rightarrow> string \<Rightarrow> ('x, 'i) ClientKeeper \<Rightarrow> ('x, 'i) Keeper" where
  "NewKeeper codec proxyKey ibcKey ck =
     \<lparr>proxyStoreKey = proxyKey, ibcStoreKey = ibcKey, cdc = codec, clientKeeper = ck\<rparr>"

text \<open>
  A \<open>storeprefix.NewStore(parent, p)\<close> reads and writes key \<open>k\<close> at \<open>p @ k\<close> of its
  parent; a store over the proxy module's own store is represented by that \<open>p\<close>.
\<close>

type_synonym substore = string

definition ProxyStore :: "'x lib \<Rightarrow> prefix \<Rightarrow> string \<Rightarrow> substore" where
  "ProxyStore L upstreamPrefix upstreamClientID =
     (upstreamClientID @ ''/'') @ (PrefixBytes L upstreamPrefix @ ''/'')"

definition ProxyClientStore :: "'x lib \<Rightarrow> prefix \<Rightarrow> string \<Rightarrow> string \<Rightarrow> substore" where
  "ProxyClientStore L upstreamPrefix upstreamClientID counterpartyClientIdentifier =
     (let clientPrefix = (''clients/'' @ counterpartyClientIdentifier) @ ''/''
      in ProxyStore L upstreamPrefix upstreamClientID @ clientPrefix)"

definition substore_get :: "substore \<Rightarrow> string \<Rightarrow> 'i ctx \<Rightarrow> bytes option" where
  "substore_get p k c = proxyStore c (p @ k)"

definition substore_set :: "substore \<Rightarrow> string \<Rightarrow> bytes \<Rightarrow> 'i ctx \<Rightarrow> 'i ctx" where
  "substore_set p k v c = c\<lparr>proxyStore := (proxyStore c)(p @ k \<mapsto> v)\<rparr>"

lemma substore_set_simps [simp]:
  "world (substore_set p k v c) = world c"
  "proxyStore (substore_set p k v c) = (proxyStore c)(p @ k \<mapsto> v)"
  by (simp_all add: substore_set_def)

text \<open>
  The contract of a store that a component reads and writes: a read after a write to the
  same key sees the value (for the keys the store hands through unchanged), a write to
  another key is not seen. The keeper's store and the stores given to light clients are
  instances.
\<close>

locale kv_store =
  fixes get :: "'s \<Rightarrow> string \<Rightarrow> bytes option outcome"
    and put :: "'s \<Rightarrow> string \<Rightarrow> bytes \<Rightarrow> 's"
    and plain :: "string \<Rightarrow> bool"
  assumes get_put_same: "plain k \<Longrightarrow> get (put s k v) k = Ok (Some v)"
    and get_put_other: "j \<noteq> k \<Longrightarrow> get (put s k v) j = get s j"
begin

lemma get_put: "plain k \<Longrightarrow> get (put s k v) j = (if j = k then Ok (Some v) else get s j)"
  by (simp add: get_put_same get_put_other)

lemma get_puts_other:
  "\<forall>(k, v) \<in> set kvs. j \<noteq> k \<Longrightarrow> get (fold (\<lambda>(k, v) s. put s k v) kvs s) j = get s j"
  by (induction kvs arbitrary: s) (auto simp: get_put_other)

text \<open>A written value stays readable while later writes go to other keys.\<close>

lemma get_put_then_others:
  assumes "plain k" and "\<forall>(j, w) \<in> set kvs. k \<noteq> j"
  shows "get (fold (\<lambda>(k, v) s. put s k v) kvs (put s k v)) k = Ok (Some v)"
  using assms by (simp add: get_puts_other get_put_same)

end

definition ctx_get :: "'i ctx \<Rightarrow> string \<Rightarrow> bytes option outcome" where
  "ctx_get c k = Ok (proxyStore c k)"

definition ctx_put :: "'i ctx \<Rightarrow> string \<Rightarrow> bytes \<Rightarrow> 'i ctx" where
  "ctx_put c k v = c\<lparr>proxyStore := (proxyStore c)(k \<mapsto> v)\<rparr>"

interpretation module_store: kv_store ctx_get ctx_put "\<lambda>k. True"
  by unfold_locales (simp_all add: ctx_get_def ctx_put_def)

lemma substore_via_ctx:
  "substore_set p k v c = ctx_put c (p @ k) v"
  "ctx_get c (p @ k) = Ok (substore_get p k c)"
  by (simp_all add: substore_set_def substore_get_def ctx_get_def ctx_put_def)

definition GetProxyCommitmentPrefix :: "('x, 'i) Keeper \<Rightarrow> MerklePrefix" where
  "GetProxyCommitmentPrefix k = proxyStoreKey k"

definition GetIBCCommitmentPrefix :: "('x, 'i) Keeper \<Rightarrow> MerklePrefix" where
  "GetIBCCommitmentPrefix k = ibcStoreKey k"

section \<open>Slots: the abstract view of the store\<close>

datatype slot =
    ClientStateSlot string
  | ConsensusStateSlot string Height
  | ConnectionSlot string
  | ChannelSlot string string
  | PacketCommitmentSlot string string u64
  | PacketAckSlot string string u64
  | PacketReceiptSlot string string u64
  | NextSequenceRecvSlot string string

fun slot_key :: "'x lib \<Rightarrow> slot \<Rightarrow> string" where
  "slot_key L (ClientStateSlot i) = FullClientStateKey L i"
| "slot_key L (ConsensusStateSlot i h) = FullConsensusStateKey L i h"
| "slot_key L (ConnectionSlot i) = ConnectionKey L i"
| "slot_key L (ChannelSlot p c) = ChannelKey L p c"
| "slot_key L (PacketCommitmentSlot p c n) = PacketCommitmentKey L p c n"
| "slot_key L (PacketAckSlot p c n) = PacketAcknowledgementKey L p c n"
| "slot_key L (PacketReceiptSlot p c n) = PacketReceiptKey L p c n"
| "slot_key L (NextSequenceRecvSlot p c) = NextSequenceRecvKey L p c"

fun slot_ok :: "slot \<Rightarrow> bool" where
  "slot_ok (ClientStateSlot i) = no_slash i"
| "slot_ok (ConsensusStateSlot i h) = no_slash i"
| "slot_ok (ConnectionSlot i) = no_slash i"
| "slot_ok (ChannelSlot p c) = (no_slash p \<and> no_slash c)"
| "slot_ok (PacketCommitmentSlot p c n) = (no_slash p \<and> no_slash c)"
| "slot_ok (PacketAckSlot p c n) = (no_slash p \<and> no_slash c)"
| "slot_ok (PacketReceiptSlot p c n) = (no_slash p \<and> no_slash c)"
| "slot_ok (NextSequenceRecvSlot p c) = (no_slash p \<and> no_slash c)"

text \<open>The path of a slot: the commitment path of the README, below the proxy's own prefix.\<close>

definition slot_path :: "'x lib \<Rightarrow> prefix \<Rightarrow> string \<Rightarrow> slot \<Rightarrow> string" where
  "slot_path L p u x = ProxyKey L p u (slot_key L x)"

lemma segments_slot_path:
  assumes "ics24_paths L" and "no_slash u" and "no_slash (PrefixBytes L p)"
  shows "segments (slot_path L p u x) = u # PrefixBytes L p # segments (slot_key L x)"
  using assms by (simp add: slot_path_def ProxyKey_def)

lemma segments_slot_key:
  assumes "ics24_paths L" and "slot_ok x"
  shows "segments (slot_key L x) =
    (case x of
       ClientStateSlot i \<Rightarrow> [''clients'', i, ''clientState'']
     | ConsensusStateSlot i h \<Rightarrow> [''clients'', i, ''consensusStates'', height_string h]
     | ConnectionSlot i \<Rightarrow> [''connections'', i]
     | ChannelSlot p c \<Rightarrow> [''channelEnds'', ''ports'', p, ''channels'', c]
     | PacketCommitmentSlot p c n \<Rightarrow>
         [''commitments'', ''ports'', p, ''channels'', c, ''sequences'', decimal (unat n)]
     | PacketAckSlot p c n \<Rightarrow>
         [''acks'', ''ports'', p, ''channels'', c, ''sequences'', decimal (unat n)]
     | PacketReceiptSlot p c n \<Rightarrow>
         [''receipts'', ''ports'', p, ''channels'', c, ''sequences'', decimal (unat n)]
     | NextSequenceRecvSlot p c \<Rightarrow> [''nextSequenceRecv'', ''ports'', p, ''channels'', c])"
  using assms by (cases x) (simp_all add: path_simps)

lemma slot_key_inject:
  assumes "ics24_paths L" and "slot_ok x" and "slot_ok y"
  shows "slot_key L x = slot_key L y \<longleftrightarrow> x = y"
proof
  assume "slot_key L x = slot_key L y"
  then have "segments (slot_key L x) = segments (slot_key L y)" by simp
  then show "x = y"
    unfolding segments_slot_key [OF assms(1,2)] segments_slot_key [OF assms(1,3)]
    by (cases x; cases y) (simp_all add: word_unat_eq_iff)
qed simp

text \<open>The kind of a slot is its first path segment, whatever the identifiers are.\<close>

fun slot_kind :: "slot \<Rightarrow> string" where
  "slot_kind (ClientStateSlot i) = ''clients''"
| "slot_kind (ConsensusStateSlot i h) = ''clients''"
| "slot_kind (ConnectionSlot i) = ''connections''"
| "slot_kind (ChannelSlot p c) = ''channelEnds''"
| "slot_kind (PacketCommitmentSlot p c n) = ''commitments''"
| "slot_kind (PacketAckSlot p c n) = ''acks''"
| "slot_kind (PacketReceiptSlot p c n) = ''receipts''"
| "slot_kind (NextSequenceRecvSlot p c) = ''nextSequenceRecv''"

lemma hd_segments_slot_key:
  "ics24_paths L \<Longrightarrow> hd (segments (slot_key L x)) = slot_kind x"
  by (cases x) (simp_all add: path_simps)

lemma slot_path_root:
  assumes "ics24_paths L" and "no_slash u" and "no_slash v"
    and "no_slash (PrefixBytes L p)" and "no_slash (PrefixBytes L q)"
    and eq: "slot_path L p u x = slot_path L q v y"
  shows "u = v \<and> PrefixBytes L p = PrefixBytes L q \<and> slot_key L x = slot_key L y"
proof -
  have "u @ CHR ''/'' # PrefixBytes L p @ CHR ''/'' # slot_key L x =
      v @ CHR ''/'' # PrefixBytes L q @ CHR ''/'' # slot_key L y"
    using eq by (simp add: slot_path_def ProxyKey_def)
  with assms show ?thesis by (metis slash_split)
qed

lemma slot_path_kind:
  assumes "ics24_paths L" and "no_slash u" and "no_slash v"
    and "no_slash (PrefixBytes L p)" and "no_slash (PrefixBytes L q)"
    and "slot_kind x \<noteq> slot_kind y"
  shows "slot_path L p u x \<noteq> slot_path L q v y"
  using assms slot_path_root hd_segments_slot_key by metis

text \<open>The prefix stores put every object where \<open>keys.go\<close> says.\<close>

lemma store_paths:
  assumes "ics24_paths L"
  shows "ProxyClientStore L p u i @ ClientStateKey L = slot_path L p u (ClientStateSlot i)"
    and "ProxyClientStore L p u i @ ConsensusStateKey L h = slot_path L p u (ConsensusStateSlot i h)"
    and "ProxyStore L p u @ slot_key L x = slot_path L p u x"
  using assms
  by (simp_all add: slot_path_def ProxyKey_def ProxyStore_def ProxyClientStore_def Let_def path_simps)

end
