(* ===== verification/Proxy_Client.thy ===== *)
theory Proxy_Client
  imports Proxy_Keys
begin

text \<open>
  The Proxy Client, \<open>modules/light-clients/xx-proxy/types\<close>: an IBC client that wraps the
  client of the proxy machine. Every verification goes to the wrapped client, with the
  store replaced by a \<open>proxyExtractorStore\<close> (so that it finds its own consensus states)
  and the prefix extended by the upstream client identifier and the upstream prefix.
  The methods take the table \<open>D\<close> of the wrapped client's methods as an argument.
\<close>

section \<open>Consensus states (\<open>consensus_state.go\<close>, \<open>store.go\<close>)\<close>

definition ProxyClientType :: string where
  "ProxyClientType = ''proxyclient''"

definition NewConsensusState :: "Any option \<Rightarrow> ProxyConsensusState" where
  "NewConsensusState consensusState = \<lparr>ProxyConsensusStateAny = consensusState\<rparr>"

definition ProxyCons_ClientType :: "ProxyConsensusState \<Rightarrow> string" where
  "ProxyCons_ClientType cs = ProxyClientType"

definition GetProxyConsensusState :: "'x lib \<Rightarrow> ProxyConsensusState \<Rightarrow> 'x consensus_state outcome" where
  "GetProxyConsensusState L cs = must (UnpackConsensusState L (ProxyConsensusStateAny cs))"

definition ProxyCons_UnpackInterfaces :: "'x lib \<Rightarrow> ProxyConsensusState \<Rightarrow> unit outcome" where
  "ProxyCons_UnpackInterfaces L cs =
     obind (UnpackAnyConsensusState L (ProxyConsensusStateAny cs)) (\<lambda>_. Ok ())"

definition ProxyCons_GetRoot :: "'x lib \<Rightarrow> 'x consensus_ops \<Rightarrow> ProxyConsensusState \<Rightarrow> bytes outcome" where
  "ProxyCons_GetRoot L C cs = obind (GetProxyConsensusState L cs) (co_GetRoot C)"

definition ProxyCons_GetTimestamp :: "'x lib \<Rightarrow> 'x consensus_ops \<Rightarrow> ProxyConsensusState \<Rightarrow> u64 outcome" where
  "ProxyCons_GetTimestamp L C cs = obind (GetProxyConsensusState L cs) (co_GetTimestamp C)"

definition ProxyCons_ValidateBasic :: "'x lib \<Rightarrow> 'x consensus_ops \<Rightarrow> ProxyConsensusState \<Rightarrow> unit outcome" where
  "ProxyCons_ValidateBasic L C cs = obind (GetProxyConsensusState L cs) (co_ValidateBasic C)"

section \<open>The extractor store (\<open>update.go\<close>)\<close>

fun strip_prefix :: "string \<Rightarrow> string \<Rightarrow> string option" where
  "strip_prefix [] s = Some s"
| "strip_prefix (c # p) [] = None"
| "strip_prefix (c # p) (d # s) = (if c = d then strip_prefix p s else None)"

text \<open>The regular expression \<open>^consensusStates/\d+-\d+$\<close>.\<close>

definition consensusStateKeyRegexp :: "'x lib \<Rightarrow> string \<Rightarrow> bool" where
  "consensusStateKeyRegexp L key =
     (case strip_prefix (KeyConsensusStatePrefix L @ ''/'') key of
        None \<Rightarrow> False
      | Some r \<Rightarrow>
          takeWhile is_digit r \<noteq> [] \<and>
          (case dropWhile is_digit r of
             [] \<Rightarrow> False
           | c # b \<Rightarrow> c = CHR ''-'' \<and> b \<noteq> [] \<and> list_all is_digit b))"

text \<open>\<open>proxyExtractorStore.Get\<close>, for the value \<open>v\<close> that the embedded store holds.\<close>

definition extractor_Get :: "'x lib \<Rightarrow> string \<Rightarrow> bytes option \<Rightarrow> bytes option outcome" where
  "extractor_Get L key v =
     (if \<not> consensusStateKeyRegexp L key then Ok v
      else case v of
        None \<Rightarrow> Ok v
      | Some b \<Rightarrow>
          if b = [] then Ok v
          else obind (must (UnmarshalConsensusState L b)) (\<lambda>cs.
            case cs of
              ExternalConsensus x \<Rightarrow> Panic
            | ProxyConsensus p \<Rightarrow>
                obind (GetProxyConsensusState L p) (\<lambda>inner.
                obind (must (MarshalConsensusState L inner)) (\<lambda>bz. Ok (Some bz)))))"

text \<open>
  \<open>Get\<close> and \<open>Set\<close> of a store; the extractor overrides only \<open>Get\<close>, all other methods
  are those of the store it embeds.
\<close>

primrec store_Get :: "'x lib \<Rightarrow> kvstore \<Rightarrow> string \<Rightarrow> bytes option outcome" where
  "store_Get L (MapStore m) key = Ok (m key)"
| "store_Get L (ProxyExtractorStore s) key = obind (store_Get L s key) (extractor_Get L key)"

primrec store_Set :: "kvstore \<Rightarrow> string \<Rightarrow> bytes \<Rightarrow> kvstore" where
  "store_Set (MapStore m) key v = MapStore (m(key \<mapsto> v))"
| "store_Set (ProxyExtractorStore s) key v = ProxyExtractorStore (store_Set s key v)"

definition NewProxyExtractorStore :: "kvstore \<Rightarrow> kvstore" where
  "NewProxyExtractorStore store = ProxyExtractorStore store"

text \<open>The embedded store, seen again by the caller when the call on the wrapper returns.\<close>

fun embedded :: "kvstore \<Rightarrow> kvstore" where
  "embedded (ProxyExtractorStore s) = s"
| "embedded (MapStore m) = MapStore m"

definition on_extractor :: "(kvstore, 'a) prog \<Rightarrow> (kvstore, 'a) prog" where
  "on_extractor f = (\<lambda>s. case f (NewProxyExtractorStore s) of (r, s') \<Rightarrow> (r, embedded s'))"

lemma on_extractor_Ok:
  "on_extractor f s = (Ok x, t) \<longleftrightarrow> (\<exists>s1. f (NewProxyExtractorStore s) = (Ok x, s1) \<and> t = embedded s1)"
  by (cases "f (NewProxyExtractorStore s)") (auto simp: on_extractor_def)

lemma strip_prefix_Some: "strip_prefix p s = Some r \<longleftrightarrow> s = p @ r"
  by (induction p s rule: strip_prefix.induct) auto

lemma strip_prefix_append [simp]: "strip_prefix p (p @ r) = Some r"
  by (simp add: strip_prefix_Some)

lemma takeWhile_digits:
  "list_all is_digit a \<Longrightarrow> \<not> is_digit c \<Longrightarrow>
    takeWhile is_digit (a @ c # b) = a \<and> dropWhile is_digit (a @ c # b) = c # b"
  by (induction a) auto

lemma list_all_takeWhile [simp]: "list_all P (takeWhile P xs)"
  by (induction xs) auto

text \<open>The matcher accepts exactly what the regular expression describes.\<close>

lemma regexp_iff:
  "consensusStateKeyRegexp L key \<longleftrightarrow>
     (\<exists>a b. a \<noteq> [] \<and> b \<noteq> [] \<and> list_all is_digit a \<and> list_all is_digit b \<and>
        key = KeyConsensusStatePrefix L @ ''/'' @ a @ ''-'' @ b)"
  (is "?l \<longleftrightarrow> ?r")
proof
  assume ?l
  then obtain r b where "strip_prefix (KeyConsensusStatePrefix L @ ''/'') key = Some r"
    and a: "takeWhile is_digit r \<noteq> []"
    and b: "dropWhile is_digit r = CHR ''-'' # b" "b \<noteq> []" "list_all is_digit b"
    by (auto simp: consensusStateKeyRegexp_def split: option.splits list.splits)
  then have "key = KeyConsensusStatePrefix L @ ''/'' @ takeWhile is_digit r @ ''-'' @ b"
    by (metis strip_prefix_Some takeWhile_dropWhile_id append.assoc append_Cons append_Nil)
  with a b show ?r by (metis list_all_takeWhile)
next
  assume ?r
  then obtain a b where ab: "a \<noteq> []" "b \<noteq> []" "list_all is_digit a" "list_all is_digit b"
    and key: "key = (KeyConsensusStatePrefix L @ ''/'') @ (a @ CHR ''-'' # b)"
    by auto
  have "strip_prefix (KeyConsensusStatePrefix L @ ''/'') key = Some (a @ CHR ''-'' # b)"
    unfolding key by (rule strip_prefix_append)
  with ab takeWhile_digits [of a "CHR ''-''" b] show ?l
    by (simp add: consensusStateKeyRegexp_def)
qed

lemma decimal_all_digits: "list_all is_digit (decimal n)"
  using decimal_digits by (simp add: list_all_iff)

lemma regexp_ConsensusStateKey:
  assumes "ics24_paths L"
  shows "consensusStateKeyRegexp L (ConsensusStateKey L h)"
proof -
  let ?a = "decimal (unat (RevisionNumber h))" and ?b = "decimal (unat (RevisionHeight h))"
  have "ConsensusStateKey L h = KeyConsensusStatePrefix L @ ''/'' @ ?a @ ''-'' @ ?b"
    unfolding ics24_pathsD(2,11) [OF assms] height_string_def by simp
  then show ?thesis
    unfolding regexp_iff using decimal_all_digits decimal_nonempty by blast
qed

lemma regexp_ClientStateKey: "ics24_paths L \<Longrightarrow> \<not> consensusStateKeyRegexp L (ClientStateKey L)"
  by (simp add: consensusStateKeyRegexp_def path_simps)

text \<open>A key below a consensus state key (processed time and height) does not match.\<close>

lemma regexp_subkey:
  assumes L: "ics24_paths L"
  shows "\<not> consensusStateKeyRegexp L (ConsensusStateKey L h @ ''/'' @ k)"
proof
  assume "consensusStateKeyRegexp L (ConsensusStateKey L h @ ''/'' @ k)"
  then obtain a b where ab: "list_all is_digit a" "list_all is_digit b"
    and "ConsensusStateKey L h @ ''/'' @ k = KeyConsensusStatePrefix L @ ''/'' @ a @ ''-'' @ b"
    unfolding regexp_iff by blast
  then have "height_string h @ ''/'' @ k = a @ ''-'' @ b"
    unfolding ics24_pathsD(2,11) [OF L] by simp
  then have "CHR ''/'' \<in> set (a @ ''-'' @ b)"
    by (metis append_Cons in_set_conv_decomp)
  with ab show False by (auto simp: list_all_iff)
qed

interpretation client_store: kv_store "store_Get L" store_Set "\<lambda>k. \<not> consensusStateKeyRegexp L k" for L
proof
  fix k v and s :: kvstore
  assume "\<not> consensusStateKeyRegexp L k"
  then show "store_Get L (store_Set s k v) k = Ok (Some v)"
    by (induction s) (simp_all add: extractor_Get_def)
next
  fix j k :: string and v and s :: kvstore
  assume "j \<noteq> k"
  then show "store_Get L (store_Set s k v) j = store_Get L s j"
    by (induction s) simp_all
qed

text \<open>What the extractor returns where the wrapped client looks for a consensus state.\<close>

lemma extractor_reads_inner:
  assumes "ics24_paths L" and "codec_ok L"
    and "store_Get L s (ConsensusStateKey L h) = Ok (Some b)"
    and "MarshalConsensusState L (ProxyConsensus p) = Ok b"
    and "UnpackConsensusState L (ProxyConsensusStateAny p) = Ok inner"
    and "MarshalConsensusState L inner = Ok b'"
  shows "store_Get L (ProxyExtractorStore s) (ConsensusStateKey L h) = Ok (Some b')"
  using assms codec_okD(7,8) [OF assms(2,4)]
  by (simp add: extractor_Get_def regexp_ConsensusStateKey GetProxyConsensusState_def)

text \<open>The consensus state that a light client finds in its store for a height.\<close>

definition reads_consensus :: "'x lib \<Rightarrow> kvstore \<Rightarrow> Height \<Rightarrow> 'x consensus_state \<Rightarrow> bool" where
  "reads_consensus L s h k \<longleftrightarrow>
     (\<exists>b. store_Get L s (ConsensusStateKey L h) = Ok (Some b) \<and> UnmarshalConsensusState L b = Ok k)"

lemma extractor_reads_only:
  assumes L: "ics24_paths L" and cod: "codec_ok L"
    and b: "store_Get L s (ConsensusStateKey L h) = Ok (Some b)" "MarshalConsensusState L (ProxyConsensus p) = Ok b"
    and reads: "reads_consensus L (NewProxyExtractorStore s) h ck"
  shows "GetProxyConsensusState L p = Ok ck"
proof -
  obtain v where v: "store_Get L (ProxyExtractorStore s) (ConsensusStateKey L h) = Ok (Some v)"
    and ck: "UnmarshalConsensusState L v = Ok ck"
    using reads by (auto simp: reads_consensus_def NewProxyExtractorStore_def)
  from v b obtain inner where "GetProxyConsensusState L p = Ok inner" "MarshalConsensusState L inner = Ok v"
    using codec_okD(7,8) [OF cod b(2)]
    by (auto simp: extractor_Get_def regexp_ConsensusStateKey [OF L] outcome_simps)
  with ck codec_okD(7) [OF cod] show ?thesis by simp
qed

lemma extractor_transparent:
  "\<not> consensusStateKeyRegexp L k \<Longrightarrow> store_Get L (ProxyExtractorStore s) k = store_Get L s k"
  by (cases "store_Get L s k") (simp_all add: extractor_Get_def)

text \<open>\<open>GetConsensusState\<close> of \<open>store.go\<close>.\<close>

definition Proxy_GetConsensusState :: "'x lib \<Rightarrow> kvstore \<Rightarrow> Height \<Rightarrow> ProxyConsensusState outcome" where
  "Proxy_GetConsensusState L store height =
     obind (store_Get L store (ConsensusStateKey L height)) (\<lambda>bz.
     case bz of
       None \<Rightarrow> Err ErrConsensusStateNotFound
     | Some b \<Rightarrow>
         (case UnmarshalConsensusState L b of
            Ok (ProxyConsensus p) \<Rightarrow> Ok p
          | Ok (ExternalConsensus x) \<Rightarrow> Err ErrInvalidConsensus
          | Err e \<Rightarrow> Err ErrInvalidConsensus
          | Panic \<Rightarrow> Panic
          | Diverge \<Rightarrow> Diverge))"

section \<open>Client states (\<open>client_state.go\<close>)\<close>

definition NewProxyClientState :: "string \<Rightarrow> ProxyClientState" where
  "NewProxyClientState upstreamClientID =
     \<lparr>ProxyClientStateAny = None, UpstreamClientId = upstreamClientID, ProxyPrefix = None, IbcPrefix = None\<rparr>"

definition Proxy_IsInitialized :: "ProxyClientState \<Rightarrow> bool" where
  "Proxy_IsInitialized cs \<longleftrightarrow> ProxyClientStateAny cs \<noteq> None"

definition Proxy_ClientType :: "ProxyClientState \<Rightarrow> string outcome" where
  "Proxy_ClientType cs = Ok ProxyClientType"

definition GetProxyClientState :: "'x lib \<Rightarrow> ProxyClientState \<Rightarrow> 'x client_state outcome" where
  "GetProxyClientState L cs = must (UnpackClientState L (ProxyClientStateAny cs))"

definition Proxy_UnpackInterfaces :: "'x lib \<Rightarrow> ProxyClientState \<Rightarrow> unit outcome" where
  "Proxy_UnpackInterfaces L cs =
     obind (UnpackAnyClientState L (ProxyClientStateAny cs)) (\<lambda>_. Ok ())"

definition Proxy_GetLatestHeight ::
  "'x lib \<Rightarrow> ('x, 'i) client_ops \<Rightarrow> ProxyClientState \<Rightarrow> Height outcome" where
  "Proxy_GetLatestHeight L D cs =
     (if ProxyClientStateAny cs = None then Ok \<lparr>RevisionNumber = 0, RevisionHeight = 0\<rparr>
      else obind (GetProxyClientState L cs) (op_GetLatestHeight D))"

definition Proxy_Status ::
  "'x lib \<Rightarrow> ('x, 'i) client_ops \<Rightarrow> ProxyClientState \<Rightarrow> 'i \<Rightarrow> (kvstore, string) prog" where
  "Proxy_Status L D cs w =
     mbind (mlift (GetProxyClientState L cs)) (\<lambda>inner. on_extractor (op_Status D inner w))"

definition Proxy_Validate :: "'x lib \<Rightarrow> ('x, 'i) client_ops \<Rightarrow> ProxyClientState \<Rightarrow> unit outcome" where
  "Proxy_Validate L D cs = obind (GetProxyClientState L cs) (op_Validate D)"

definition Proxy_GetProofSpecs :: "'x lib \<Rightarrow> ('x, 'i) client_ops \<Rightarrow> ProxyClientState \<Rightarrow> 'x list outcome" where
  "Proxy_GetProofSpecs L D cs = obind (GetProxyClientState L cs) (op_GetProofSpecs D)"

text \<open>
  The error of a failed unpacking is wrapped into a registered error; a panic stays one.
\<close>

definition wrap_err :: "err \<Rightarrow> 'a outcome \<Rightarrow> 'a outcome" where
  "wrap_err e r = (case r of Err _ \<Rightarrow> Err e | _ \<Rightarrow> r)"

definition Proxy_Initialize ::
  "'x lib \<Rightarrow> ProxyClientState \<Rightarrow> 'i \<Rightarrow> 'x consensus_state option \<Rightarrow> (kvstore, unit) prog" where
  "Proxy_Initialize L cs w consState =
     (if ProxyClientStateAny cs = None \<or> IbcPrefix cs = None \<or> ProxyPrefix cs = None
      then mlift (Err ErrInvalidClient)
      else case consState of
        None \<Rightarrow> mlift (Err ErrInvalidConsensus)
      | Some cons \<Rightarrow>
          mbind (mlift (wrap_err ErrInvalidClient (UnpackClientState L (ProxyClientStateAny cs)))) (\<lambda>_.
          case cons of
            ExternalConsensus x \<Rightarrow> mlift (Err ErrInvalidConsensus)
          | ProxyConsensus p \<Rightarrow>
              mbind (mlift (wrap_err ErrInvalidConsensus (UnpackConsensusState L (ProxyConsensusStateAny p))))
                (\<lambda>_. mret ())))"

definition Proxy_ExportMetadata ::
  "'x lib \<Rightarrow> ('x, 'i) client_ops \<Rightarrow> ProxyClientState \<Rightarrow> (kvstore, (string \<times> bytes) list) prog" where
  "Proxy_ExportMetadata L D cs =
     mbind (mlift (GetProxyClientState L cs)) (\<lambda>inner. op_ExportMetadata D inner)"

definition Proxy_VerifyUpgradeAndUpdateState ::
  "'x lib \<Rightarrow> ('x, 'i) client_ops \<Rightarrow> ProxyClientState \<Rightarrow> 'i \<Rightarrow> 'x client_state \<Rightarrow> 'x consensus_state \<Rightarrow>
    bytes \<Rightarrow> bytes \<Rightarrow> (kvstore, 'x client_state option \<times> 'x consensus_state option) prog" where
  "Proxy_VerifyUpgradeAndUpdateState L D cs w newClient newConsState proofUpgradeClient proofUpgradeConsState =
     mbind (mlift (GetProxyClientState L cs)) (\<lambda>inner.
       op_VerifyUpgradeAndUpdateState D inner w newClient newConsState proofUpgradeClient proofUpgradeConsState)"

definition Proxy_ZeroCustomFields ::
  "'x lib \<Rightarrow> ('x, 'i) client_ops \<Rightarrow> ProxyClientState \<Rightarrow> 'x client_state option outcome" where
  "Proxy_ZeroCustomFields L D cs = obind (GetProxyClientState L cs) (op_ZeroCustomFields D)"

text \<open>
  Calling \<open>Bytes\<close> through a nil pointer panics. \<open>newPrefix\<close> builds the prefix below which
  the proxy module keeps the commitments about one upstream chain.
\<close>

definition Prefix_Bytes :: "'x lib \<Rightarrow> prefix \<Rightarrow> string outcome" where
  "Prefix_Bytes L p = (if p = NilMerklePfx then Panic else Ok (PrefixBytes L p))"

definition newPrefix :: "'x lib \<Rightarrow> MerklePrefix option \<Rightarrow> prefix \<Rightarrow> string \<Rightarrow> prefix outcome" where
  "newPrefix L proxyPrefix upstreamPrefix upstreamClientID =
     obind (Prefix_Bytes L upstreamPrefix) (\<lambda>b.
       Ok (MultiPrefix (prefix_ptr proxyPrefix) ((upstreamClientID @ ''/'') @ b)))"

definition Proxy_IBCVerifyClientState ::
  "'x lib \<Rightarrow> ('x, 'i) client_ops \<Rightarrow> ProxyClientState \<Rightarrow> Height \<Rightarrow> prefix \<Rightarrow> string \<Rightarrow> bytes \<Rightarrow>
    'x client_state \<Rightarrow> (kvstore, unit) prog" where
  "Proxy_IBCVerifyClientState L D cs height prefix counterpartyClientIdentifier proof clientState =
     mbind (mlift (GetProxyClientState L cs)) (\<lambda>inner.
       on_extractor (op_VerifyClientState D inner height prefix counterpartyClientIdentifier proof clientState))"

definition Proxy_IBCVerifyClientConsensusState ::
  "'x lib \<Rightarrow> ('x, 'i) client_ops \<Rightarrow> ProxyClientState \<Rightarrow> Height \<Rightarrow> string \<Rightarrow> Height \<Rightarrow> prefix \<Rightarrow> bytes \<Rightarrow>
    'x consensus_state \<Rightarrow> (kvstore, unit) prog" where
  "Proxy_IBCVerifyClientConsensusState L D cs height counterpartyClientIdentifier consensusHeight prefix
     proof consensusState =
     mbind (mlift (GetProxyClientState L cs)) (\<lambda>inner.
       on_extractor (op_VerifyClientConsensusState D inner height counterpartyClientIdentifier
         consensusHeight prefix proof consensusState))"

definition Proxy_VerifyClientState ::
  "'x lib \<Rightarrow> ('x, 'i) client_ops \<Rightarrow> ProxyClientState \<Rightarrow> Height \<Rightarrow> prefix \<Rightarrow> string \<Rightarrow> bytes \<Rightarrow>
    'x client_state \<Rightarrow> (kvstore, unit) prog" where
  "Proxy_VerifyClientState L D cs height prefix counterpartyClientIdentifier proof clientState =
     mbind (mlift (GetProxyClientState L cs)) (\<lambda>inner.
     mbind (mlift (newPrefix L (ProxyPrefix cs) prefix (UpstreamClientId cs))) (\<lambda>pfx.
       on_extractor (op_VerifyClientState D inner height pfx counterpartyClientIdentifier proof clientState)))"

definition Proxy_VerifyClientConsensusState ::
  "'x lib \<Rightarrow> ('x, 'i) client_ops \<Rightarrow> ProxyClientState \<Rightarrow> Height \<Rightarrow> string \<Rightarrow> Height \<Rightarrow> prefix \<Rightarrow> bytes \<Rightarrow>
    'x consensus_state \<Rightarrow> (kvstore, unit) prog" where
  "Proxy_VerifyClientConsensusState L D cs height counterpartyClientIdentifier consensusHeight prefix
     proof consensusState =
     mbind (mlift (GetProxyClientState L cs)) (\<lambda>inner.
     mbind (mlift (newPrefix L (ProxyPrefix cs) prefix (UpstreamClientId cs))) (\<lambda>pfx.
       on_extractor (op_VerifyClientConsensusState D inner height counterpartyClientIdentifier
         consensusHeight pfx proof consensusState)))"

definition Proxy_VerifyConnectionState ::
  "'x lib \<Rightarrow> ('x, 'i) client_ops \<Rightarrow> ProxyClientState \<Rightarrow> Height \<Rightarrow> prefix \<Rightarrow> bytes \<Rightarrow> string \<Rightarrow>
    ConnectionEnd \<Rightarrow> (kvstore, unit) prog" where
  "Proxy_VerifyConnectionState L D cs height prefix proof connectionID connectionEnd =
     mbind (mlift (GetProxyClientState L cs)) (\<lambda>inner.
     mbind (mlift (newPrefix L (ProxyPrefix cs) prefix (UpstreamClientId cs))) (\<lambda>pfx.
       on_extractor (op_VerifyConnectionState D inner height pfx proof connectionID connectionEnd)))"

definition Proxy_VerifyChannelState ::
  "'x lib \<Rightarrow> ('x, 'i) client_ops \<Rightarrow> ProxyClientState \<Rightarrow> Height \<Rightarrow> prefix \<Rightarrow> bytes \<Rightarrow> string \<Rightarrow> string \<Rightarrow>
    Channel \<Rightarrow> (kvstore, unit) prog" where
  "Proxy_VerifyChannelState L D cs height prefix proof portID channelID channel =
     mbind (mlift (GetProxyClientState L cs)) (\<lambda>inner.
     mbind (mlift (newPrefix L (ProxyPrefix cs) prefix (UpstreamClientId cs))) (\<lambda>pfx.
       on_extractor (op_VerifyChannelState D inner height pfx proof portID channelID channel)))"

definition Proxy_VerifyPacketCommitment ::
  "'x lib \<Rightarrow> ('x, 'i) client_ops \<Rightarrow> ProxyClientState \<Rightarrow> 'i \<Rightarrow> Height \<Rightarrow> u64 \<Rightarrow> u64 \<Rightarrow> prefix \<Rightarrow> bytes \<Rightarrow>
    string \<Rightarrow> string \<Rightarrow> u64 \<Rightarrow> bytes \<Rightarrow> (kvstore, unit) prog" where
  "Proxy_VerifyPacketCommitment L D cs w height currentTimestamp delayPeriod prefix proof portID channelID
     seq commitmentBytes =
     mbind (mlift (GetProxyClientState L cs)) (\<lambda>inner.
     mbind (mlift (newPrefix L (ProxyPrefix cs) prefix (UpstreamClientId cs))) (\<lambda>pfx.
       on_extractor (op_VerifyPacketCommitment D inner w height currentTimestamp delayPeriod pfx proof
         portID channelID seq commitmentBytes)))"

definition Proxy_VerifyPacketAcknowledgement ::
  "'x lib \<Rightarrow> ('x, 'i) client_ops \<Rightarrow> ProxyClientState \<Rightarrow> 'i \<Rightarrow> Height \<Rightarrow> u64 \<Rightarrow> u64 \<Rightarrow> prefix \<Rightarrow> bytes \<Rightarrow>
    string \<Rightarrow> string \<Rightarrow> u64 \<Rightarrow> bytes \<Rightarrow> (kvstore, unit) prog" where
  "Proxy_VerifyPacketAcknowledgement L D cs w height currentTimestamp delayPeriod prefix proof portID channelID
     seq acknowledgement =
     mbind (mlift (GetProxyClientState L cs)) (\<lambda>inner.
     mbind (mlift (newPrefix L (ProxyPrefix cs) prefix (UpstreamClientId cs))) (\<lambda>pfx.
       on_extractor (op_VerifyPacketAcknowledgement D inner w height currentTimestamp delayPeriod pfx proof
         portID channelID seq acknowledgement)))"

definition Proxy_VerifyPacketReceiptAbsence ::
  "'x lib \<Rightarrow> ('x, 'i) client_ops \<Rightarrow> ProxyClientState \<Rightarrow> 'i \<Rightarrow> Height \<Rightarrow> u64 \<Rightarrow> u64 \<Rightarrow> prefix \<Rightarrow> bytes \<Rightarrow>
    string \<Rightarrow> string \<Rightarrow> u64 \<Rightarrow> (kvstore, unit) prog" where
  "Proxy_VerifyPacketReceiptAbsence L D cs w height currentTimestamp delayPeriod prefix proof portID channelID seq =
     mbind (mlift (GetProxyClientState L cs)) (\<lambda>inner.
     mbind (mlift (newPrefix L (ProxyPrefix cs) prefix (UpstreamClientId cs))) (\<lambda>pfx.
       on_extractor (op_VerifyPacketReceiptAbsence D inner w height currentTimestamp delayPeriod pfx proof
         portID channelID seq)))"

definition Proxy_VerifyNextSequenceRecv ::
  "'x lib \<Rightarrow> ('x, 'i) client_ops \<Rightarrow> ProxyClientState \<Rightarrow> 'i \<Rightarrow> Height \<Rightarrow> u64 \<Rightarrow> u64 \<Rightarrow> prefix \<Rightarrow> bytes \<Rightarrow>
    string \<Rightarrow> string \<Rightarrow> u64 \<Rightarrow> (kvstore, unit) prog" where
  "Proxy_VerifyNextSequenceRecv L D cs w height currentTimestamp delayPeriod prefix proof portID channelID
     nextSequenceRecv =
     mbind (mlift (GetProxyClientState L cs)) (\<lambda>inner.
     mbind (mlift (newPrefix L (ProxyPrefix cs) prefix (UpstreamClientId cs))) (\<lambda>pfx.
       on_extractor (op_VerifyNextSequenceRecv D inner w height currentTimestamp delayPeriod pfx proof
         portID channelID nextSequenceRecv)))"

section \<open>Updates (\<open>update.go\<close>)\<close>

definition Proxy_CheckHeaderAndUpdateState ::
  "'x lib \<Rightarrow> ('x, 'i) client_ops \<Rightarrow> ProxyClientState \<Rightarrow> 'i \<Rightarrow> 'x \<Rightarrow>
    (kvstore, ProxyClientState \<times> ProxyConsensusState) prog" where
  "Proxy_CheckHeaderAndUpdateState L D cs w header =
     mbind (mlift (GetProxyClientState L cs)) (\<lambda>inner.
     mbind (on_extractor (op_CheckHeaderAndUpdateState D inner w header)) (\<lambda>(clientState, consensusState).
     mbind (mlift (PackClientState L clientState)) (\<lambda>anyClientState.
     mbind (mlift (PackConsensusState L consensusState)) (\<lambda>anyConsensusState.
     mret (cs\<lparr>ProxyClientStateAny := Some anyClientState\<rparr>,
           \<lparr>ProxyConsensusStateAny = Some anyConsensusState\<rparr>)))))"

definition Proxy_CheckMisbehaviourAndUpdateState ::
  "'x lib \<Rightarrow> ('x, 'i) client_ops \<Rightarrow> ProxyClientState \<Rightarrow> 'i \<Rightarrow> 'x \<Rightarrow> (kvstore, ProxyClientState) prog" where
  "Proxy_CheckMisbehaviourAndUpdateState L D cs w misbehaviour =
     mbind (mlift (GetProxyClientState L cs)) (\<lambda>inner.
     mbind (op_CheckMisbehaviourAndUpdateState D inner w misbehaviour) (\<lambda>clientState.
     mbind (mlift (PackClientState L clientState)) (\<lambda>anyClientState.
     mret (cs\<lparr>ProxyClientStateAny := Some anyClientState\<rparr>))))"

text \<open>The error of the wrapped client is shadowed by the error of the packing.\<close>

definition Proxy_CheckSubstituteAndUpdateState ::
  "'x lib \<Rightarrow> ('x, 'i) client_ops \<Rightarrow> ProxyClientState \<Rightarrow> 'i \<Rightarrow> 'x client_state \<Rightarrow>
    (kvstore \<times> kvstore, ProxyClientState) prog" where
  "Proxy_CheckSubstituteAndUpdateState L D cs w substituteClient =
     mbind (mlift (GetProxyClientState L cs)) (\<lambda>inner.
     mbind (op_CheckSubstituteAndUpdateState D inner w substituteClient) (\<lambda>(clientState, err).
     mbind (mlift (PackClientState L clientState)) (\<lambda>anyClientState.
     mret (cs\<lparr>ProxyClientStateAny := Some anyClientState\<rparr>))))"

end
