(* ===== verification/Multiv_Client.thy ===== *)
theory Multiv_Client
  imports Proxy_Client
begin

text \<open>
  The multi-stage client, \<open>modules/light-clients/xx-multiv/types\<close>: it wraps a client and
  verifies a client or consensus state of the counterparty through a chain of proxies,
  given as a \<open>MultiProof\<close>. All other verifications go to the wrapped client.
\<close>

section \<open>Proofs (\<open>commitment.go\<close>) and accessors\<close>

definition unmarshalProof :: "'x lib \<Rightarrow> bytes \<Rightarrow> MultiProof outcome" where
  "unmarshalProof L bz =
     obind (UnmarshalProof L bz) (\<lambda>proof.
     case proof of
       Some (MultiProofVal mp) \<Rightarrow> Ok mp
     | _ \<Rightarrow> Err (Errorf ''expected %T, but got %T''))"

definition MultiProof_VerifyMembership :: "MultiProof \<Rightarrow> unit outcome" where
  "MultiProof_VerifyMembership p = Panic"

definition MultiProof_VerifyNonMembership :: "MultiProof \<Rightarrow> unit outcome" where
  "MultiProof_VerifyNonMembership p = Panic"

definition MultiProof_Empty :: "MultiProof \<Rightarrow> bool" where
  "MultiProof_Empty p \<longleftrightarrow> False"

definition MultiProof_ValidateBasic :: "MultiProof \<Rightarrow> unit outcome" where
  "MultiProof_ValidateBasic p = Ok ()"

definition NewMultivClientState :: "'x lib \<Rightarrow> 'x client_state option \<Rightarrow> 32 word \<Rightarrow> MultivClientState outcome" where
  "NewMultivClientState L clientState depth =
     obind (must (PackClientState L clientState)) (\<lambda>anyClientState.
       Ok \<lparr>UnderlyingClientState = Some anyClientState, Depth = depth\<rparr>)"

definition GetUnderlyingClientState :: "'x lib \<Rightarrow> MultivClientState \<Rightarrow> 'x client_state outcome" where
  "GetUnderlyingClientState L cs = must (UnpackClientState L (UnderlyingClientState cs))"

definition Multiv_ClientType :: "'x lib \<Rightarrow> ('x, 'i) client_ops \<Rightarrow> MultivClientState \<Rightarrow> string outcome" where
  "Multiv_ClientType L D cs = obind (GetUnderlyingClientState L cs) (op_ClientType D)"

definition Multiv_UnpackInterfaces :: "'x lib \<Rightarrow> MultivClientState \<Rightarrow> unit outcome" where
  "Multiv_UnpackInterfaces L cs = obind (UnpackAnyClientState L (UnderlyingClientState cs)) (\<lambda>_. Ok ())"

definition Multiv_GetLatestHeight :: "'x lib \<Rightarrow> ('x, 'i) client_ops \<Rightarrow> MultivClientState \<Rightarrow> Height outcome" where
  "Multiv_GetLatestHeight L D cs = obind (GetUnderlyingClientState L cs) (op_GetLatestHeight D)"

definition Multiv_Status ::
  "'x lib \<Rightarrow> ('x, 'i) client_ops \<Rightarrow> MultivClientState \<Rightarrow> 'i \<Rightarrow> (kvstore, string) prog" where
  "Multiv_Status L D cs w = mbind (mlift (GetUnderlyingClientState L cs)) (\<lambda>inner. op_Status D inner w)"

definition Multiv_Validate :: "'x lib \<Rightarrow> ('x, 'i) client_ops \<Rightarrow> MultivClientState \<Rightarrow> unit outcome" where
  "Multiv_Validate L D cs =
     (if UnderlyingClientState cs = None then Err (Errorf ''Base cannot be nil'')
      else obind (GetUnderlyingClientState L cs) (op_Validate D))"

definition Multiv_GetProofSpecs :: "'x lib \<Rightarrow> ('x, 'i) client_ops \<Rightarrow> MultivClientState \<Rightarrow> 'x list outcome" where
  "Multiv_GetProofSpecs L D cs = obind (GetUnderlyingClientState L cs) (op_GetProofSpecs D)"

definition Multiv_Initialize ::
  "MultivClientState \<Rightarrow> 'i \<Rightarrow> 'x consensus_state option \<Rightarrow> (kvstore, unit) prog" where
  "Multiv_Initialize cs w consState =
     (if UnderlyingClientState cs = None then mlift (Err (Errorf ''invalid clientState''))
      else if consState = None then mlift (Err (Errorf ''invalid consensusState''))
      else mret ())"

definition Multiv_ExportMetadata ::
  "'x lib \<Rightarrow> ('x, 'i) client_ops \<Rightarrow> MultivClientState \<Rightarrow> (kvstore, (string \<times> bytes) list) prog" where
  "Multiv_ExportMetadata L D cs =
     mbind (mlift (GetUnderlyingClientState L cs)) (\<lambda>inner. op_ExportMetadata D inner)"

definition Multiv_VerifyUpgradeAndUpdateState ::
  "'x lib \<Rightarrow> ('x, 'i) client_ops \<Rightarrow> MultivClientState \<Rightarrow> 'i \<Rightarrow> 'x client_state \<Rightarrow> 'x consensus_state \<Rightarrow>
    bytes \<Rightarrow> bytes \<Rightarrow> (kvstore, 'x client_state option \<times> 'x consensus_state option) prog" where
  "Multiv_VerifyUpgradeAndUpdateState L D cs w newClient newConsState proofUpgradeClient proofUpgradeConsState =
     mbind (mlift (GetUnderlyingClientState L cs)) (\<lambda>inner.
       op_VerifyUpgradeAndUpdateState D inner w newClient newConsState proofUpgradeClient proofUpgradeConsState)"

definition Multiv_ZeroCustomFields ::
  "'x lib \<Rightarrow> ('x, 'i) client_ops \<Rightarrow> MultivClientState \<Rightarrow> MultivClientState outcome" where
  "Multiv_ZeroCustomFields L D cs =
     obind (GetUnderlyingClientState L cs) (\<lambda>inner.
     obind (op_ZeroCustomFields D inner) (\<lambda>zeroed.
     obind (must (PackClientState L zeroed)) (\<lambda>any.
       Ok (cs\<lparr>UnderlyingClientState := Some any\<rparr>))))"

section \<open>Verification through a chain of proxies\<close>

definition validateProof :: "MultivClientState \<Rightarrow> MultiProof \<Rightarrow> unit outcome" where
  "validateProof cs proof =
     (if length (Branches proof) \<noteq> unat (Depth cs)
      then Err (Errorf ''invalid branches length: expected=%v got=%v'')
      else Ok ())"

text \<open>A fresh in-memory store that holds one consensus state.\<close>

definition makeMemStore :: "'x lib \<Rightarrow> 'x consensus_state \<Rightarrow> Height \<Rightarrow> kvstore outcome" where
  "makeMemStore L consensusState proofHeight =
     obind (must (MarshalConsensusState L consensusState)) (\<lambda>consensusStateBytes.
       Ok (store_Set (MapStore Map.empty) (ConsensusStateKey L proofHeight) consensusStateBytes))"

definition unpackProxyClientState :: "'x lib \<Rightarrow> Any option \<Rightarrow> ProxyClientState outcome" where
  "unpackProxyClientState L anyClientState =
     obind (UnpackAnyClientState L anyClientState) (\<lambda>clientState.
     case clientState of
       Some (ProxyClient s) \<Rightarrow> Ok s
     | _ \<Rightarrow> Err (Errorf ''clientState must be %T, but got %T''))"

definition unpackProxyConsensusState :: "'x lib \<Rightarrow> Any option \<Rightarrow> ProxyConsensusState outcome" where
  "unpackProxyConsensusState L anyConsensusState =
     obind (UnpackAnyConsensusState L anyConsensusState) (\<lambda>consensusState.
     case consensusState of
       Some (ProxyConsensus s) \<Rightarrow> Ok s
     | _ \<Rightarrow> Err (Errorf ''consensusState must be %T, but got %T''))"

text \<open>The result of a call on a store that is dropped afterwards.\<close>

definition on_store :: "kvstore \<Rightarrow> (kvstore, 'a) prog \<Rightarrow> 'a outcome" where
  "on_store store f = fst (f store)"

text \<open>The loop over the branches (step 2 of \<open>verifyProxyState\<close>).\<close>

primrec verifyBranches ::
  "'x lib \<Rightarrow> ('x, 'i) client_ops \<Rightarrow> Proof list \<Rightarrow> ProxyClientState \<Rightarrow> ProxyConsensusState \<Rightarrow>
    (ProxyClientState \<times> ProxyConsensusState) outcome" where
  "verifyBranches L D [] proxyClientState proxyConsensusState = Ok (proxyClientState, proxyConsensusState)"
| "verifyBranches L D (branch # branches) proxyClientState proxyConsensusState =
     obind (unpackProxyClientState L (ClientState branch)) (\<lambda>targetClientState.
     obind (unpackProxyConsensusState L (ConsensusState branch)) (\<lambda>targetConsensusState.
     obind (makeMemStore L (ProxyConsensus proxyConsensusState) (ProofHeight branch)) (\<lambda>store.
     obind (on_store store (mthen
         (Proxy_IBCVerifyClientState L D proxyClientState (ProofHeight branch)
            (prefix_ptr (IbcPrefix proxyClientState)) (UpstreamClientId proxyClientState)
            (ClientProof branch) (ProxyClient targetClientState))
         (Proxy_IBCVerifyClientConsensusState L D proxyClientState (ProofHeight branch)
            (UpstreamClientId proxyClientState) (ConsensusHeight branch)
            (prefix_ptr (IbcPrefix proxyClientState)) (ConsensusProof branch)
            (ProxyConsensus targetConsensusState)))) (\<lambda>_.
     verifyBranches L D branches targetClientState targetConsensusState))))"

definition verifyProxyState ::
  "'x lib \<Rightarrow> ('x, 'i) client_ops \<Rightarrow> MultivClientState \<Rightarrow> Height \<Rightarrow> prefix \<Rightarrow> string \<Rightarrow> MultiProof \<Rightarrow>
    (kvstore, ProxyClientState \<times> ProxyConsensusState) prog" where
  "verifyProxyState L D cs height prefix counterpartyClientIdentifier proof =
     mbind (mlift (validateProof cs proof)) (\<lambda>_.
     let head = Head proof; branches = Branches proof in
     if \<not> HeightEQ L (ProofHeight head) height
     then mlift (Err (Errorf ''first proof height must be %v, but got %v''))
     else
     mbind (mlift (unpackProxyClientState L (ClientState head))) (\<lambda>proxyClientState.
     mbind (mlift (GetUnderlyingClientState L cs)) (\<lambda>underlying.
     mbind (op_VerifyClientState D underlying height prefix counterpartyClientIdentifier
              (ClientProof head) (ProxyClient proxyClientState)) (\<lambda>_.
     mbind (mlift (unpackProxyConsensusState L (ConsensusState head))) (\<lambda>proxyConsensusState.
     mbind (mlift (GetUnderlyingClientState L cs)) (\<lambda>underlying.
     mbind (op_VerifyClientConsensusState D underlying height counterpartyClientIdentifier
              (ConsensusHeight head) prefix (ConsensusProof head) (ProxyConsensus proxyConsensusState)) (\<lambda>_.
     mlift (verifyBranches L D branches proxyClientState proxyConsensusState))))))))"

definition Multiv_VerifyClientState ::
  "'x lib \<Rightarrow> ('x, 'i) client_ops \<Rightarrow> MultivClientState \<Rightarrow> Height \<Rightarrow> prefix \<Rightarrow> string \<Rightarrow> bytes \<Rightarrow>
    'x client_state \<Rightarrow> (kvstore, unit) prog" where
  "Multiv_VerifyClientState L D cs height prefix counterpartyClientIdentifier proofBytes clientState =
     mbind (mlift (unmarshalProof L proofBytes)) (\<lambda>proof.
     mbind (verifyProxyState L D cs height prefix counterpartyClientIdentifier proof)
       (\<lambda>(proxyClientState, proxyConsensusState).
     mbind (mlift (makeMemStore L (ProxyConsensus proxyConsensusState) (LfProofHeight (Leaf proof)))) (\<lambda>store.
     mlift (on_store store
       (Proxy_IBCVerifyClientState L D proxyClientState (LfProofHeight (Leaf proof))
          (prefix_ptr (IbcPrefix proxyClientState)) (UpstreamClientId proxyClientState)
          (LfProof (Leaf proof)) clientState)))))"

definition Multiv_VerifyClientConsensusState ::
  "'x lib \<Rightarrow> ('x, 'i) client_ops \<Rightarrow> MultivClientState \<Rightarrow> Height \<Rightarrow> string \<Rightarrow> Height \<Rightarrow> prefix \<Rightarrow> bytes \<Rightarrow>
    'x consensus_state \<Rightarrow> (kvstore, unit) prog" where
  "Multiv_VerifyClientConsensusState L D cs height counterpartyClientIdentifier consensusHeight prefix
     proofBytes consensusState =
     mbind (mlift (unmarshalProof L proofBytes)) (\<lambda>proof.
     mbind (verifyProxyState L D cs height prefix counterpartyClientIdentifier proof)
       (\<lambda>(proxyClientState, proxyConsensusState).
     mbind (mlift (makeMemStore L (ProxyConsensus proxyConsensusState) (LfProofHeight (Leaf proof)))) (\<lambda>store.
     mlift (on_store store
       (Proxy_IBCVerifyClientConsensusState L D proxyClientState (LfProofHeight (Leaf proof))
          (UpstreamClientId proxyClientState) consensusHeight (prefix_ptr (IbcPrefix proxyClientState))
          (LfProof (Leaf proof)) consensusState)))))"

section \<open>Verifications of the wrapped client\<close>

definition Multiv_VerifyConnectionState ::
  "'x lib \<Rightarrow> ('x, 'i) client_ops \<Rightarrow> MultivClientState \<Rightarrow> Height \<Rightarrow> prefix \<Rightarrow> bytes \<Rightarrow> string \<Rightarrow>
    ConnectionEnd \<Rightarrow> (kvstore, unit) prog" where
  "Multiv_VerifyConnectionState L D cs height prefix proof connectionID connectionEnd =
     mbind (mlift (GetUnderlyingClientState L cs)) (\<lambda>inner.
       op_VerifyConnectionState D inner height prefix proof connectionID connectionEnd)"

definition Multiv_VerifyChannelState ::
  "'x lib \<Rightarrow> ('x, 'i) client_ops \<Rightarrow> MultivClientState \<Rightarrow> Height \<Rightarrow> prefix \<Rightarrow> bytes \<Rightarrow> string \<Rightarrow> string \<Rightarrow>
    Channel \<Rightarrow> (kvstore, unit) prog" where
  "Multiv_VerifyChannelState L D cs height prefix proof portID channelID channel =
     mbind (mlift (GetUnderlyingClientState L cs)) (\<lambda>inner.
       op_VerifyChannelState D inner height prefix proof portID channelID channel)"

definition Multiv_VerifyPacketCommitment ::
  "'x lib \<Rightarrow> ('x, 'i) client_ops \<Rightarrow> MultivClientState \<Rightarrow> 'i \<Rightarrow> Height \<Rightarrow> u64 \<Rightarrow> u64 \<Rightarrow> prefix \<Rightarrow> bytes \<Rightarrow>
    string \<Rightarrow> string \<Rightarrow> u64 \<Rightarrow> bytes \<Rightarrow> (kvstore, unit) prog" where
  "Multiv_VerifyPacketCommitment L D cs w height currentTimestamp delayPeriod prefix proof portID channelID
     seq commitmentBytes =
     mbind (mlift (GetUnderlyingClientState L cs)) (\<lambda>inner.
       op_VerifyPacketCommitment D inner w height currentTimestamp delayPeriod prefix proof
         portID channelID seq commitmentBytes)"

definition Multiv_VerifyPacketAcknowledgement ::
  "'x lib \<Rightarrow> ('x, 'i) client_ops \<Rightarrow> MultivClientState \<Rightarrow> 'i \<Rightarrow> Height \<Rightarrow> u64 \<Rightarrow> u64 \<Rightarrow> prefix \<Rightarrow> bytes \<Rightarrow>
    string \<Rightarrow> string \<Rightarrow> u64 \<Rightarrow> bytes \<Rightarrow> (kvstore, unit) prog" where
  "Multiv_VerifyPacketAcknowledgement L D cs w height currentTimestamp delayPeriod prefix proof portID channelID
     seq acknowledgement =
     mbind (mlift (GetUnderlyingClientState L cs)) (\<lambda>inner.
       op_VerifyPacketAcknowledgement D inner w height currentTimestamp delayPeriod prefix proof
         portID channelID seq acknowledgement)"

definition Multiv_VerifyPacketReceiptAbsence ::
  "'x lib \<Rightarrow> ('x, 'i) client_ops \<Rightarrow> MultivClientState \<Rightarrow> 'i \<Rightarrow> Height \<Rightarrow> u64 \<Rightarrow> u64 \<Rightarrow> prefix \<Rightarrow> bytes \<Rightarrow>
    string \<Rightarrow> string \<Rightarrow> u64 \<Rightarrow> (kvstore, unit) prog" where
  "Multiv_VerifyPacketReceiptAbsence L D cs w height currentTimestamp delayPeriod prefix proof portID channelID seq =
     mbind (mlift (GetUnderlyingClientState L cs)) (\<lambda>inner.
       op_VerifyPacketReceiptAbsence D inner w height currentTimestamp delayPeriod prefix proof
         portID channelID seq)"

definition Multiv_VerifyNextSequenceRecv ::
  "'x lib \<Rightarrow> ('x, 'i) client_ops \<Rightarrow> MultivClientState \<Rightarrow> 'i \<Rightarrow> Height \<Rightarrow> u64 \<Rightarrow> u64 \<Rightarrow> prefix \<Rightarrow> bytes \<Rightarrow>
    string \<Rightarrow> string \<Rightarrow> u64 \<Rightarrow> (kvstore, unit) prog" where
  "Multiv_VerifyNextSequenceRecv L D cs w height currentTimestamp delayPeriod prefix proof portID channelID
     nextSequenceRecv =
     mbind (mlift (GetUnderlyingClientState L cs)) (\<lambda>inner.
       op_VerifyNextSequenceRecv D inner w height currentTimestamp delayPeriod prefix proof
         portID channelID nextSequenceRecv)"

section \<open>Updates (\<open>update.go\<close>)\<close>

definition Multiv_CheckHeaderAndUpdateState ::
  "'x lib \<Rightarrow> ('x, 'i) client_ops \<Rightarrow> MultivClientState \<Rightarrow> 'i \<Rightarrow> 'x \<Rightarrow>
    (kvstore, MultivClientState \<times> 'x consensus_state option) prog" where
  "Multiv_CheckHeaderAndUpdateState L D cs w header =
     mbind (mlift (GetUnderlyingClientState L cs)) (\<lambda>inner.
     mbind (op_CheckHeaderAndUpdateState D inner w header) (\<lambda>(clientState, consensusState).
     mbind (mlift (PackClientState L clientState)) (\<lambda>anyClientState.
     mret (cs\<lparr>UnderlyingClientState := Some anyClientState\<rparr>, consensusState))))"

definition Multiv_CheckMisbehaviourAndUpdateState ::
  "'x lib \<Rightarrow> ('x, 'i) client_ops \<Rightarrow> MultivClientState \<Rightarrow> 'i \<Rightarrow> 'x \<Rightarrow> (kvstore, MultivClientState) prog" where
  "Multiv_CheckMisbehaviourAndUpdateState L D cs w misbehaviour =
     mbind (mlift (GetUnderlyingClientState L cs)) (\<lambda>inner.
     mbind (op_CheckMisbehaviourAndUpdateState D inner w misbehaviour) (\<lambda>clientState.
     mbind (mlift (PackClientState L clientState)) (\<lambda>anyClientState.
     mret (cs\<lparr>UnderlyingClientState := Some anyClientState\<rparr>))))"

text \<open>The error of the wrapped client is shadowed by the error of the packing.\<close>

definition Multiv_CheckSubstituteAndUpdateState ::
  "'x lib \<Rightarrow> ('x, 'i) client_ops \<Rightarrow> MultivClientState \<Rightarrow> 'i \<Rightarrow> 'x client_state \<Rightarrow>
    (kvstore \<times> kvstore, MultivClientState) prog" where
  "Multiv_CheckSubstituteAndUpdateState L D cs w substituteClient =
     mbind (mlift (GetUnderlyingClientState L cs)) (\<lambda>inner.
     mbind (op_CheckSubstituteAndUpdateState D inner w substituteClient) (\<lambda>(clientState, err).
     mbind (mlift (PackClientState L clientState)) (\<lambda>anyClientState.
     mret (cs\<lparr>UnderlyingClientState := Some anyClientState\<rparr>))))"

section \<open>The chain of trust that an accepted proof establishes\<close>

text \<open>
  \<open>link_ok L D (c, k) b (c', k')\<close>: with the consensus state \<open>k\<close> of a proxy known,
  branch \<open>b\<close> carries the client state \<open>c'\<close> and consensus state \<open>k'\<close> of the next proxy, and
  the client \<open>c\<close> of the first proxy verified both below its IBC prefix.
\<close>

definition link_ok ::
  "'x lib \<Rightarrow> ('x, 'i) client_ops \<Rightarrow> ProxyClientState \<times> ProxyConsensusState \<Rightarrow> Proof \<Rightarrow>
    ProxyClientState \<times> ProxyConsensusState \<Rightarrow> bool" where
  "link_ok L D = (\<lambda>(c, k) b (c', k').
     UnpackAnyClientState L (ClientState b) = Ok (Some (ProxyClient c')) \<and>
     UnpackAnyConsensusState L (ConsensusState b) = Ok (Some (ProxyConsensus k')) \<and>
     (\<exists>store s'. makeMemStore L (ProxyConsensus k) (ProofHeight b) = Ok store \<and>
       Proxy_IBCVerifyClientState L D c (ProofHeight b) (prefix_ptr (IbcPrefix c)) (UpstreamClientId c)
         (ClientProof b) (ProxyClient c') store = (Ok (), s') \<and>
       fst (Proxy_IBCVerifyClientConsensusState L D c (ProofHeight b) (UpstreamClientId c)
         (ConsensusHeight b) (prefix_ptr (IbcPrefix c)) (ConsensusProof b) (ProxyConsensus k') s') = Ok ()))"

inductive trust_chain ::
  "'x lib \<Rightarrow> ('x, 'i) client_ops \<Rightarrow> ProxyClientState \<times> ProxyConsensusState \<Rightarrow> Proof list \<Rightarrow>
    ProxyClientState \<times> ProxyConsensusState \<Rightarrow> bool" for L D where
  chain_end: "trust_chain L D p [] p"
| chain_link: "link_ok L D p b q \<Longrightarrow> trust_chain L D q bs r \<Longrightarrow> trust_chain L D p (b # bs) r"

inductive_simps trust_chain_Nil [simp]: "trust_chain L D p [] r"
inductive_simps trust_chain_Cons: "trust_chain L D p (b # bs) r"

lemma unpackProxyClientState_Ok [outcome_simps]:
  "unpackProxyClientState L a = Ok c \<longleftrightarrow> UnpackAnyClientState L a = Ok (Some (ProxyClient c))"
  by (cases "UnpackAnyClientState L a") (auto simp: unpackProxyClientState_def split: option.splits client_state.splits)

lemma unpackProxyConsensusState_Ok [outcome_simps]:
  "unpackProxyConsensusState L a = Ok c \<longleftrightarrow> UnpackAnyConsensusState L a = Ok (Some (ProxyConsensus c))"
  by (cases "UnpackAnyConsensusState L a") (auto simp: unpackProxyConsensusState_def split: option.splits consensus_state.splits)

lemma unmarshalProof_Ok [outcome_simps]:
  "unmarshalProof L b = Ok mp \<longleftrightarrow> UnmarshalProof L b = Ok (Some (MultiProofVal mp))"
  by (cases "UnmarshalProof L b") (auto simp: unmarshalProof_def split: option.splits proof_value.splits)

lemma validateProof_Ok [outcome_simps]:
  "validateProof cs p = Ok u \<longleftrightarrow> length (Branches p) = unat (Depth cs)"
  by (simp add: validateProof_def)

lemma on_store_then_Ok:
  "on_store store (mthen f g) = Ok x \<longleftrightarrow> (\<exists>s'. f store = (Ok (), s') \<and> fst (g s') = Ok x)"
  by (auto simp: on_store_def mbind_def split: prod.splits outcome.splits)

text \<open>The loop accepts exactly the chains of trust.\<close>

lemma verifyBranches_iff_chain:
  "verifyBranches L D bs c k = Ok r \<longleftrightarrow> trust_chain L D (c, k) bs r"
proof (induction bs arbitrary: c k)
  case Nil
  then show ?case by auto
next
  case (Cons b bs)
  show ?case
    by (auto simp: trust_chain_Cons Cons.IH link_ok_def outcome_simps on_store_then_Ok)
qed

lemma trust_chain_append:
  "trust_chain L D p (xs @ ys) r \<longleftrightarrow> (\<exists>q. trust_chain L D p xs q \<and> trust_chain L D q ys r)"
  by (induction xs arbitrary: p) (auto simp: trust_chain_Cons)

text \<open>
  What the head of the proof establishes on the store of the multi-stage client: the
  wrapped client verified the proxy's client state and consensus state.
\<close>

definition head_ok ::
  "'x lib \<Rightarrow> ('x, 'i) client_ops \<Rightarrow> 'x client_state \<Rightarrow> Height \<Rightarrow> prefix \<Rightarrow> string \<Rightarrow> Proof \<Rightarrow>
    ProxyClientState \<Rightarrow> ProxyConsensusState \<Rightarrow> kvstore \<Rightarrow> kvstore \<Rightarrow> bool" where
  "head_ok L D underlying height pfx cid hp c k s s' \<longleftrightarrow>
     HeightEQ L (ProofHeight hp) height \<and>
     UnpackAnyClientState L (ClientState hp) = Ok (Some (ProxyClient c)) \<and>
     UnpackAnyConsensusState L (ConsensusState hp) = Ok (Some (ProxyConsensus k)) \<and>
     (\<exists>s1. op_VerifyClientState D underlying height pfx cid (ClientProof hp) (ProxyClient c) s = (Ok (), s1) \<and>
       op_VerifyClientConsensusState D underlying height cid (ConsensusHeight hp) pfx
         (ConsensusProof hp) (ProxyConsensus k) s1 = (Ok (), s'))"

lemma verifyProxyState_iff:
  "verifyProxyState L D cs height pfx cid mp s = (Ok (c', k'), s') \<longleftrightarrow>
     length (Branches mp) = unat (Depth cs) \<and>
     (\<exists>underlying c k. UnpackClientState L (UnderlyingClientState cs) = Ok underlying \<and>
        head_ok L D underlying height pfx cid (Head mp) c k s s' \<and>
        trust_chain L D (c, k) (Branches mp) (c', k'))"
  unfolding verifyProxyState_def Let_def
  by (auto simp: outcome_simps head_ok_def GetUnderlyingClientState_def verifyBranches_iff_chain
      split: if_splits)

lemma Multiv_VerifyClientState_iff:
  "Multiv_VerifyClientState L D cs height pfx cid proofBytes clientState s = (Ok (), s') \<longleftrightarrow>
     (\<exists>mp underlying c k c' k' store.
        UnmarshalProof L proofBytes = Ok (Some (MultiProofVal mp)) \<and>
        length (Branches mp) = unat (Depth cs) \<and>
        UnpackClientState L (UnderlyingClientState cs) = Ok underlying \<and>
        head_ok L D underlying height pfx cid (Head mp) c k s s' \<and>
        trust_chain L D (c, k) (Branches mp) (c', k') \<and>
        makeMemStore L (ProxyConsensus k') (LfProofHeight (Leaf mp)) = Ok store \<and>
        fst (Proxy_IBCVerifyClientState L D c' (LfProofHeight (Leaf mp)) (prefix_ptr (IbcPrefix c'))
          (UpstreamClientId c') (LfProof (Leaf mp)) clientState store) = Ok ())"
  unfolding Multiv_VerifyClientState_def
  by (fastforce simp: outcome_simps verifyProxyState_iff on_store_def)

lemma Multiv_VerifyClientConsensusState_iff:
  "Multiv_VerifyClientConsensusState L D cs height cid consHeight pfx proofBytes consState s = (Ok (), s') \<longleftrightarrow>
     (\<exists>mp underlying c k c' k' store.
        UnmarshalProof L proofBytes = Ok (Some (MultiProofVal mp)) \<and>
        length (Branches mp) = unat (Depth cs) \<and>
        UnpackClientState L (UnderlyingClientState cs) = Ok underlying \<and>
        head_ok L D underlying height pfx cid (Head mp) c k s s' \<and>
        trust_chain L D (c, k) (Branches mp) (c', k') \<and>
        makeMemStore L (ProxyConsensus k') (LfProofHeight (Leaf mp)) = Ok store \<and>
        fst (Proxy_IBCVerifyClientConsensusState L D c' (LfProofHeight (Leaf mp)) (UpstreamClientId c')
          consHeight (prefix_ptr (IbcPrefix c')) (LfProof (Leaf mp)) consState store) = Ok ())"
  unfolding Multiv_VerifyClientConsensusState_def
  by (fastforce simp: outcome_simps verifyProxyState_iff on_store_def)

end
