(* ===== verification/Client_Dispatch.thy ===== *)
theory Client_Dispatch
  imports Multiv_Client
begin

text \<open>
  Dynamic dispatch over \<open>exported.ClientState\<close>: a call goes to the method of the proxy
  client, of the multi-stage client, or to a client outside the repository (table \<open>E\<close>).
  Wrapped clients can be nested and a multi-proof brings further client states, so the
  knot is tied with a number of unfoldings; the lemmas show how many are enough and that
  more do not change a result. The keeper override of \<open>client_keeper.go\<close> is here too.
\<close>

section \<open>The method table\<close>

text \<open>Go's \<open>(value, error)\<close> pair of a call that never looks at the error it returns.\<close>

definition go_pair :: "('s, 'a) prog \<Rightarrow> ('s, 'a option \<times> err option) prog" where
  "go_pair m = (\<lambda>s. case m s of
     (Ok x, s') \<Rightarrow> (Ok (Some x, None), s')
   | (Err e, s') \<Rightarrow> (Ok (None, Some e), s')
   | (Panic, s') \<Rightarrow> (Panic, s')
   | (Diverge, s') \<Rightarrow> (Diverge, s'))"

definition method_table ::
  "'x lib \<Rightarrow> ('x, 'i) client_ops \<Rightarrow> ('x, 'i) client_ops \<Rightarrow> ('x, 'i) client_ops" where
  "method_table L E D =
    \<lparr>op_ClientType = (\<lambda>cs. case cs of
        ExternalClient x \<Rightarrow> op_ClientType E cs
      | ProxyClient p \<Rightarrow> Proxy_ClientType p
      | MultivClient m \<Rightarrow> Multiv_ClientType L D m),
     op_GetLatestHeight = (\<lambda>cs. case cs of
        ExternalClient x \<Rightarrow> op_GetLatestHeight E cs
      | ProxyClient p \<Rightarrow> Proxy_GetLatestHeight L D p
      | MultivClient m \<Rightarrow> Multiv_GetLatestHeight L D m),
     op_Validate = (\<lambda>cs. case cs of
        ExternalClient x \<Rightarrow> op_Validate E cs
      | ProxyClient p \<Rightarrow> Proxy_Validate L D p
      | MultivClient m \<Rightarrow> Multiv_Validate L D m),
     op_GetProofSpecs = (\<lambda>cs. case cs of
        ExternalClient x \<Rightarrow> op_GetProofSpecs E cs
      | ProxyClient p \<Rightarrow> Proxy_GetProofSpecs L D p
      | MultivClient m \<Rightarrow> Multiv_GetProofSpecs L D m),
     op_Status = (\<lambda>cs w. case cs of
        ExternalClient x \<Rightarrow> op_Status E cs w
      | ProxyClient p \<Rightarrow> Proxy_Status L D p w
      | MultivClient m \<Rightarrow> Multiv_Status L D m w),
     op_Initialize = (\<lambda>cs w cons. case cs of
        ExternalClient x \<Rightarrow> op_Initialize E cs w cons
      | ProxyClient p \<Rightarrow> Proxy_Initialize L p w cons
      | MultivClient m \<Rightarrow> Multiv_Initialize m w cons),
     op_ExportMetadata = (\<lambda>cs. case cs of
        ExternalClient x \<Rightarrow> op_ExportMetadata E cs
      | ProxyClient p \<Rightarrow> Proxy_ExportMetadata L D p
      | MultivClient m \<Rightarrow> Multiv_ExportMetadata L D m),
     op_ZeroCustomFields = (\<lambda>cs. case cs of
        ExternalClient x \<Rightarrow> op_ZeroCustomFields E cs
      | ProxyClient p \<Rightarrow> Proxy_ZeroCustomFields L D p
      | MultivClient m \<Rightarrow> obind (Multiv_ZeroCustomFields L D m) (\<lambda>c. Ok (Some (MultivClient c)))),
     op_CheckHeaderAndUpdateState = (\<lambda>cs w h. case cs of
        ExternalClient x \<Rightarrow> op_CheckHeaderAndUpdateState E cs w h
      | ProxyClient p \<Rightarrow> mbind (Proxy_CheckHeaderAndUpdateState L D p w h)
          (\<lambda>(c, k). mret (Some (ProxyClient c), Some (ProxyConsensus k)))
      | MultivClient m \<Rightarrow> mbind (Multiv_CheckHeaderAndUpdateState L D m w h)
          (\<lambda>(c, k). mret (Some (MultivClient c), k))),
     op_CheckMisbehaviourAndUpdateState = (\<lambda>cs w h. case cs of
        ExternalClient x \<Rightarrow> op_CheckMisbehaviourAndUpdateState E cs w h
      | ProxyClient p \<Rightarrow> mbind (Proxy_CheckMisbehaviourAndUpdateState L D p w h)
          (\<lambda>c. mret (Some (ProxyClient c)))
      | MultivClient m \<Rightarrow> mbind (Multiv_CheckMisbehaviourAndUpdateState L D m w h)
          (\<lambda>c. mret (Some (MultivClient c)))),
     op_CheckSubstituteAndUpdateState = (\<lambda>cs w sub. case cs of
        ExternalClient x \<Rightarrow> op_CheckSubstituteAndUpdateState E cs w sub
      | ProxyClient p \<Rightarrow> go_pair (mbind (Proxy_CheckSubstituteAndUpdateState L D p w sub)
          (\<lambda>c. mret (ProxyClient c)))
      | MultivClient m \<Rightarrow> go_pair (mbind (Multiv_CheckSubstituteAndUpdateState L D m w sub)
          (\<lambda>c. mret (MultivClient c)))),
     op_VerifyUpgradeAndUpdateState = (\<lambda>cs w c k pc pk. case cs of
        ExternalClient x \<Rightarrow> op_VerifyUpgradeAndUpdateState E cs w c k pc pk
      | ProxyClient p \<Rightarrow> Proxy_VerifyUpgradeAndUpdateState L D p w c k pc pk
      | MultivClient m \<Rightarrow> Multiv_VerifyUpgradeAndUpdateState L D m w c k pc pk),
     op_VerifyClientState = (\<lambda>cs h pfx i pr c. case cs of
        ExternalClient x \<Rightarrow> op_VerifyClientState E cs h pfx i pr c
      | ProxyClient p \<Rightarrow> Proxy_VerifyClientState L D p h pfx i pr c
      | MultivClient m \<Rightarrow> Multiv_VerifyClientState L D m h pfx i pr c),
     op_VerifyClientConsensusState = (\<lambda>cs h i ch pfx pr k. case cs of
        ExternalClient x \<Rightarrow> op_VerifyClientConsensusState E cs h i ch pfx pr k
      | ProxyClient p \<Rightarrow> Proxy_VerifyClientConsensusState L D p h i ch pfx pr k
      | MultivClient m \<Rightarrow> Multiv_VerifyClientConsensusState L D m h i ch pfx pr k),
     op_VerifyConnectionState = (\<lambda>cs h pfx pr i c. case cs of
        ExternalClient x \<Rightarrow> op_VerifyConnectionState E cs h pfx pr i c
      | ProxyClient p \<Rightarrow> Proxy_VerifyConnectionState L D p h pfx pr i c
      | MultivClient m \<Rightarrow> Multiv_VerifyConnectionState L D m h pfx pr i c),
     op_VerifyChannelState = (\<lambda>cs h pfx pr p1 c1 c. case cs of
        ExternalClient x \<Rightarrow> op_VerifyChannelState E cs h pfx pr p1 c1 c
      | ProxyClient p \<Rightarrow> Proxy_VerifyChannelState L D p h pfx pr p1 c1 c
      | MultivClient m \<Rightarrow> Multiv_VerifyChannelState L D m h pfx pr p1 c1 c),
     op_VerifyPacketCommitment = (\<lambda>cs w h t d pfx pr p1 c1 n b. case cs of
        ExternalClient x \<Rightarrow> op_VerifyPacketCommitment E cs w h t d pfx pr p1 c1 n b
      | ProxyClient p \<Rightarrow> Proxy_VerifyPacketCommitment L D p w h t d pfx pr p1 c1 n b
      | MultivClient m \<Rightarrow> Multiv_VerifyPacketCommitment L D m w h t d pfx pr p1 c1 n b),
     op_VerifyPacketAcknowledgement = (\<lambda>cs w h t d pfx pr p1 c1 n b. case cs of
        ExternalClient x \<Rightarrow> op_VerifyPacketAcknowledgement E cs w h t d pfx pr p1 c1 n b
      | ProxyClient p \<Rightarrow> Proxy_VerifyPacketAcknowledgement L D p w h t d pfx pr p1 c1 n b
      | MultivClient m \<Rightarrow> Multiv_VerifyPacketAcknowledgement L D m w h t d pfx pr p1 c1 n b),
     op_VerifyPacketReceiptAbsence = (\<lambda>cs w h t d pfx pr p1 c1 n. case cs of
        ExternalClient x \<Rightarrow> op_VerifyPacketReceiptAbsence E cs w h t d pfx pr p1 c1 n
      | ProxyClient p \<Rightarrow> Proxy_VerifyPacketReceiptAbsence L D p w h t d pfx pr p1 c1 n
      | MultivClient m \<Rightarrow> Multiv_VerifyPacketReceiptAbsence L D m w h t d pfx pr p1 c1 n),
     op_VerifyNextSequenceRecv = (\<lambda>cs w h t d pfx pr p1 c1 n. case cs of
        ExternalClient x \<Rightarrow> op_VerifyNextSequenceRecv E cs w h t d pfx pr p1 c1 n
      | ProxyClient p \<Rightarrow> Proxy_VerifyNextSequenceRecv L D p w h t d pfx pr p1 c1 n
      | MultivClient m \<Rightarrow> Multiv_VerifyNextSequenceRecv L D m w h t d pfx pr p1 c1 n)\<rparr>"

definition no_unfoldings :: "('x, 'i) client_ops" where
  "no_unfoldings =
    \<lparr>op_ClientType = (\<lambda>_. Diverge), op_GetLatestHeight = (\<lambda>_. Diverge), op_Validate = (\<lambda>_. Diverge),
     op_GetProofSpecs = (\<lambda>_. Diverge), op_Status = (\<lambda>_ _. mlift Diverge),
     op_Initialize = (\<lambda>_ _ _. mlift Diverge), op_ExportMetadata = (\<lambda>_. mlift Diverge),
     op_ZeroCustomFields = (\<lambda>_. Diverge),
     op_CheckHeaderAndUpdateState = (\<lambda>_ _ _. mlift Diverge),
     op_CheckMisbehaviourAndUpdateState = (\<lambda>_ _ _. mlift Diverge),
     op_CheckSubstituteAndUpdateState = (\<lambda>_ _ _. mlift Diverge),
     op_VerifyUpgradeAndUpdateState = (\<lambda>_ _ _ _ _ _. mlift Diverge),
     op_VerifyClientState = (\<lambda>_ _ _ _ _ _. mlift Diverge),
     op_VerifyClientConsensusState = (\<lambda>_ _ _ _ _ _ _. mlift Diverge),
     op_VerifyConnectionState = (\<lambda>_ _ _ _ _ _. mlift Diverge),
     op_VerifyChannelState = (\<lambda>_ _ _ _ _ _ _. mlift Diverge),
     op_VerifyPacketCommitment = (\<lambda>_ _ _ _ _ _ _ _ _ _ _. mlift Diverge),
     op_VerifyPacketAcknowledgement = (\<lambda>_ _ _ _ _ _ _ _ _ _ _. mlift Diverge),
     op_VerifyPacketReceiptAbsence = (\<lambda>_ _ _ _ _ _ _ _ _ _. mlift Diverge),
     op_VerifyNextSequenceRecv = (\<lambda>_ _ _ _ _ _ _ _ _ _. mlift Diverge)\<rparr>"

primrec dispatch :: "'x lib \<Rightarrow> ('x, 'i) client_ops \<Rightarrow> nat \<Rightarrow> ('x, 'i) client_ops" where
  "dispatch L E 0 = no_unfoldings"
| "dispatch L E (Suc n) = method_table L E (dispatch L E n)"

section \<open>The keeper's override of \<open>ValidateSelfClient\<close> (\<open>client_keeper.go\<close>)\<close>

definition ClientKeeper_ValidateSelfClient ::
  "'x lib \<Rightarrow> ('x, 'i) ClientKeeper \<Rightarrow> 'i \<Rightarrow> 'x client_state \<Rightarrow> unit outcome" where
  "ClientKeeper_ValidateSelfClient L k w clientState =
     (case clientState of
        MultivClient cs \<Rightarrow> obind (GetUnderlyingClientState L cs) (ValidateSelfClient k w)
      | _ \<Rightarrow> ValidateSelfClient k w clientState)"

definition NewClientKeeper :: "'x lib \<Rightarrow> ('x, 'i) ClientKeeper \<Rightarrow> ('x, 'i) ClientKeeper" where
  "NewClientKeeper L k = k\<lparr>ValidateSelfClient := ClientKeeper_ValidateSelfClient L k\<rparr>"

section \<open>How many unfoldings are enough\<close>

text \<open>
  The size of a client state is the length of the \<open>Any\<close> it wraps, plus one. A client state
  that was unpacked from an \<open>Any\<close> carries the \<open>Any\<close> it wraps inside that value, and the
  parts of a multi-proof are disjoint parts of its encoding; this is what
  \<open>sizes_ok\<close> says of the codec. None of the codec's functions loops forever.
\<close>

definition any_size :: "Any option \<Rightarrow> nat" where
  "any_size a = (case a of None \<Rightarrow> 0 | Some v \<Rightarrow> length (AnyValue v))"

fun cs_size :: "'x client_state \<Rightarrow> nat" where
  "cs_size (ExternalClient x) = 0"
| "cs_size (ProxyClient p) = Suc (any_size (ProxyClientStateAny p))"
| "cs_size (MultivClient m) = Suc (any_size (UnderlyingClientState m))"

definition proof_size :: "Proof \<Rightarrow> nat" where
  "proof_size p = length (ClientProof p) + any_size (ClientState p) + length (ConsensusProof p)"

definition multiproof_size :: "MultiProof \<Rightarrow> nat" where
  "multiproof_size mp =
     proof_size (Head mp) + sum_list (map proof_size (Branches mp)) + length (LfProof (Leaf mp))"

definition sizes_ok :: "'x lib \<Rightarrow> bool" where
  "sizes_ok L \<longleftrightarrow>
     (\<forall>a c. UnpackClientState L a = Ok c \<longrightarrow> cs_size c \<le> any_size a) \<and>
     (\<forall>a c. UnpackAnyClientState L a = Ok (Some c) \<longrightarrow> cs_size c \<le> any_size a) \<and>
     (\<forall>b mp. UnmarshalProof L b = Ok (Some (MultiProofVal mp)) \<longrightarrow> multiproof_size mp \<le> length b)"

definition lib_halts :: "'x lib \<Rightarrow> bool" where
  "lib_halts L \<longleftrightarrow>
     (\<forall>a. UnpackClientState L a \<noteq> Diverge) \<and> (\<forall>a. UnpackAnyClientState L a \<noteq> Diverge) \<and>
     (\<forall>a. UnpackAnyConsensusState L a \<noteq> Diverge) \<and> (\<forall>b. UnmarshalProof L b \<noteq> Diverge) \<and>
     (\<forall>k. MarshalConsensusState L k \<noteq> Diverge)"

definition halts :: "('s, 'a) prog \<Rightarrow> bool" where
  "halts m \<longleftrightarrow> (\<forall>s. fst (m s) \<noteq> Diverge)"

lemma halts_mlift [intro]: "r \<noteq> Diverge \<Longrightarrow> halts (mlift r)"
  by (simp add: halts_def)

lemma halts_mbind:
  assumes "halts m" and "\<And>x s s'. m s = (Ok x, s') \<Longrightarrow> halts (f x)"
  shows "halts (mbind m f)"
proof -
  have "fst (mbind m f s) \<noteq> Diverge" for s
  proof (cases "m s")
    case (Pair r s')
    then show ?thesis
      using assms(1) assms(2) [of s] by (cases r) (auto simp: halts_def mbind_def dest: spec [of _ s])
  qed
  then show ?thesis by (simp add: halts_def)
qed

lemma halts_bind_lift:
  assumes "r \<noteq> Diverge" and "\<And>x. r = Ok x \<Longrightarrow> halts (f x)"
  shows "halts (mbind (mlift r) f)"
  using assms by (auto intro!: halts_mbind)

lemma halts_if: "(b \<Longrightarrow> halts m) \<Longrightarrow> (\<not> b \<Longrightarrow> halts n) \<Longrightarrow> halts (if b then m else n)"
  by simp

lemma halts_on_extractor: "halts m \<Longrightarrow> halts (on_extractor m)"
  by (simp add: halts_def on_extractor_def case_prod_beta)

lemma halts_on_store: "halts m \<Longrightarrow> on_store s m \<noteq> Diverge"
  by (simp add: halts_def on_store_def)

lemma newPrefix_halts: "newPrefix L a b c \<noteq> Diverge"
  by (simp add: newPrefix_def Prefix_Bytes_def obind_Diverge_iff)

lemma GetProxyClientState_halts: "lib_halts L \<Longrightarrow> GetProxyClientState L p \<noteq> Diverge"
  by (simp add: GetProxyClientState_def must_Diverge_iff lib_halts_def)

lemma GetUnderlyingClientState_halts: "lib_halts L \<Longrightarrow> GetUnderlyingClientState L m \<noteq> Diverge"
  by (simp add: GetUnderlyingClientState_def must_Diverge_iff lib_halts_def)

lemma unpack_halts:
  "lib_halts L \<Longrightarrow> unpackProxyClientState L a \<noteq> Diverge"
  "lib_halts L \<Longrightarrow> unpackProxyConsensusState L a \<noteq> Diverge"
  "lib_halts L \<Longrightarrow> unmarshalProof L b \<noteq> Diverge"
  "lib_halts L \<Longrightarrow> makeMemStore L k h \<noteq> Diverge"
  by (auto simp: unpackProxyClientState_def unpackProxyConsensusState_def unmarshalProof_def
      makeMemStore_def obind_Diverge_iff must_Diverge_iff lib_halts_def
      split: option.splits client_state.splits consensus_state.splits proof_value.splits)

text \<open>
  \<open>verifies_within n D\<close>: the table's verifications of a client state and a proof
  whose sizes add up to less than \<open>n\<close> return.
\<close>

definition verifies :: "('x, 'i) client_ops \<Rightarrow> 'x client_state \<Rightarrow> bytes \<Rightarrow> bool" where
  "verifies D cs proof \<longleftrightarrow>
     (\<forall>h pfx i c. halts (op_VerifyClientState D cs h pfx i proof c)) \<and>
     (\<forall>h i ch pfx k. halts (op_VerifyClientConsensusState D cs h i ch pfx proof k)) \<and>
     (\<forall>h pfx i c. halts (op_VerifyConnectionState D cs h pfx proof i c)) \<and>
     (\<forall>h pfx p1 c1 c. halts (op_VerifyChannelState D cs h pfx proof p1 c1 c)) \<and>
     (\<forall>w h t d pfx p1 c1 n b. halts (op_VerifyPacketCommitment D cs w h t d pfx proof p1 c1 n b)) \<and>
     (\<forall>w h t d pfx p1 c1 n b. halts (op_VerifyPacketAcknowledgement D cs w h t d pfx proof p1 c1 n b)) \<and>
     (\<forall>w h t d pfx p1 c1 n. halts (op_VerifyPacketReceiptAbsence D cs w h t d pfx proof p1 c1 n)) \<and>
     (\<forall>w h t d pfx p1 c1 n. halts (op_VerifyNextSequenceRecv D cs w h t d pfx proof p1 c1 n))"

definition verifies_within :: "nat \<Rightarrow> ('x, 'i) client_ops \<Rightarrow> bool" where
  "verifies_within n D \<longleftrightarrow> (\<forall>cs proof. cs_size cs + length proof < n \<longrightarrow> verifies D cs proof)"

lemma verifies_withinD: "verifies_within n D \<Longrightarrow> cs_size cs + length proof < n \<Longrightarrow> verifies D cs proof"
  by (simp add: verifies_within_def)

lemma unpacked_inner:
  "sizes_ok L \<Longrightarrow> GetProxyClientState L p = Ok inner \<Longrightarrow> cs_size inner < cs_size (ProxyClient p)"
  "sizes_ok L \<Longrightarrow> GetUnderlyingClientState L m = Ok inner \<Longrightarrow> cs_size inner < cs_size (MultivClient m)"
  by (auto simp: GetProxyClientState_def GetUnderlyingClientState_def sizes_ok_def outcome_simps less_Suc_eq_le)

lemma unpacked_any:
  "sizes_ok L \<Longrightarrow> UnpackAnyClientState L a = Ok (Some c) \<Longrightarrow> cs_size c \<le> any_size a"
  unfolding sizes_ok_def by blast

lemma Proxy_IBC_halts:
  assumes "lib_halts L" and "\<And>inner. GetProxyClientState L p = Ok inner \<Longrightarrow> verifies D inner proof"
  shows "halts (Proxy_IBCVerifyClientState L D p h pfx i proof c)"
    and "halts (Proxy_IBCVerifyClientConsensusState L D p h i ch pfx proof k)"
  using assms
  by (auto simp: Proxy_IBCVerifyClientState_def Proxy_IBCVerifyClientConsensusState_def verifies_def
      intro!: halts_bind_lift halts_on_extractor GetProxyClientState_halts)

lemma Proxy_verify_halts:
  assumes "lib_halts L" and "\<And>inner. GetProxyClientState L p = Ok inner \<Longrightarrow> verifies D inner proof"
  shows "verifies (method_table L E D) (ProxyClient p) proof"
  unfolding verifies_def using assms
  by (intro conjI allI)
    (auto simp: method_table_def Proxy_VerifyClientState_def Proxy_VerifyClientConsensusState_def
      Proxy_VerifyConnectionState_def Proxy_VerifyChannelState_def Proxy_VerifyPacketCommitment_def
      Proxy_VerifyPacketAcknowledgement_def Proxy_VerifyPacketReceiptAbsence_def
      Proxy_VerifyNextSequenceRecv_def verifies_def
      intro!: halts_bind_lift halts_on_extractor GetProxyClientState_halts newPrefix_halts)

lemma verifyBranches_bound:
  "sizes_ok L \<Longrightarrow> verifyBranches L D bs c k = Ok (c', k') \<Longrightarrow>
    cs_size (ProxyClient c' :: 'x client_state) \<le>
      cs_size (ProxyClient c :: 'x client_state) + sum_list (map proof_size bs)"
  for L :: "'x lib"
proof (induction bs arbitrary: c k)
  case Nil
  then show ?case by simp
next
  case (Cons b bs)
  from Cons.prems(2) obtain t tk where t: "UnpackAnyClientState L (ClientState b) = Ok (Some (ProxyClient t))"
    and rest: "verifyBranches L D bs t tk = Ok (c', k')"
    by (auto simp: outcome_simps)
  have "cs_size (ProxyClient t :: 'x client_state) \<le> proof_size b"
    using unpacked_any [OF Cons.prems(1) t] unfolding proof_size_def by linarith
  with Cons.IH [OF Cons.prems(1) rest] show ?case by simp
qed

lemma verifyBranches_halts:
  fixes L :: "'x lib"
  assumes lib: "lib_halts L" and sz: "sizes_ok L" and D: "verifies_within n D"
  shows "cs_size (ProxyClient c :: 'x client_state) + sum_list (map proof_size bs) \<le> n \<Longrightarrow>
    verifyBranches L D bs c k \<noteq> Diverge"
proof (induction bs arbitrary: c k)
  case Nil
  then show ?case by simp
next
  case (Cons b bs)
  have inner: "verifies D inner pr"
    if "GetProxyClientState L c = Ok inner" and "length pr \<le> proof_size b" for inner pr
    using unpacked_inner(1) [OF sz that(1)] that(2) Cons.prems by (intro verifies_withinD [OF D]) simp
  have next_bound: "cs_size (ProxyClient t :: 'x client_state) + sum_list (map proof_size bs) \<le> n"
    if "UnpackAnyClientState L (ClientState b) = Ok (Some (ProxyClient t))" for t
  proof -
    have "cs_size (ProxyClient t :: 'x client_state) \<le> any_size (ClientState b)"
      by (rule unpacked_any [OF sz that])
    with Cons.prems show ?thesis by (simp add: proof_size_def [of b])
  qed
  have "halts (mthen (Proxy_IBCVerifyClientState L D c h1 p1 i1 (ClientProof b) cs1)
      (Proxy_IBCVerifyClientConsensusState L D c h2 i2 ch2 p2 (ConsensusProof b) ks2))" for h1 p1 i1 cs1 h2 i2 ch2 p2 ks2
    by (intro halts_mbind Proxy_IBC_halts lib inner) (simp_all add: proof_size_def)
  then show ?case
    using Cons.IH next_bound unpack_halts [OF lib]
    by (auto simp: obind_Diverge_iff outcome_simps halts_on_store)
qed

lemma verifyProxyState_halts:
  fixes L :: "'x lib"
  assumes lib: "lib_halts L" and sz: "sizes_ok L" and D: "verifies_within n D"
    and le: "cs_size (MultivClient m :: 'x client_state) + multiproof_size mp \<le> n"
  shows "halts (verifyProxyState L D m h pfx i mp)"
proof -
  have inner: "verifies D inner pr"
    if "GetUnderlyingClientState L m = Ok inner" and "length pr \<le> multiproof_size mp" for inner pr
    using unpacked_inner(2) [OF sz that(1)] that(2) le by (intro verifies_withinD [OF D]) simp
  have hp: "length (ClientProof (Head mp)) \<le> multiproof_size mp"
    "length (ConsensusProof (Head mp)) \<le> multiproof_size mp"
    by (simp_all add: multiproof_size_def proof_size_def)
  have br: "verifyBranches L D (Branches mp) c k \<noteq> Diverge"
    if "UnpackAnyClientState L (ClientState (Head mp)) = Ok (Some (ProxyClient c))" for c k
  proof (rule verifyBranches_halts [OF lib sz D])
    have "cs_size (ProxyClient c :: 'x client_state) \<le> any_size (ClientState (Head mp))"
      by (rule unpacked_any [OF sz that])
    then show "cs_size (ProxyClient c :: 'x client_state) + sum_list (map proof_size (Branches mp)) \<le> n"
      using le by (simp add: multiproof_size_def proof_size_def)
  qed
  have v1: "\<And>inner h pfx i c. GetUnderlyingClientState L m = Ok inner \<Longrightarrow>
      halts (op_VerifyClientState D inner h pfx i (ClientProof (Head mp)) c)"
    and v2: "\<And>inner h pfx i ch k. GetUnderlyingClientState L m = Ok inner \<Longrightarrow>
      halts (op_VerifyClientConsensusState D inner h i ch pfx (ConsensusProof (Head mp)) k)"
    using inner hp by (auto simp: verifies_def)
  show ?thesis
    unfolding verifyProxyState_def Let_def
    by (intro halts_bind_lift halts_if halts_mbind halts_mlift v1 v2 unpack_halts
        GetUnderlyingClientState_halts lib br) (auto simp: validateProof_def outcome_simps)
qed

lemma verifyProxyState_bound:
  fixes L :: "'x lib"
  assumes sz: "sizes_ok L" and ok: "verifyProxyState L D m h pfx i mp s = (Ok (c', k'), s')"
  shows "cs_size (ProxyClient c' :: 'x client_state) + length (LfProof (Leaf mp)) \<le> multiproof_size mp"
proof -
  from ok obtain c k where c: "UnpackAnyClientState L (ClientState (Head mp)) = Ok (Some (ProxyClient c))"
    and br: "verifyBranches L D (Branches mp) c k = Ok (c', k')"
    by (auto simp: verifyProxyState_iff head_ok_def verifyBranches_iff_chain)
  have "cs_size (ProxyClient c :: 'x client_state) \<le> any_size (ClientState (Head mp))"
    by (rule unpacked_any [OF sz c])
  with verifyBranches_bound [OF sz br] show ?thesis
    by (simp add: multiproof_size_def proof_size_def [of "Head mp"])
qed

lemma Multiv_verify_halts:
  fixes L :: "'x lib" and D :: "('x, 'i) client_ops"
  assumes lib: "lib_halts L" and sz: "sizes_ok L" and D: "verifies_within n D"
    and le: "cs_size (MultivClient m :: 'x client_state) + length proof \<le> n"
  shows "verifies (method_table L E D) (MultivClient m) proof"
proof -
  have inner: "verifies D inner proof" if "GetUnderlyingClientState L m = Ok inner" for inner
    using unpacked_inner(2) [OF sz that] le by (intro verifies_withinD [OF D]) simp
  have mp: "multiproof_size mp \<le> length proof" if "unmarshalProof L proof = Ok mp" for mp
    using that sz by (auto simp: outcome_simps sizes_ok_def)
  have vp: "halts (verifyProxyState L D m h pfx i mp)" if "unmarshalProof L proof = Ok mp" for h pfx i mp
    using mp [OF that] le by (intro verifyProxyState_halts [OF lib sz D]) simp
  have leaf: "verifies D inner (LfProof (Leaf mp))"
    if "unmarshalProof L proof = Ok mp" and "verifyProxyState L D m h pfx i mp s = (Ok (c, k), s')"
      and "GetProxyClientState L c = Ok inner" for h pfx i mp s c k s' inner
    using mp [OF that(1)] verifyProxyState_bound [OF sz that(2)] unpacked_inner(1) [OF sz that(3)] le
    by (intro verifies_withinD [OF D]) simp
  have 1: "halts (Multiv_VerifyClientState L D m h pfx i proof c)" for h pfx i c
    unfolding Multiv_VerifyClientState_def
    by (intro halts_bind_lift halts_mbind vp unpack_halts lib)
      (auto intro!: halts_bind_lift halts_mlift halts_on_store Proxy_IBC_halts unpack_halts lib leaf)
  have 2: "halts (Multiv_VerifyClientConsensusState L D m h i ch pfx proof k)" for h i ch pfx k
    unfolding Multiv_VerifyClientConsensusState_def
    by (intro halts_bind_lift halts_mbind vp unpack_halts lib)
      (auto intro!: halts_bind_lift halts_mlift halts_on_store Proxy_IBC_halts unpack_halts lib leaf)
  show ?thesis
    unfolding verifies_def using 1 2 inner
    by (intro conjI allI)
      (auto simp: method_table_def Multiv_VerifyConnectionState_def Multiv_VerifyChannelState_def
        Multiv_VerifyPacketCommitment_def Multiv_VerifyPacketAcknowledgement_def
        Multiv_VerifyPacketReceiptAbsence_def Multiv_VerifyNextSequenceRecv_def verifies_def
        intro!: halts_bind_lift GetUnderlyingClientState_halts lib)
qed

text \<open>Clients outside the repository return from every verification.\<close>

definition ext_halts :: "('x, 'i) client_ops \<Rightarrow> bool" where
  "ext_halts E \<longleftrightarrow> (\<forall>x proof. verifies E (ExternalClient x) proof)"

lemma ext_verifies: "ext_halts E \<Longrightarrow> verifies (method_table L E D) (ExternalClient x) proof"
  unfolding ext_halts_def verifies_def by (simp add: method_table_def)

lemma dispatch_verifies_within:
  fixes L :: "'x lib"
  assumes "lib_halts L" and "sizes_ok L" and "ext_halts E"
  shows "verifies_within n (dispatch L E n)"
proof (induction n)
  case 0
  then show ?case by (simp add: verifies_within_def)
next
  case (Suc n)
  have "verifies (method_table L E (dispatch L E n)) cs pr"
    if le: "cs_size cs + length pr < Suc n" for cs :: "'x client_state" and pr
  proof (cases cs)
    case (ExternalClient x)
    then show ?thesis using ext_verifies [OF assms(3)] by simp
  next
    case (ProxyClient p)
    have "verifies (dispatch L E n) inner pr" if "GetProxyClientState L p = Ok inner" for inner
      using unpacked_inner(1) [OF assms(2) that] le ProxyClient
      by (intro verifies_withinD [OF Suc.IH]) simp
    then show ?thesis unfolding ProxyClient by (rule Proxy_verify_halts [OF assms(1)])
  next
    case (MultivClient m)
    then show ?thesis
      using le by (auto intro!: Multiv_verify_halts [OF assms(1,2) Suc.IH])
  qed
  then show ?case by (simp add: verifies_within_def)
qed

section \<open>More unfoldings do not change a result\<close>

definition out_le :: "'a outcome \<Rightarrow> 'a outcome \<Rightarrow> bool" where
  "out_le r r' \<longleftrightarrow> r = Diverge \<or> r = r'"

definition prog_le :: "('s, 'a) prog \<Rightarrow> ('s, 'a) prog \<Rightarrow> bool" where
  "prog_le m m' \<longleftrightarrow> (\<forall>s. fst (m s) = Diverge \<or> m s = m' s)"

lemma out_le_refl [simp]: "out_le r r" and prog_le_refl [simp]: "prog_le m m"
  by (simp_all add: out_le_def prog_le_def)

lemma out_le_trans: "out_le r s \<Longrightarrow> out_le s t \<Longrightarrow> out_le r t"
  by (auto simp: out_le_def)

lemma prog_le_trans: "prog_le m n \<Longrightarrow> prog_le n k \<Longrightarrow> prog_le m k"
  by (metis prog_le_def)

lemma prog_le_Diverge [simp]: "prog_le (mlift Diverge) m" and out_le_Diverge [simp]: "out_le Diverge r"
  by (simp_all add: out_le_def prog_le_def)

lemma out_le_obind: "out_le m m' \<Longrightarrow> (\<And>x. out_le (f x) (f' x)) \<Longrightarrow> out_le (obind m f) (obind m' f')"
  by (cases m) (fastforce simp: out_le_def)+

lemma prog_le_mlift: "out_le r r' \<Longrightarrow> prog_le (mlift r) (mlift r')"
  by (simp add: out_le_def prog_le_def)

lemma prog_le_mbind:
  assumes "prog_le m m'" and "\<And>x. prog_le (f x) (f' x)"
  shows "prog_le (mbind m f) (mbind m' f')"
proof -
  have "fst (mbind m f s) = Diverge \<or> mbind m f s = mbind m' f' s" for s
  proof (cases "fst (m s) = Diverge")
    case True
    then show ?thesis by (simp add: mbind_apply)
  next
    case False
    then have "m s = m' s" using assms(1) by (auto simp: prog_le_def)
    then show ?thesis
      using assms(2) by (simp add: mbind_apply prog_le_def split: outcome.splits)
  qed
  then show ?thesis by (simp add: prog_le_def)
qed

lemma prog_le_on_extractor: "prog_le m m' \<Longrightarrow> prog_le (on_extractor m) (on_extractor m')"
  by (auto simp: prog_le_def on_extractor_def case_prod_beta)

lemma prog_le_on_store: "prog_le m m' \<Longrightarrow> out_le (on_store s m) (on_store s m')"
  by (auto simp: prog_le_def on_store_def out_le_def)

lemma prog_le_go_pair:
  assumes "prog_le m m'"
  shows "prog_le (go_pair m) (go_pair m')"
proof -
  have "fst (go_pair m s) = Diverge \<or> go_pair m s = go_pair m' s" for s
    using assms by (cases "m s"; cases "fst (m s)") (auto simp: prog_le_def go_pair_def dest: spec [of _ s])
  then show ?thesis by (simp add: prog_le_def)
qed

lemma prog_le_if: "prog_le m m' \<Longrightarrow> prog_le n n' \<Longrightarrow> prog_le (if b then m else n) (if b then m' else n')"
  by simp

lemma out_le_if: "out_le m m' \<Longrightarrow> out_le n n' \<Longrightarrow> out_le (if b then m else n) (if b then m' else n')"
  by simp

lemma prog_le_pair: "(\<And>x y. prog_le (f x y) (f' x y)) \<Longrightarrow> prog_le (case p of (x, y) \<Rightarrow> f x y) (case p of (x, y) \<Rightarrow> f' x y)"
  by (simp split: prod.splits)

lemmas le_rules = prog_le_mbind prog_le_on_extractor prog_le_go_pair prog_le_mlift prog_le_if
  prog_le_on_store prog_le_pair out_le_obind out_le_if

definition ops_le :: "('x, 'i) client_ops \<Rightarrow> ('x, 'i) client_ops \<Rightarrow> bool" where
  "ops_le D D' \<longleftrightarrow>
     (\<forall>c. out_le (op_ClientType D c) (op_ClientType D' c)) \<and>
     (\<forall>c. out_le (op_GetLatestHeight D c) (op_GetLatestHeight D' c)) \<and>
     (\<forall>c. out_le (op_Validate D c) (op_Validate D' c)) \<and>
     (\<forall>c. out_le (op_GetProofSpecs D c) (op_GetProofSpecs D' c)) \<and>
     (\<forall>c w. prog_le (op_Status D c w) (op_Status D' c w)) \<and>
     (\<forall>c w k. prog_le (op_Initialize D c w k) (op_Initialize D' c w k)) \<and>
     (\<forall>c. prog_le (op_ExportMetadata D c) (op_ExportMetadata D' c)) \<and>
     (\<forall>c. out_le (op_ZeroCustomFields D c) (op_ZeroCustomFields D' c)) \<and>
     (\<forall>c w h. prog_le (op_CheckHeaderAndUpdateState D c w h) (op_CheckHeaderAndUpdateState D' c w h)) \<and>
     (\<forall>c w h. prog_le (op_CheckMisbehaviourAndUpdateState D c w h) (op_CheckMisbehaviourAndUpdateState D' c w h)) \<and>
     (\<forall>c w h. prog_le (op_CheckSubstituteAndUpdateState D c w h) (op_CheckSubstituteAndUpdateState D' c w h)) \<and>
     (\<forall>c w a b d e. prog_le (op_VerifyUpgradeAndUpdateState D c w a b d e)
        (op_VerifyUpgradeAndUpdateState D' c w a b d e)) \<and>
     (\<forall>c h p i r x. prog_le (op_VerifyClientState D c h p i r x) (op_VerifyClientState D' c h p i r x)) \<and>
     (\<forall>c h i ch p r x. prog_le (op_VerifyClientConsensusState D c h i ch p r x)
        (op_VerifyClientConsensusState D' c h i ch p r x)) \<and>
     (\<forall>c h p r i x. prog_le (op_VerifyConnectionState D c h p r i x) (op_VerifyConnectionState D' c h p r i x)) \<and>
     (\<forall>c h p r i j x. prog_le (op_VerifyChannelState D c h p r i j x) (op_VerifyChannelState D' c h p r i j x)) \<and>
     (\<forall>c w h t d p r i j n b. prog_le (op_VerifyPacketCommitment D c w h t d p r i j n b)
        (op_VerifyPacketCommitment D' c w h t d p r i j n b)) \<and>
     (\<forall>c w h t d p r i j n b. prog_le (op_VerifyPacketAcknowledgement D c w h t d p r i j n b)
        (op_VerifyPacketAcknowledgement D' c w h t d p r i j n b)) \<and>
     (\<forall>c w h t d p r i j n. prog_le (op_VerifyPacketReceiptAbsence D c w h t d p r i j n)
        (op_VerifyPacketReceiptAbsence D' c w h t d p r i j n)) \<and>
     (\<forall>c w h t d p r i j n. prog_le (op_VerifyNextSequenceRecv D c w h t d p r i j n)
        (op_VerifyNextSequenceRecv D' c w h t d p r i j n))"

lemma no_unfoldings_le: "ops_le no_unfoldings D"
  by (simp add: ops_le_def no_unfoldings_def)

lemma ops_le_trans:
  assumes "ops_le D D1" and "ops_le D1 D2"
  shows "ops_le D D2"
  using assms unfolding ops_le_def by (meson out_le_trans prog_le_trans)

lemma ops_le_refl: "ops_le D D"
  by (simp add: ops_le_def)

lemma ops_leD:
  assumes "ops_le D D'"
  shows "out_le (op_ClientType D c) (op_ClientType D' c)"
    and "out_le (op_GetLatestHeight D c) (op_GetLatestHeight D' c)"
    and "out_le (op_Validate D c) (op_Validate D' c)"
    and "out_le (op_GetProofSpecs D c) (op_GetProofSpecs D' c)"
    and "prog_le (op_Status D c w) (op_Status D' c w)"
    and "prog_le (op_ExportMetadata D c) (op_ExportMetadata D' c)"
    and "out_le (op_ZeroCustomFields D c) (op_ZeroCustomFields D' c)"
    and "prog_le (op_CheckHeaderAndUpdateState D c w x) (op_CheckHeaderAndUpdateState D' c w x)"
    and "prog_le (op_CheckMisbehaviourAndUpdateState D c w x) (op_CheckMisbehaviourAndUpdateState D' c w x)"
    and "prog_le (op_CheckSubstituteAndUpdateState D c w c') (op_CheckSubstituteAndUpdateState D' c w c')"
    and "prog_le (op_VerifyUpgradeAndUpdateState D c w c' k b e) (op_VerifyUpgradeAndUpdateState D' c w c' k b e)"
    and "prog_le (op_VerifyClientState D c h p i r c') (op_VerifyClientState D' c h p i r c')"
    and "prog_le (op_VerifyClientConsensusState D c h i ch p r k) (op_VerifyClientConsensusState D' c h i ch p r k)"
    and "prog_le (op_VerifyConnectionState D c h p r i cn) (op_VerifyConnectionState D' c h p r i cn)"
    and "prog_le (op_VerifyChannelState D c h p r i j chn) (op_VerifyChannelState D' c h p r i j chn)"
    and "prog_le (op_VerifyPacketCommitment D c w h t d p r i j n b) (op_VerifyPacketCommitment D' c w h t d p r i j n b)"
    and "prog_le (op_VerifyPacketAcknowledgement D c w h t d p r i j n b)
      (op_VerifyPacketAcknowledgement D' c w h t d p r i j n b)"
    and "prog_le (op_VerifyPacketReceiptAbsence D c w h t d p r i j n)
      (op_VerifyPacketReceiptAbsence D' c w h t d p r i j n)"
    and "prog_le (op_VerifyNextSequenceRecv D c w h t d p r i j n) (op_VerifyNextSequenceRecv D' c w h t d p r i j n)"
  using assms unfolding ops_le_def by simp_all

lemma Proxy_IBC_le:
  assumes "ops_le D D'"
  shows "prog_le (Proxy_IBCVerifyClientState L D p h pfx i r c) (Proxy_IBCVerifyClientState L D' p h pfx i r c)"
    and "prog_le (Proxy_IBCVerifyClientConsensusState L D p h i ch pfx r k)
      (Proxy_IBCVerifyClientConsensusState L D' p h i ch pfx r k)"
  unfolding Proxy_IBCVerifyClientState_def Proxy_IBCVerifyClientConsensusState_def
  by (intro le_rules ops_leD [OF assms]; simp)+

lemma verifyBranches_le:
  "ops_le D D' \<Longrightarrow> out_le (verifyBranches L D bs c k) (verifyBranches L D' bs c k)"
proof (induction bs arbitrary: c k)
  case Nil
  then show ?case by simp
next
  case (Cons b bs)
  show ?case
    unfolding verifyBranches.simps
    by (intro le_rules Proxy_IBC_le Cons; simp)
qed

lemma verifyProxyState_le:
  "ops_le D D' \<Longrightarrow> prog_le (verifyProxyState L D m h pfx i mp) (verifyProxyState L D' m h pfx i mp)"
  unfolding verifyProxyState_def Let_def
  by (intro le_rules ops_leD verifyBranches_le; simp)

lemmas proxy_method_defs =
  Proxy_GetLatestHeight_def Proxy_Status_def Proxy_Validate_def Proxy_GetProofSpecs_def
  Proxy_ExportMetadata_def Proxy_ZeroCustomFields_def Proxy_CheckHeaderAndUpdateState_def
  Proxy_CheckMisbehaviourAndUpdateState_def Proxy_CheckSubstituteAndUpdateState_def
  Proxy_VerifyUpgradeAndUpdateState_def Proxy_VerifyClientState_def
  Proxy_VerifyClientConsensusState_def Proxy_VerifyConnectionState_def Proxy_VerifyChannelState_def
  Proxy_VerifyPacketCommitment_def Proxy_VerifyPacketAcknowledgement_def
  Proxy_VerifyPacketReceiptAbsence_def Proxy_VerifyNextSequenceRecv_def

lemmas multiv_method_defs =
  Multiv_ClientType_def Multiv_GetLatestHeight_def Multiv_Status_def Multiv_Validate_def Multiv_GetProofSpecs_def
  Multiv_ExportMetadata_def Multiv_ZeroCustomFields_def Multiv_CheckHeaderAndUpdateState_def
  Multiv_CheckMisbehaviourAndUpdateState_def Multiv_CheckSubstituteAndUpdateState_def
  Multiv_VerifyUpgradeAndUpdateState_def Multiv_VerifyClientState_def
  Multiv_VerifyClientConsensusState_def Multiv_VerifyConnectionState_def Multiv_VerifyChannelState_def
  Multiv_VerifyPacketCommitment_def Multiv_VerifyPacketAcknowledgement_def
  Multiv_VerifyPacketReceiptAbsence_def Multiv_VerifyNextSequenceRecv_def

lemma prog_le_client:
  "(\<And>x. prog_le (f x) (f' x)) \<Longrightarrow> (\<And>p. prog_le (g p) (g' p)) \<Longrightarrow> (\<And>m. prog_le (h m) (h' m)) \<Longrightarrow>
    prog_le (case c of ExternalClient x \<Rightarrow> f x | ProxyClient p \<Rightarrow> g p | MultivClient m \<Rightarrow> h m)
      (case c of ExternalClient x \<Rightarrow> f' x | ProxyClient p \<Rightarrow> g' p | MultivClient m \<Rightarrow> h' m)"
  by (cases c) simp_all

lemma out_le_client:
  "(\<And>x. out_le (f x) (f' x)) \<Longrightarrow> (\<And>p. out_le (g p) (g' p)) \<Longrightarrow> (\<And>m. out_le (h m) (h' m)) \<Longrightarrow>
    out_le (case c of ExternalClient x \<Rightarrow> f x | ProxyClient p \<Rightarrow> g p | MultivClient m \<Rightarrow> h m)
      (case c of ExternalClient x \<Rightarrow> f' x | ProxyClient p \<Rightarrow> g' p | MultivClient m \<Rightarrow> h' m)"
  by (cases c) simp_all

lemma method_table_le:
  assumes le: "ops_le D D'"
  shows "ops_le (method_table L E D) (method_table L E D')"
  unfolding ops_le_def method_table_def client_ops.simps proxy_method_defs multiv_method_defs
  by (intro conjI allI;
      intro prog_le_client out_le_client le_rules ops_leD [OF le] Proxy_IBC_le [OF le]
        verifyProxyState_le [OF le];
      simp only: prog_le_refl out_le_refl)

lemma dispatch_step_le: "ops_le (dispatch L E n) (dispatch L E (Suc n))"
  by (induction n) (simp_all add: no_unfoldings_le method_table_le)

lemma dispatch_le: "n \<le> m \<Longrightarrow> ops_le (dispatch L E n) (dispatch L E m)"
proof (induction m)
  case (Suc m)
  then show ?case
    using ops_le_trans [OF _ dispatch_step_le] ops_le_refl by (cases "n = Suc m") auto
qed (simp add: ops_le_refl)

lemma prog_le_halts: "prog_le m m' \<Longrightarrow> halts m \<Longrightarrow> m' = m"
  by (auto simp: prog_le_def halts_def fun_eq_iff)

text \<open>
  With more unfoldings than the sizes of the client state and of the proof, every
  verification returns, and the number of unfoldings no longer matters.
\<close>

lemma dispatch_enough:
  assumes "lib_halts L" and "sizes_ok L" and "ext_halts E" and "cs_size cs + length proof < n"
  shows "verifies (dispatch L E n) cs proof"
  using dispatch_verifies_within [OF assms(1-3)] assms(4) by (rule verifies_withinD)

lemma dispatch_stable:
  assumes "lib_halts L" and "sizes_ok L" and "ext_halts E"
    and "cs_size cs + length proof < n" and "n \<le> m"
  shows "op_VerifyClientState (dispatch L E m) cs h pfx i proof c =
      op_VerifyClientState (dispatch L E n) cs h pfx i proof c"
    and "op_VerifyClientConsensusState (dispatch L E m) cs h i ch pfx proof k =
      op_VerifyClientConsensusState (dispatch L E n) cs h i ch pfx proof k"
    and "op_VerifyConnectionState (dispatch L E m) cs h pfx proof i cn =
      op_VerifyConnectionState (dispatch L E n) cs h pfx proof i cn"
    and "op_VerifyChannelState (dispatch L E m) cs h pfx proof po cc chn =
      op_VerifyChannelState (dispatch L E n) cs h pfx proof po cc chn"
    and "op_VerifyPacketCommitment (dispatch L E m) cs w h t d pfx proof po cc sq b =
      op_VerifyPacketCommitment (dispatch L E n) cs w h t d pfx proof po cc sq b"
    and "op_VerifyPacketAcknowledgement (dispatch L E m) cs w h t d pfx proof po cc sq b =
      op_VerifyPacketAcknowledgement (dispatch L E n) cs w h t d pfx proof po cc sq b"
    and "op_VerifyPacketReceiptAbsence (dispatch L E m) cs w h t d pfx proof po cc sq =
      op_VerifyPacketReceiptAbsence (dispatch L E n) cs w h t d pfx proof po cc sq"
    and "op_VerifyNextSequenceRecv (dispatch L E m) cs w h t d pfx proof po cc sq =
      op_VerifyNextSequenceRecv (dispatch L E n) cs w h t d pfx proof po cc sq"
  using dispatch_enough [OF assms(1-4)] dispatch_le [OF assms(5), of L E]
  by (auto simp: verifies_def intro!: prog_le_halts ops_leD)

end
