(* ===== verification/Messages.thy ===== *)
theory Messages
  imports Client_Dispatch
begin

text \<open>
  The messages of the proxy module: the structs of \<open>modules/proxy/types/tx.pb.go\<close> and
  their methods in \<open>msgs.go\<close>. A field carries the initials of its message, since two
  records may not share a field name.
\<close>

section \<open>Message structs (\<open>tx.pb.go\<close>)\<close>

record MsgProxyClientState =
  pcs_UpstreamClientId :: string
  pcs_UpstreamPrefix :: MerklePrefix
  pcs_CounterpartyClientId :: string
  pcs_ClientState :: "Any option"
  pcs_ConsensusState :: "Any option"
  pcs_ProofClient :: bytes
  pcs_ProofConsensus :: bytes
  pcs_ProofHeight :: Height
  pcs_ConsensusHeight :: Height
  pcs_Signer :: string

record MsgProxyConnectionOpenTry =
  cot_ConnectionId :: string
  cot_UpstreamPrefix :: MerklePrefix
  cot_Connection :: ConnectionEnd
  cot_DownstreamClientState :: "Any option"
  cot_DownstreamConsensusState :: "Any option"
  cot_ProxyClientState :: "Any option"
  cot_ProofInit :: bytes
  cot_ProofClient :: bytes
  cot_ProofConsensus :: bytes
  cot_ProofHeight :: Height
  cot_ConsensusHeight :: Height
  cot_ProofProxyClient :: bytes
  cot_ProofProxyConsensus :: bytes
  cot_ProofProxyHeight :: Height
  cot_ProxyConsensusHeight :: Height
  cot_Signer :: string

record MsgProxyConnectionOpenAck =
  coa_ConnectionId :: string
  coa_UpstreamPrefix :: MerklePrefix
  coa_Connection :: ConnectionEnd
  coa_DownstreamClientState :: "Any option"
  coa_DownstreamConsensusState :: "Any option"
  coa_ProxyClientState :: "Any option"
  coa_ProofTry :: bytes
  coa_ProofClient :: bytes
  coa_ProofConsensus :: bytes
  coa_ProofHeight :: Height
  coa_ConsensusHeight :: Height
  coa_ProofProxyClient :: bytes
  coa_ProofProxyConsensus :: bytes
  coa_ProofProxyHeight :: Height
  coa_ProxyConsensusHeight :: Height
  coa_Signer :: string

record MsgProxyConnectionOpenConfirm =
  coc_ConnectionId :: string
  coc_UpstreamClientId :: string
  coc_UpstreamPrefix :: MerklePrefix
  coc_CounterpartyConnectionId :: string
  coc_ProofAck :: bytes
  coc_ProofHeight :: Height
  coc_Signer :: string

record MsgProxyConnectionOpenFinalize =
  cof_ConnectionId :: string
  cof_UpstreamClientId :: string
  cof_UpstreamPrefix :: MerklePrefix
  cof_ProofConfirm :: bytes
  cof_ProofHeight :: Height
  cof_Signer :: string

record MsgProxyChannelOpenTry =
  hot_UpstreamClientId :: string
  hot_UpstreamPrefix :: MerklePrefix
  hot_Order :: int32
  hot_ConnectionHops :: "string list"
  hot_PortId :: string
  hot_ChannelId :: string
  hot_DownstreamPortId :: string
  hot_Version :: string
  hot_ProofInit :: bytes
  hot_ProofHeight :: Height
  hot_Signer :: string

record MsgProxyChannelOpenAck =
  hoa_UpstreamClientId :: string
  hoa_UpstreamPrefix :: MerklePrefix
  hoa_Order :: int32
  hoa_ConnectionHops :: "string list"
  hoa_PortId :: string
  hoa_ChannelId :: string
  hoa_DownstreamPortId :: string
  hoa_DownstreamChannelId :: string
  hoa_Version :: string
  hoa_ProofTry :: bytes
  hoa_ProofHeight :: Height
  hoa_Signer :: string

record MsgProxyChannelOpenConfirm =
  hoc_UpstreamClientId :: string
  hoc_UpstreamPrefix :: MerklePrefix
  hoc_PortId :: string
  hoc_ChannelId :: string
  hoc_DownstreamChannelId :: string
  hoc_ProofAck :: bytes
  hoc_ProofHeight :: Height
  hoc_Signer :: string

record MsgProxyChannelOpenFinalize =
  hof_UpstreamClientId :: string
  hof_UpstreamPrefix :: MerklePrefix
  hof_PortId :: string
  hof_ChannelId :: string
  hof_ProofConfirm :: bytes
  hof_ProofHeight :: Height
  hof_Signer :: string

record MsgProxyRecvPacket =
  prp_UpstreamClientId :: string
  prp_UpstreamPrefix :: MerklePrefix
  prp_Packet :: Packet
  prp_Proof :: bytes
  prp_ProofHeight :: Height
  prp_Signer :: string

record MsgProxyAcknowledgePacket =
  pap_UpstreamClientId :: string
  pap_UpstreamPrefix :: MerklePrefix
  pap_Packet :: Packet
  pap_Acknowledgement :: bytes
  pap_Proof :: bytes
  pap_ProofHeight :: Height
  pap_Signer :: string

section \<open>Packing (\<open>msgs.go\<close>)\<close>

definition mustPackClientState :: "'x lib \<Rightarrow> 'x client_state option \<Rightarrow> Any outcome" where
  "mustPackClientState L clientState = must (PackClientState L clientState)"

definition mustPackConsensusState :: "'x lib \<Rightarrow> 'x consensus_state option \<Rightarrow> Any outcome" where
  "mustPackConsensusState L consensusState = must (PackConsensusState L consensusState)"

section \<open>Constructors\<close>

text \<open>The constructor leaves the field \<open>CounterpartyClientId\<close> at its zero value.\<close>

definition NewMsgProxyClientState ::
  "'x lib \<Rightarrow> string \<Rightarrow> MerklePrefix \<Rightarrow> 'x client_state option \<Rightarrow> 'x consensus_state option \<Rightarrow> bytes \<Rightarrow> bytes \<Rightarrow>
    Height \<Rightarrow> Height \<Rightarrow> string \<Rightarrow> MsgProxyClientState outcome" where
  "NewMsgProxyClientState L upstreamClientID upstreamPrefix clientState consensusState proofClient proofConsensus
     proofHeight consensusHeight signer =
     obind (PackClientState L clientState) (\<lambda>anyClient.
     obind (PackConsensusState L consensusState) (\<lambda>anyConsensus.
     Ok \<lparr>pcs_UpstreamClientId = upstreamClientID, pcs_UpstreamPrefix = upstreamPrefix,
         pcs_CounterpartyClientId = [], pcs_ClientState = Some anyClient,
         pcs_ConsensusState = Some anyConsensus, pcs_ProofClient = proofClient,
         pcs_ProofConsensus = proofConsensus, pcs_ProofHeight = proofHeight,
         pcs_ConsensusHeight = consensusHeight, pcs_Signer = signer\<rparr>))"

definition NewMsgProxyConnectionOpenTry ::
  "'x lib \<Rightarrow> string \<Rightarrow> MerklePrefix \<Rightarrow> ConnectionEnd \<Rightarrow> 'x client_state option \<Rightarrow> 'x consensus_state option \<Rightarrow>
    'x client_state option \<Rightarrow> bytes \<Rightarrow> bytes \<Rightarrow> bytes \<Rightarrow> Height \<Rightarrow> Height \<Rightarrow> bytes \<Rightarrow> bytes \<Rightarrow> Height \<Rightarrow> Height \<Rightarrow>
    string \<Rightarrow> MsgProxyConnectionOpenTry outcome" where
  "NewMsgProxyConnectionOpenTry L connectionID upstreamPrefix connection downstreamClientState
     downstreamConsensusState proxyClientState proofInit proofClient proofConsensus proofHeight consensusHeight
     proofProxyClient proofProxyConsensus proofProxyHeight proxyConsensusHeight signer =
     obind (mustPackClientState L downstreamClientState) (\<lambda>anyClient.
     obind (mustPackConsensusState L downstreamConsensusState) (\<lambda>anyConsensus.
     obind (mustPackClientState L proxyClientState) (\<lambda>anyProxy.
     Ok \<lparr>cot_ConnectionId = connectionID, cot_UpstreamPrefix = upstreamPrefix, cot_Connection = connection,
         cot_DownstreamClientState = Some anyClient, cot_DownstreamConsensusState = Some anyConsensus,
         cot_ProxyClientState = Some anyProxy, cot_ProofInit = proofInit, cot_ProofClient = proofClient,
         cot_ProofConsensus = proofConsensus, cot_ProofHeight = proofHeight,
         cot_ConsensusHeight = consensusHeight, cot_ProofProxyClient = proofProxyClient,
         cot_ProofProxyConsensus = proofProxyConsensus, cot_ProofProxyHeight = proofProxyHeight,
         cot_ProxyConsensusHeight = proxyConsensusHeight, cot_Signer = signer\<rparr>)))"

definition NewMsgProxyConnectionOpenAck ::
  "'x lib \<Rightarrow> string \<Rightarrow> MerklePrefix \<Rightarrow> ConnectionEnd \<Rightarrow> 'x client_state option \<Rightarrow> 'x consensus_state option \<Rightarrow>
    'x client_state option \<Rightarrow> bytes \<Rightarrow> bytes \<Rightarrow> bytes \<Rightarrow> Height \<Rightarrow> Height \<Rightarrow> bytes \<Rightarrow> bytes \<Rightarrow> Height \<Rightarrow> Height \<Rightarrow>
    string \<Rightarrow> MsgProxyConnectionOpenAck outcome" where
  "NewMsgProxyConnectionOpenAck L connectionID upstreamPrefix connection downstreamClientState
     downstreamConsensusState proxyClientState proofTry proofClient proofConsensus proofHeight consensusHeight
     proofProxyClient proofProxyConsensus proofProxyHeight proxyConsensusHeight signer =
     obind (mustPackClientState L downstreamClientState) (\<lambda>anyClient.
     obind (mustPackConsensusState L downstreamConsensusState) (\<lambda>anyConsensus.
     obind (mustPackClientState L proxyClientState) (\<lambda>anyProxy.
     Ok \<lparr>coa_ConnectionId = connectionID, coa_UpstreamPrefix = upstreamPrefix, coa_Connection = connection,
         coa_DownstreamClientState = Some anyClient, coa_DownstreamConsensusState = Some anyConsensus,
         coa_ProxyClientState = Some anyProxy, coa_ProofTry = proofTry, coa_ProofClient = proofClient,
         coa_ProofConsensus = proofConsensus, coa_ProofHeight = proofHeight,
         coa_ConsensusHeight = consensusHeight, coa_ProofProxyClient = proofProxyClient,
         coa_ProofProxyConsensus = proofProxyConsensus, coa_ProofProxyHeight = proofProxyHeight,
         coa_ProxyConsensusHeight = proxyConsensusHeight, coa_Signer = signer\<rparr>)))"

definition NewMsgProxyConnectionOpenConfirm ::
  "string \<Rightarrow> string \<Rightarrow> MerklePrefix \<Rightarrow> string \<Rightarrow> bytes \<Rightarrow> Height \<Rightarrow> string \<Rightarrow> MsgProxyConnectionOpenConfirm outcome" where
  "NewMsgProxyConnectionOpenConfirm connectionID upstreamClientID upstreamPrefix counterpartyConnectionID
     proofAck proofHeight signer =
     Ok \<lparr>coc_ConnectionId = connectionID, coc_UpstreamClientId = upstreamClientID,
         coc_UpstreamPrefix = upstreamPrefix, coc_CounterpartyConnectionId = counterpartyConnectionID,
         coc_ProofAck = proofAck, coc_ProofHeight = proofHeight, coc_Signer = signer\<rparr>"

definition NewMsgProxyConnectionOpenFinalize ::
  "string \<Rightarrow> string \<Rightarrow> MerklePrefix \<Rightarrow> bytes \<Rightarrow> Height \<Rightarrow> string \<Rightarrow> MsgProxyConnectionOpenFinalize outcome" where
  "NewMsgProxyConnectionOpenFinalize connectionID upstreamClientID upstreamPrefix proofConfirm proofHeight signer =
     Ok \<lparr>cof_ConnectionId = connectionID, cof_UpstreamClientId = upstreamClientID,
         cof_UpstreamPrefix = upstreamPrefix, cof_ProofConfirm = proofConfirm,
         cof_ProofHeight = proofHeight, cof_Signer = signer\<rparr>"

section \<open>The message type\<close>

datatype msg =
    ClientState_msg MsgProxyClientState
  | ConnectionOpenTry_msg MsgProxyConnectionOpenTry
  | ConnectionOpenAck_msg MsgProxyConnectionOpenAck
  | ConnectionOpenConfirm_msg MsgProxyConnectionOpenConfirm
  | ConnectionOpenFinalize_msg MsgProxyConnectionOpenFinalize
  | ChannelOpenTry_msg MsgProxyChannelOpenTry
  | ChannelOpenAck_msg MsgProxyChannelOpenAck
  | ChannelOpenConfirm_msg MsgProxyChannelOpenConfirm
  | ChannelOpenFinalize_msg MsgProxyChannelOpenFinalize
  | RecvPacket_msg MsgProxyRecvPacket
  | AcknowledgePacket_msg MsgProxyAcknowledgePacket

section \<open>Methods of the messages\<close>

text \<open>
  \<open>sdk.AccAddressFromBech32\<close> is a parameter. No message checks anything in
  \<open>ValidateBasic\<close>.
\<close>

definition MsgProxyClientState_ValidateBasic :: "MsgProxyClientState \<Rightarrow> unit outcome" where
  "MsgProxyClientState_ValidateBasic msg = Ok ()"

definition MsgProxyClientState_GetSigners :: "(string \<Rightarrow> bytes outcome) \<Rightarrow> MsgProxyClientState \<Rightarrow> bytes list outcome" where
  "MsgProxyClientState_GetSigners AccAddressFromBech32 msg =
     obind (must (AccAddressFromBech32 (pcs_Signer msg))) (\<lambda>accAddr. Ok [accAddr])"

definition MsgProxyClientState_UnpackInterfaces :: "'x lib \<Rightarrow> MsgProxyClientState \<Rightarrow> unit outcome" where
  "MsgProxyClientState_UnpackInterfaces unpacker msg =
     obind (UnpackAnyClientState unpacker (pcs_ClientState msg)) (\<lambda>clientState.
     obind (UnpackAnyConsensusState unpacker (pcs_ConsensusState msg)) (\<lambda>consensusState. Ok ()))"

definition MsgProxyConnectionOpenTry_ValidateBasic :: "MsgProxyConnectionOpenTry \<Rightarrow> unit outcome" where
  "MsgProxyConnectionOpenTry_ValidateBasic msg = Ok ()"

definition MsgProxyConnectionOpenTry_GetSigners :: "(string \<Rightarrow> bytes outcome) \<Rightarrow> MsgProxyConnectionOpenTry \<Rightarrow> bytes list outcome" where
  "MsgProxyConnectionOpenTry_GetSigners AccAddressFromBech32 msg =
     obind (must (AccAddressFromBech32 (cot_Signer msg))) (\<lambda>accAddr. Ok [accAddr])"

definition MsgProxyConnectionOpenTry_UnpackInterfaces :: "'x lib \<Rightarrow> MsgProxyConnectionOpenTry \<Rightarrow> unit outcome" where
  "MsgProxyConnectionOpenTry_UnpackInterfaces unpacker msg =
     obind (UnpackAnyClientState unpacker (cot_DownstreamClientState msg)) (\<lambda>downstreamClientState.
     obind (UnpackAnyConsensusState unpacker (cot_DownstreamConsensusState msg)) (\<lambda>downstreamConsensusState.
     obind (UnpackAnyClientState unpacker (cot_ProxyClientState msg)) (\<lambda>proxyClientState. Ok ())))"

definition MsgProxyConnectionOpenAck_ValidateBasic :: "MsgProxyConnectionOpenAck \<Rightarrow> unit outcome" where
  "MsgProxyConnectionOpenAck_ValidateBasic msg = Ok ()"

definition MsgProxyConnectionOpenAck_GetSigners :: "(string \<Rightarrow> bytes outcome) \<Rightarrow> MsgProxyConnectionOpenAck \<Rightarrow> bytes list outcome" where
  "MsgProxyConnectionOpenAck_GetSigners AccAddressFromBech32 msg =
     obind (must (AccAddressFromBech32 (coa_Signer msg))) (\<lambda>accAddr. Ok [accAddr])"

definition MsgProxyConnectionOpenAck_UnpackInterfaces :: "'x lib \<Rightarrow> MsgProxyConnectionOpenAck \<Rightarrow> unit outcome" where
  "MsgProxyConnectionOpenAck_UnpackInterfaces unpacker msg =
     obind (UnpackAnyClientState unpacker (coa_DownstreamClientState msg)) (\<lambda>downstreamClientState.
     obind (UnpackAnyConsensusState unpacker (coa_DownstreamConsensusState msg)) (\<lambda>downstreamConsensusState.
     obind (UnpackAnyClientState unpacker (coa_ProxyClientState msg)) (\<lambda>proxyClientState. Ok ())))"

definition MsgProxyConnectionOpenConfirm_ValidateBasic :: "MsgProxyConnectionOpenConfirm \<Rightarrow> unit outcome" where
  "MsgProxyConnectionOpenConfirm_ValidateBasic msg = Ok ()"

definition MsgProxyConnectionOpenConfirm_GetSigners :: "(string \<Rightarrow> bytes outcome) \<Rightarrow> MsgProxyConnectionOpenConfirm \<Rightarrow> bytes list outcome" where
  "MsgProxyConnectionOpenConfirm_GetSigners AccAddressFromBech32 msg =
     obind (must (AccAddressFromBech32 (coc_Signer msg))) (\<lambda>accAddr. Ok [accAddr])"

definition MsgProxyConnectionOpenConfirm_UnpackInterfaces :: "'x lib \<Rightarrow> MsgProxyConnectionOpenConfirm \<Rightarrow> unit outcome" where
  "MsgProxyConnectionOpenConfirm_UnpackInterfaces unpacker msg = Ok ()"

definition MsgProxyConnectionOpenFinalize_ValidateBasic :: "MsgProxyConnectionOpenFinalize \<Rightarrow> unit outcome" where
  "MsgProxyConnectionOpenFinalize_ValidateBasic msg = Ok ()"

definition MsgProxyConnectionOpenFinalize_GetSigners :: "(string \<Rightarrow> bytes outcome) \<Rightarrow> MsgProxyConnectionOpenFinalize \<Rightarrow> bytes list outcome" where
  "MsgProxyConnectionOpenFinalize_GetSigners AccAddressFromBech32 msg =
     obind (must (AccAddressFromBech32 (cof_Signer msg))) (\<lambda>accAddr. Ok [accAddr])"

definition MsgProxyConnectionOpenFinalize_UnpackInterfaces :: "'x lib \<Rightarrow> MsgProxyConnectionOpenFinalize \<Rightarrow> unit outcome" where
  "MsgProxyConnectionOpenFinalize_UnpackInterfaces unpacker msg = Ok ()"

definition MsgProxyChannelOpenTry_ValidateBasic :: "MsgProxyChannelOpenTry \<Rightarrow> unit outcome" where
  "MsgProxyChannelOpenTry_ValidateBasic msg = Ok ()"

definition MsgProxyChannelOpenTry_GetSigners :: "(string \<Rightarrow> bytes outcome) \<Rightarrow> MsgProxyChannelOpenTry \<Rightarrow> bytes list outcome" where
  "MsgProxyChannelOpenTry_GetSigners AccAddressFromBech32 msg =
     obind (must (AccAddressFromBech32 (hot_Signer msg))) (\<lambda>accAddr. Ok [accAddr])"

definition MsgProxyChannelOpenAck_ValidateBasic :: "MsgProxyChannelOpenAck \<Rightarrow> unit outcome" where
  "MsgProxyChannelOpenAck_ValidateBasic msg = Ok ()"

definition MsgProxyChannelOpenAck_GetSigners :: "(string \<Rightarrow> bytes outcome) \<Rightarrow> MsgProxyChannelOpenAck \<Rightarrow> bytes list outcome" where
  "MsgProxyChannelOpenAck_GetSigners AccAddressFromBech32 msg =
     obind (must (AccAddressFromBech32 (hoa_Signer msg))) (\<lambda>accAddr. Ok [accAddr])"

definition MsgProxyChannelOpenConfirm_ValidateBasic :: "MsgProxyChannelOpenConfirm \<Rightarrow> unit outcome" where
  "MsgProxyChannelOpenConfirm_ValidateBasic msg = Ok ()"

definition MsgProxyChannelOpenConfirm_GetSigners :: "(string \<Rightarrow> bytes outcome) \<Rightarrow> MsgProxyChannelOpenConfirm \<Rightarrow> bytes list outcome" where
  "MsgProxyChannelOpenConfirm_GetSigners AccAddressFromBech32 msg =
     obind (must (AccAddressFromBech32 (hoc_Signer msg))) (\<lambda>accAddr. Ok [accAddr])"

definition MsgProxyChannelOpenFinalize_ValidateBasic :: "MsgProxyChannelOpenFinalize \<Rightarrow> unit outcome" where
  "MsgProxyChannelOpenFinalize_ValidateBasic msg = Ok ()"

definition MsgProxyChannelOpenFinalize_GetSigners :: "(string \<Rightarrow> bytes outcome) \<Rightarrow> MsgProxyChannelOpenFinalize \<Rightarrow> bytes list outcome" where
  "MsgProxyChannelOpenFinalize_GetSigners AccAddressFromBech32 msg =
     obind (must (AccAddressFromBech32 (hof_Signer msg))) (\<lambda>accAddr. Ok [accAddr])"

definition MsgProxyRecvPacket_ValidateBasic :: "MsgProxyRecvPacket \<Rightarrow> unit outcome" where
  "MsgProxyRecvPacket_ValidateBasic msg = Ok ()"

definition MsgProxyRecvPacket_GetSigners :: "(string \<Rightarrow> bytes outcome) \<Rightarrow> MsgProxyRecvPacket \<Rightarrow> bytes list outcome" where
  "MsgProxyRecvPacket_GetSigners AccAddressFromBech32 msg =
     obind (must (AccAddressFromBech32 (prp_Signer msg))) (\<lambda>accAddr. Ok [accAddr])"

definition MsgProxyAcknowledgePacket_ValidateBasic :: "MsgProxyAcknowledgePacket \<Rightarrow> unit outcome" where
  "MsgProxyAcknowledgePacket_ValidateBasic msg = Ok ()"

definition MsgProxyAcknowledgePacket_GetSigners :: "(string \<Rightarrow> bytes outcome) \<Rightarrow> MsgProxyAcknowledgePacket \<Rightarrow> bytes list outcome" where
  "MsgProxyAcknowledgePacket_GetSigners AccAddressFromBech32 msg =
     obind (must (AccAddressFromBech32 (pap_Signer msg))) (\<lambda>accAddr. Ok [accAddr])"

text \<open>
  Calls through the interfaces \<open>sdk.Msg\<close> and \<open>UnpackInterfacesMessage\<close>. The channel and packet
  messages do not implement the latter: there is nothing to unpack in them.
\<close>

fun ValidateBasic :: "msg \<Rightarrow> unit outcome" where
  "ValidateBasic (ClientState_msg m) = MsgProxyClientState_ValidateBasic m"
| "ValidateBasic (ConnectionOpenTry_msg m) = MsgProxyConnectionOpenTry_ValidateBasic m"
| "ValidateBasic (ConnectionOpenAck_msg m) = MsgProxyConnectionOpenAck_ValidateBasic m"
| "ValidateBasic (ConnectionOpenConfirm_msg m) = MsgProxyConnectionOpenConfirm_ValidateBasic m"
| "ValidateBasic (ConnectionOpenFinalize_msg m) = MsgProxyConnectionOpenFinalize_ValidateBasic m"
| "ValidateBasic (ChannelOpenTry_msg m) = MsgProxyChannelOpenTry_ValidateBasic m"
| "ValidateBasic (ChannelOpenAck_msg m) = MsgProxyChannelOpenAck_ValidateBasic m"
| "ValidateBasic (ChannelOpenConfirm_msg m) = MsgProxyChannelOpenConfirm_ValidateBasic m"
| "ValidateBasic (ChannelOpenFinalize_msg m) = MsgProxyChannelOpenFinalize_ValidateBasic m"
| "ValidateBasic (RecvPacket_msg m) = MsgProxyRecvPacket_ValidateBasic m"
| "ValidateBasic (AcknowledgePacket_msg m) = MsgProxyAcknowledgePacket_ValidateBasic m"

fun GetSigners :: "(string \<Rightarrow> bytes outcome) \<Rightarrow> msg \<Rightarrow> bytes list outcome" where
  "GetSigners A (ClientState_msg m) = MsgProxyClientState_GetSigners A m"
| "GetSigners A (ConnectionOpenTry_msg m) = MsgProxyConnectionOpenTry_GetSigners A m"
| "GetSigners A (ConnectionOpenAck_msg m) = MsgProxyConnectionOpenAck_GetSigners A m"
| "GetSigners A (ConnectionOpenConfirm_msg m) = MsgProxyConnectionOpenConfirm_GetSigners A m"
| "GetSigners A (ConnectionOpenFinalize_msg m) = MsgProxyConnectionOpenFinalize_GetSigners A m"
| "GetSigners A (ChannelOpenTry_msg m) = MsgProxyChannelOpenTry_GetSigners A m"
| "GetSigners A (ChannelOpenAck_msg m) = MsgProxyChannelOpenAck_GetSigners A m"
| "GetSigners A (ChannelOpenConfirm_msg m) = MsgProxyChannelOpenConfirm_GetSigners A m"
| "GetSigners A (ChannelOpenFinalize_msg m) = MsgProxyChannelOpenFinalize_GetSigners A m"
| "GetSigners A (RecvPacket_msg m) = MsgProxyRecvPacket_GetSigners A m"
| "GetSigners A (AcknowledgePacket_msg m) = MsgProxyAcknowledgePacket_GetSigners A m"

fun UnpackInterfaces :: "'x lib \<Rightarrow> msg \<Rightarrow> unit outcome" where
  "UnpackInterfaces L (ClientState_msg m) = MsgProxyClientState_UnpackInterfaces L m"
| "UnpackInterfaces L (ConnectionOpenTry_msg m) = MsgProxyConnectionOpenTry_UnpackInterfaces L m"
| "UnpackInterfaces L (ConnectionOpenAck_msg m) = MsgProxyConnectionOpenAck_UnpackInterfaces L m"
| "UnpackInterfaces L (ConnectionOpenConfirm_msg m) = MsgProxyConnectionOpenConfirm_UnpackInterfaces L m"
| "UnpackInterfaces L (ConnectionOpenFinalize_msg m) = MsgProxyConnectionOpenFinalize_UnpackInterfaces L m"
| "UnpackInterfaces L m = Ok ()"

lemmas message_method_defs =
  MsgProxyClientState_ValidateBasic_def MsgProxyClientState_GetSigners_def MsgProxyClientState_UnpackInterfaces_def
  MsgProxyConnectionOpenTry_ValidateBasic_def MsgProxyConnectionOpenTry_GetSigners_def MsgProxyConnectionOpenTry_UnpackInterfaces_def
  MsgProxyConnectionOpenAck_ValidateBasic_def MsgProxyConnectionOpenAck_GetSigners_def MsgProxyConnectionOpenAck_UnpackInterfaces_def
  MsgProxyConnectionOpenConfirm_ValidateBasic_def MsgProxyConnectionOpenConfirm_GetSigners_def MsgProxyConnectionOpenConfirm_UnpackInterfaces_def
  MsgProxyConnectionOpenFinalize_ValidateBasic_def MsgProxyConnectionOpenFinalize_GetSigners_def MsgProxyConnectionOpenFinalize_UnpackInterfaces_def
  MsgProxyChannelOpenTry_ValidateBasic_def MsgProxyChannelOpenTry_GetSigners_def
  MsgProxyChannelOpenAck_ValidateBasic_def MsgProxyChannelOpenAck_GetSigners_def
  MsgProxyChannelOpenConfirm_ValidateBasic_def MsgProxyChannelOpenConfirm_GetSigners_def
  MsgProxyChannelOpenFinalize_ValidateBasic_def MsgProxyChannelOpenFinalize_GetSigners_def
  MsgProxyRecvPacket_ValidateBasic_def MsgProxyRecvPacket_GetSigners_def
  MsgProxyAcknowledgePacket_ValidateBasic_def MsgProxyAcknowledgePacket_GetSigners_def

text \<open>The address that pays for and signs a message.\<close>

fun Signer :: "msg \<Rightarrow> string" where
  "Signer (ClientState_msg m) = pcs_Signer m"
| "Signer (ConnectionOpenTry_msg m) = cot_Signer m"
| "Signer (ConnectionOpenAck_msg m) = coa_Signer m"
| "Signer (ConnectionOpenConfirm_msg m) = coc_Signer m"
| "Signer (ConnectionOpenFinalize_msg m) = cof_Signer m"
| "Signer (ChannelOpenTry_msg m) = hot_Signer m"
| "Signer (ChannelOpenAck_msg m) = hoa_Signer m"
| "Signer (ChannelOpenConfirm_msg m) = hoc_Signer m"
| "Signer (ChannelOpenFinalize_msg m) = hof_Signer m"
| "Signer (RecvPacket_msg m) = prp_Signer m"
| "Signer (AcknowledgePacket_msg m) = pap_Signer m"

lemma GetSigners_eq: "GetSigners A m = obind (must (A (Signer m))) (\<lambda>a. Ok [a])"
  by (cases m) (simp_all add: message_method_defs)

lemma ValidateBasic_Ok [simp]: "ValidateBasic m = Ok ()"
  by (cases m) (simp_all add: message_method_defs)

end
