(* ===== verification/Commitment.thy ===== *)
theory Commitment
  imports Client_Dispatch
begin

text \<open>
  \<open>modules/proxy/keeper/commitment.go\<close>: the proxy module's copy of the upstream chain's
  state. The objects that are read back (client states, consensus states, connections,
  channels) share one contract, the locale \<open>proxied_object\<close>.
\<close>

section \<open>Reading\<close>

text \<open>\<open>bz := store.Get(key); if len(bz) == 0 { return nil, false }; return MustUnmarshal(bz), true\<close>\<close>

definition read_object ::
  "substore \<Rightarrow> string \<Rightarrow> (bytes \<Rightarrow> 'a outcome) \<Rightarrow> ('i ctx, 'a option) prog" where
  "read_object store key unmarshal =
     mbind (mget (substore_get store key)) (\<lambda>bz.
     case bz of
       None \<Rightarrow> mret None
     | Some b \<Rightarrow> if b = [] then mret None
         else mbind (mlift (must (unmarshal b))) (\<lambda>x. mret (Some x)))"

definition Keeper_GetProxyClientState ::
  "('x, 'i) Keeper \<Rightarrow> prefix \<Rightarrow> string \<Rightarrow> string \<Rightarrow> ('i ctx, 'x client_state option) prog" where
  "Keeper_GetProxyClientState k upstreamPrefix counterpartyClientIdentifier upstreamClientID =
     read_object (ProxyClientStore (cdc k) upstreamPrefix upstreamClientID counterpartyClientIdentifier)
       (ClientStateKey (cdc k)) (UnmarshalClientState (cdc k))"

definition GetProxyClientConsensusState ::
  "('x, 'i) Keeper \<Rightarrow> prefix \<Rightarrow> string \<Rightarrow> string \<Rightarrow> Height \<Rightarrow> ('i ctx, 'x consensus_state option) prog" where
  "GetProxyClientConsensusState k upstreamPrefix counterpartyClientIdentifier upstreamClientID consensusHeight =
     read_object (ProxyClientStore (cdc k) upstreamPrefix upstreamClientID counterpartyClientIdentifier)
       (ConsensusStateKey (cdc k) consensusHeight) (UnmarshalConsensusState (cdc k))"

definition GetProxyConnection ::
  "('x, 'i) Keeper \<Rightarrow> prefix \<Rightarrow> string \<Rightarrow> string \<Rightarrow> ('i ctx, ConnectionEnd option) prog" where
  "GetProxyConnection k upstreamPrefix upstreamClientID connectionID =
     read_object (ProxyStore (cdc k) upstreamPrefix upstreamClientID)
       (ConnectionKey (cdc k) connectionID) (UnmarshalConnectionEnd (cdc k))"

definition GetProxyChannel ::
  "('x, 'i) Keeper \<Rightarrow> prefix \<Rightarrow> string \<Rightarrow> string \<Rightarrow> string \<Rightarrow> ('i ctx, Channel option) prog" where
  "GetProxyChannel k upstreamPrefix upstreamClientID portID channelID =
     read_object (ProxyStore (cdc k) upstreamPrefix upstreamClientID)
       (ChannelKey (cdc k) portID channelID) (UnmarshalChannel (cdc k))"

section \<open>Writing\<close>

definition SetProxyClientState ::
  "('x, 'i) Keeper \<Rightarrow> prefix \<Rightarrow> string \<Rightarrow> string \<Rightarrow> 'x client_state \<Rightarrow> ('i ctx, unit) prog" where
  "SetProxyClientState k upstreamPrefix counterpartyClientIdentifier upstreamClientID clientState =
     (let store = ProxyClientStore (cdc k) upstreamPrefix upstreamClientID counterpartyClientIdentifier in
     mbind (mlift (must (MarshalClientState (cdc k) clientState))) (\<lambda>bz.
     mput (substore_set store (ClientStateKey (cdc k)) bz)))"

definition SetProxyClientConsensusState ::
  "('x, 'i) Keeper \<Rightarrow> prefix \<Rightarrow> string \<Rightarrow> string \<Rightarrow> Height \<Rightarrow> 'x consensus_state \<Rightarrow> ('i ctx, unit) prog" where
  "SetProxyClientConsensusState k upstreamPrefix counterpartyClientIdentifier upstreamClientID
     consensusHeight consensusState =
     (let store = ProxyClientStore (cdc k) upstreamPrefix upstreamClientID counterpartyClientIdentifier in
     mbind (mlift (must (MarshalConsensusState (cdc k) consensusState))) (\<lambda>bz.
     mput (substore_set store (ConsensusStateKey (cdc k) consensusHeight) bz)))"

definition SetProxyConnection ::
  "('x, 'i) Keeper \<Rightarrow> prefix \<Rightarrow> string \<Rightarrow> string \<Rightarrow> ConnectionEnd \<Rightarrow> ('i ctx, unit) prog" where
  "SetProxyConnection k upstreamPrefix upstreamClientID connectionID connectionEnd =
     (let store = ProxyStore (cdc k) upstreamPrefix upstreamClientID;
          bz = MarshalConnectionEnd (cdc k) connectionEnd
      in mput (substore_set store (ConnectionKey (cdc k) connectionID) bz))"

definition SetProxyChannel ::
  "('x, 'i) Keeper \<Rightarrow> prefix \<Rightarrow> string \<Rightarrow> string \<Rightarrow> string \<Rightarrow> Channel \<Rightarrow> ('i ctx, unit) prog" where
  "SetProxyChannel k upstreamPrefix upstreamClientID portID channelID channelEnd =
     (let store = ProxyStore (cdc k) upstreamPrefix upstreamClientID;
          bz = MarshalChannel (cdc k) channelEnd
      in mput (substore_set store (ChannelKey (cdc k) portID channelID) bz))"

definition SetProxyPacketCommitment ::
  "('x, 'i) Keeper \<Rightarrow> prefix \<Rightarrow> string \<Rightarrow> string \<Rightarrow> string \<Rightarrow> u64 \<Rightarrow> bytes \<Rightarrow> ('i ctx, unit) prog" where
  "SetProxyPacketCommitment k upstreamPrefix upstreamClientID portID channelID seq commitmentBytes =
     (let store = ProxyStore (cdc k) upstreamPrefix upstreamClientID
      in mput (substore_set store (PacketCommitmentKey (cdc k) portID channelID seq) commitmentBytes))"

definition SetProxyPacketAcknowledgement ::
  "('x, 'i) Keeper \<Rightarrow> prefix \<Rightarrow> string \<Rightarrow> string \<Rightarrow> string \<Rightarrow> u64 \<Rightarrow> bytes \<Rightarrow> ('i ctx, unit) prog" where
  "SetProxyPacketAcknowledgement k upstreamPrefix upstreamClientID portID channelID seq acknowledgement =
     (let store = ProxyStore (cdc k) upstreamPrefix upstreamClientID
      in mput (substore_set store (PacketAcknowledgementKey (cdc k) portID channelID seq)
           (CommitAcknowledgement (cdc k) acknowledgement)))"

definition SetProxyPacketReceiptAbsence ::
  "('x, 'i) Keeper \<Rightarrow> prefix \<Rightarrow> string \<Rightarrow> string \<Rightarrow> string \<Rightarrow> u64 \<Rightarrow> ('i ctx, unit) prog" where
  "SetProxyPacketReceiptAbsence k upstreamPrefix upstreamClientID portID channelID seq =
     (let store = ProxyStore (cdc k) upstreamPrefix upstreamClientID
      in mput (substore_set store (PacketReceiptKey (cdc k) portID channelID seq) [1]))"

definition SetProxyNextSequenceRecv ::
  "('x, 'i) Keeper \<Rightarrow> prefix \<Rightarrow> string \<Rightarrow> string \<Rightarrow> string \<Rightarrow> u64 \<Rightarrow> ('i ctx, unit) prog" where
  "SetProxyNextSequenceRecv k upstreamPrefix upstreamClientID portID channelID nextSequenceRecv =
     (let store = ProxyStore (cdc k) upstreamPrefix upstreamClientID;
          bz = Uint64ToBigEndian (cdc k) nextSequenceRecv
      in mput (substore_set store (NextSequenceRecvKey (cdc k) portID channelID) bz))"

section \<open>The contract of a proxied object\<close>

text \<open>
  Objects are found by a reference \<open>'k\<close> and kept below \<open>path\<close>. A read leaves the context
  alone and depends only on the bytes at the path; a write changes the bytes at its path
  and nothing else, also when it panics; when \<open>good\<close> holds (the codec decodes what it
  encoded), a read after a write sees the written object.
\<close>

locale proxied_object =
  fixes get :: "'k \<Rightarrow> ('i ctx, 'a option) prog"
    and set :: "'k \<Rightarrow> 'a \<Rightarrow> ('i ctx, unit) prog"
    and path :: "'k \<Rightarrow> string"
    and good :: bool
  assumes get_state: "snd (get r c) = c"
    and get_local: "proxyStore c (path r) = proxyStore c' (path r) \<Longrightarrow> fst (get r c) = fst (get r c')"
    and set_world: "world (snd (set r x c)) = world c"
    and set_frame: "j \<noteq> path r \<Longrightarrow> proxyStore (snd (set r x c)) j = proxyStore c j"
    and get_set: "good \<Longrightarrow> set r x c = (Ok u, c') \<Longrightarrow> fst (get r c') = Ok (Some x)"
    and get_empty: "proxyStore c (path r) = None \<Longrightarrow> fst (get r c) = Ok None"
begin

lemma get_pure: "get r c = (fst (get r c), c)"
  using get_state [of r c] by (cases "get r c") simp

lemma get_set_same: "good \<Longrightarrow> set r x c = (Ok u, c') \<Longrightarrow> get r c' = (Ok (Some x), c')"
  using get_set get_pure by metis

lemma get_set_other: "path q \<noteq> path r \<Longrightarrow> fst (get q (snd (set r x c))) = fst (get q c)"
  by (rule get_local) (simp add: set_frame)

text \<open>What was written survives a state change that leaves its path alone.\<close>

lemma get_set_later:
  assumes "good" and "set r x c = (Ok u, c')" and "proxyStore c'' (path r) = proxyStore c' (path r)"
  shows "get r c'' = (Ok (Some x), c'')"
  using get_local [OF assms(3)] get_set [OF assms(1,2)] get_pure [of r c''] by simp

lemma get_Ok_cases:
  assumes "get r c = (Ok v, c')"
  shows "c' = c \<and> fst (get r c) = Ok v"
  using assms get_state [of r c] by simp

text \<open>A present object is backed by bytes at its path.\<close>

lemma get_Some_present: "fst (get r c) = Ok (Some x) \<Longrightarrow> proxyStore c (path r) \<noteq> None"
  using get_empty by fastforce

end

text \<open>The four typed objects are instances, at the paths of their slots.\<close>

definition connection_path :: "('x, 'i) Keeper \<Rightarrow> prefix \<Rightarrow> string \<Rightarrow> string \<Rightarrow> string" where
  "connection_path K p u i = ProxyStore (cdc K) p u @ ConnectionKey (cdc K) i"

definition channel_path :: "('x, 'i) Keeper \<Rightarrow> prefix \<Rightarrow> string \<Rightarrow> string \<times> string \<Rightarrow> string" where
  "channel_path K p u r = ProxyStore (cdc K) p u @ ChannelKey (cdc K) (fst r) (snd r)"

definition client_path :: "('x, 'i) Keeper \<Rightarrow> prefix \<Rightarrow> string \<Rightarrow> string \<Rightarrow> string" where
  "client_path K p u i = ProxyClientStore (cdc K) p u i @ ClientStateKey (cdc K)"

definition consensus_path :: "('x, 'i) Keeper \<Rightarrow> prefix \<Rightarrow> string \<Rightarrow> string \<times> Height \<Rightarrow> string" where
  "consensus_path K p u r = ProxyClientStore (cdc K) p u (fst r) @ ConsensusStateKey (cdc K) (snd r)"

lemma object_paths:
  assumes "ics24_paths (cdc K)"
  shows "connection_path K p u i = slot_path (cdc K) p u (ConnectionSlot i)"
    and "channel_path K p u (a, b) = slot_path (cdc K) p u (ChannelSlot a b)"
    and "client_path K p u i = slot_path (cdc K) p u (ClientStateSlot i)"
    and "consensus_path K p u (i, h) = slot_path (cdc K) p u (ConsensusStateSlot i h)"
  using store_paths [OF assms] store_paths(3) [OF assms, of p u "ConnectionSlot i"]
    store_paths(3) [OF assms, of p u "ChannelSlot a b"]
  by (simp_all add: connection_path_def channel_path_def client_path_def consensus_path_def)

lemma read_object_state [simp]: "snd (read_object s k d c) = c"
  by (cases "substore_get s k c") (auto simp: read_object_def mbind_apply split: outcome.splits)

lemma read_object_local:
  "proxyStore c (s @ k) = proxyStore c' (s @ k) \<Longrightarrow> fst (read_object s k d c) = fst (read_object s k d c')"
  by (cases "proxyStore c' (s @ k)")
    (auto simp: read_object_def substore_get_def mbind_apply split: outcome.splits)

lemma read_object_present:
  "proxyStore c (s @ k) = Some b \<Longrightarrow> b \<noteq> [] \<Longrightarrow> d b = Ok x \<Longrightarrow> read_object s k d c = (Ok (Some x), c)"
  by (simp add: read_object_def substore_get_def)

lemma read_object_absent: "proxyStore c (s @ k) = None \<Longrightarrow> read_object s k d c = (Ok None, c)"
  by (simp add: read_object_def substore_get_def)

interpretation conn_obj: proxied_object
  "GetProxyConnection K p u" "SetProxyConnection K p u" "connection_path K p u" "codec_ok (cdc K)"
  for K :: "('x, 'i) Keeper" and p u
  by unfold_locales
    (auto simp: GetProxyConnection_def SetProxyConnection_def connection_path_def Let_def codec_okD
      intro: read_object_local simp: read_object_present read_object_absent)

interpretation chan_obj: proxied_object
  "\<lambda>r. GetProxyChannel K p u (fst r) (snd r)" "\<lambda>r. SetProxyChannel K p u (fst r) (snd r)"
  "channel_path K p u" "codec_ok (cdc K)"
  for K :: "('x, 'i) Keeper" and p u
  by unfold_locales
    (auto simp: GetProxyChannel_def SetProxyChannel_def channel_path_def Let_def codec_okD
      intro: read_object_local simp: read_object_present read_object_absent)

interpretation client_obj: proxied_object
  "\<lambda>i. Keeper_GetProxyClientState K p i u" "\<lambda>i. SetProxyClientState K p i u"
  "client_path K p u" "codec_ok (cdc K)"
  for K :: "('x, 'i) Keeper" and p u
  by unfold_locales
    (auto simp: Keeper_GetProxyClientState_def SetProxyClientState_def client_path_def Let_def codec_okD
      mbind_apply outcome_simps intro: read_object_local simp: read_object_present read_object_absent split: outcome.splits)

interpretation cons_obj: proxied_object
  "\<lambda>r. GetProxyClientConsensusState K p (fst r) u (snd r)"
  "\<lambda>r. SetProxyClientConsensusState K p (fst r) u (snd r)"
  "consensus_path K p u" "codec_ok (cdc K)"
  for K :: "('x, 'i) Keeper" and p u
  by unfold_locales
    (auto simp: GetProxyClientConsensusState_def SetProxyClientConsensusState_def consensus_path_def Let_def
      codec_okD mbind_apply outcome_simps intro: read_object_local simp: read_object_present read_object_absent
      split: outcome.splits)

end
