(* ===== verification/Verify.thy ===== *)
theory Verify
  imports Commitment
begin

text \<open>
  \<open>modules/proxy/keeper/proxy.go\<close>: verify a statement about the upstream chain with the
  light client of that chain, then record it. The abstract specification is one operation
  \<open>proxy_fact\<close> on a statement (\<open>fact\<close>); the eight functions of the source
  are its instances, and a state change made of such operations only is a run of
  \<open>mirrors\<close>.
\<close>

section \<open>Calls on the client of the upstream chain\<close>

text \<open>\<open>k.clientKeeper.GetClientState\<close>, and a call with \<open>k.clientKeeper.ClientStore\<close>.\<close>

definition with_client_store ::
  "('x, 'i) Keeper \<Rightarrow> string \<Rightarrow> (kvstore, 'a) prog \<Rightarrow> ('i ctx, 'a) prog" where
  "with_client_store k clientID f =
     (\<lambda>c. case f (ClientStore (clientKeeper k) (world c) clientID) of
        (r, s') \<Rightarrow> (r, c\<lparr>world := PutClientStore (clientKeeper k) (world c) clientID s'\<rparr>))"

definition target_client ::
  "('x, 'i) Keeper \<Rightarrow> string \<Rightarrow> ('i ctx, 'x client_state) prog" where
  "target_client k upstreamClientID =
     mbind (mget (\<lambda>c. GetClientState (clientKeeper k) (world c) upstreamClientID)) (\<lambda>v.
     case v of
       None \<Rightarrow> mlift (Err (ErrClientNotFound upstreamClientID))
     | Some targetClient \<Rightarrow> mret targetClient)"

definition getBlockDelay :: "('x, 'i) Keeper \<Rightarrow> ConnectionEnd \<Rightarrow> u64" where
  "getBlockDelay k connection = 0"

section \<open>The operations\<close>

definition VerifyClientState ::
  "('x, 'i) Keeper \<Rightarrow> ('x, 'i) client_ops \<Rightarrow> string \<Rightarrow> prefix \<Rightarrow> string \<Rightarrow> Height \<Rightarrow> bytes \<Rightarrow> 'x client_state \<Rightarrow>
    ('i ctx, unit) prog" where
  "VerifyClientState k D upstreamClientID upstreamPrefix counterpartyClientID height proof clientState =
     mbind (target_client k upstreamClientID) (\<lambda>targetClient.
       with_client_store k upstreamClientID (op_VerifyClientState D targetClient height upstreamPrefix counterpartyClientID proof clientState))"

definition VerifyAndProxyClientState ::
  "('x, 'i) Keeper \<Rightarrow> ('x, 'i) client_ops \<Rightarrow> string \<Rightarrow> prefix \<Rightarrow> string \<Rightarrow> Height \<Rightarrow> bytes \<Rightarrow> 'x client_state \<Rightarrow>
    ('i ctx, unit) prog" where
  "VerifyAndProxyClientState k D upstreamClientID upstreamPrefix counterpartyClientID height proof clientState =
     mthen (VerifyClientState k D upstreamClientID upstreamPrefix counterpartyClientID height proof clientState)
       (SetProxyClientState k upstreamPrefix counterpartyClientID upstreamClientID clientState)"

definition VerifyClientConsensusState ::
  "('x, 'i) Keeper \<Rightarrow> ('x, 'i) client_ops \<Rightarrow> string \<Rightarrow> prefix \<Rightarrow> string \<Rightarrow> Height \<Rightarrow> Height \<Rightarrow> bytes \<Rightarrow> 'x consensus_state \<Rightarrow>
    ('i ctx, unit) prog" where
  "VerifyClientConsensusState k D upstreamClientID upstreamPrefix counterpartyClientID height consensusHeight proof consensusState =
     mbind (target_client k upstreamClientID) (\<lambda>targetClient.
       with_client_store k upstreamClientID (op_VerifyClientConsensusState D targetClient height counterpartyClientID consensusHeight
         upstreamPrefix proof consensusState))"

definition VerifyAndProxyClientConsensusState ::
  "('x, 'i) Keeper \<Rightarrow> ('x, 'i) client_ops \<Rightarrow> string \<Rightarrow> prefix \<Rightarrow> string \<Rightarrow> Height \<Rightarrow> Height \<Rightarrow> bytes \<Rightarrow> 'x consensus_state \<Rightarrow>
    ('i ctx, unit) prog" where
  "VerifyAndProxyClientConsensusState k D upstreamClientID upstreamPrefix counterpartyClientID height consensusHeight proof consensusState =
     mthen (VerifyClientConsensusState k D upstreamClientID upstreamPrefix counterpartyClientID height consensusHeight proof consensusState)
       (SetProxyClientConsensusState k upstreamPrefix counterpartyClientID upstreamClientID consensusHeight consensusState)"

definition VerifyConnectionState ::
  "('x, 'i) Keeper \<Rightarrow> ('x, 'i) client_ops \<Rightarrow> string \<Rightarrow> prefix \<Rightarrow> ConnectionEnd \<Rightarrow> Height \<Rightarrow> bytes \<Rightarrow> string \<Rightarrow>
    ('i ctx, unit) prog" where
  "VerifyConnectionState k D upstreamClientID upstreamPrefix connection height proof connectionID =
     mbind (target_client k upstreamClientID) (\<lambda>targetClient.
       with_client_store k upstreamClientID (op_VerifyConnectionState D targetClient height upstreamPrefix proof connectionID connection))"

definition VerifyAndProxyConnectionState ::
  "('x, 'i) Keeper \<Rightarrow> ('x, 'i) client_ops \<Rightarrow> string \<Rightarrow> prefix \<Rightarrow> ConnectionEnd \<Rightarrow> Height \<Rightarrow> bytes \<Rightarrow> string \<Rightarrow>
    ('i ctx, unit) prog" where
  "VerifyAndProxyConnectionState k D upstreamClientID upstreamPrefix connection height proof connectionID =
     mthen (VerifyConnectionState k D upstreamClientID upstreamPrefix connection height proof connectionID)
       (SetProxyConnection k upstreamPrefix upstreamClientID connectionID connection)"

definition VerifyChannelState ::
  "('x, 'i) Keeper \<Rightarrow> ('x, 'i) client_ops \<Rightarrow> string \<Rightarrow> prefix \<Rightarrow> Height \<Rightarrow> bytes \<Rightarrow> string \<Rightarrow> string \<Rightarrow> Channel \<Rightarrow>
    ('i ctx, unit) prog" where
  "VerifyChannelState k D upstreamClientID upstreamPrefix height proof portID channelID channel =
     mbind (target_client k upstreamClientID) (\<lambda>targetClient.
       with_client_store k upstreamClientID (op_VerifyChannelState D targetClient height upstreamPrefix proof portID channelID channel))"

definition VerifyAndProxyChannelState ::
  "('x, 'i) Keeper \<Rightarrow> ('x, 'i) client_ops \<Rightarrow> string \<Rightarrow> prefix \<Rightarrow> Height \<Rightarrow> bytes \<Rightarrow> string \<Rightarrow> string \<Rightarrow> Channel \<Rightarrow>
    ('i ctx, unit) prog" where
  "VerifyAndProxyChannelState k D upstreamClientID upstreamPrefix height proof portID channelID channel =
     mthen (VerifyChannelState k D upstreamClientID upstreamPrefix height proof portID channelID channel)
       (SetProxyChannel k upstreamPrefix upstreamClientID portID channelID channel)"

definition VerifyPacketCommitment ::
  "('x, 'i) Keeper \<Rightarrow> ('x, 'i) client_ops \<Rightarrow> string \<Rightarrow> prefix \<Rightarrow> ConnectionEnd \<Rightarrow> Height \<Rightarrow> bytes \<Rightarrow> string \<Rightarrow> string \<Rightarrow> u64 \<Rightarrow> bytes \<Rightarrow>
    ('i ctx, unit) prog" where
  "VerifyPacketCommitment k D upstreamClientID upstreamPrefix connection height proof portID channelID seq commitmentBytes =
     mbind (target_client k upstreamClientID) (\<lambda>targetClient.
     mbind (mget world) (\<lambda>w.
       with_client_store k upstreamClientID (op_VerifyPacketCommitment D targetClient w height (DelayPeriod connection)
         (getBlockDelay k connection) upstreamPrefix proof portID channelID seq commitmentBytes)))"

definition VerifyAndProxyPacketCommitment ::
  "('x, 'i) Keeper \<Rightarrow> ('x, 'i) client_ops \<Rightarrow> string \<Rightarrow> prefix \<Rightarrow> ConnectionEnd \<Rightarrow> Height \<Rightarrow> bytes \<Rightarrow> string \<Rightarrow> string \<Rightarrow> u64 \<Rightarrow> bytes \<Rightarrow>
    ('i ctx, unit) prog" where
  "VerifyAndProxyPacketCommitment k D upstreamClientID upstreamPrefix connection height proof portID channelID seq commitmentBytes =
     mthen (VerifyPacketCommitment k D upstreamClientID upstreamPrefix connection height proof portID channelID seq commitmentBytes)
       (SetProxyPacketCommitment k upstreamPrefix upstreamClientID portID channelID seq commitmentBytes)"

definition VerifyPacketAcknowledgement ::
  "('x, 'i) Keeper \<Rightarrow> ('x, 'i) client_ops \<Rightarrow> string \<Rightarrow> prefix \<Rightarrow> ConnectionEnd \<Rightarrow> Height \<Rightarrow> bytes \<Rightarrow> string \<Rightarrow> string \<Rightarrow> u64 \<Rightarrow> bytes \<Rightarrow>
    ('i ctx, unit) prog" where
  "VerifyPacketAcknowledgement k D upstreamClientID upstreamPrefix connection height proof portID channelID seq acknowledgement =
     mbind (target_client k upstreamClientID) (\<lambda>targetClient.
     mbind (mget world) (\<lambda>w.
       with_client_store k upstreamClientID (op_VerifyPacketAcknowledgement D targetClient w height (DelayPeriod connection)
         (getBlockDelay k connection) upstreamPrefix proof portID channelID seq acknowledgement)))"

definition VerifyAndProxyPacketAcknowledgement ::
  "('x, 'i) Keeper \<Rightarrow> ('x, 'i) client_ops \<Rightarrow> string \<Rightarrow> prefix \<Rightarrow> ConnectionEnd \<Rightarrow> Height \<Rightarrow> bytes \<Rightarrow> string \<Rightarrow> string \<Rightarrow> u64 \<Rightarrow> bytes \<Rightarrow>
    ('i ctx, unit) prog" where
  "VerifyAndProxyPacketAcknowledgement k D upstreamClientID upstreamPrefix connection height proof portID channelID seq acknowledgement =
     mthen (VerifyPacketAcknowledgement k D upstreamClientID upstreamPrefix connection height proof portID channelID seq acknowledgement)
       (SetProxyPacketAcknowledgement k upstreamPrefix upstreamClientID portID channelID seq acknowledgement)"

definition VerifyPacketReceiptAbsence ::
  "('x, 'i) Keeper \<Rightarrow> ('x, 'i) client_ops \<Rightarrow> string \<Rightarrow> prefix \<Rightarrow> ConnectionEnd \<Rightarrow> Height \<Rightarrow> bytes \<Rightarrow> string \<Rightarrow> string \<Rightarrow> u64 \<Rightarrow>
    ('i ctx, unit) prog" where
  "VerifyPacketReceiptAbsence k D upstreamClientID upstreamPrefix connection height proof portID channelID seq =
     mbind (target_client k upstreamClientID) (\<lambda>targetClient.
     mbind (mget world) (\<lambda>w.
       with_client_store k upstreamClientID (op_VerifyPacketReceiptAbsence D targetClient w height (DelayPeriod connection)
         (getBlockDelay k connection) upstreamPrefix proof portID channelID seq)))"

definition VerifyAndProxyPacketReceiptAbsence ::
  "('x, 'i) Keeper \<Rightarrow> ('x, 'i) client_ops \<Rightarrow> string \<Rightarrow> prefix \<Rightarrow> ConnectionEnd \<Rightarrow> Height \<Rightarrow> bytes \<Rightarrow> string \<Rightarrow> string \<Rightarrow> u64 \<Rightarrow>
    ('i ctx, unit) prog" where
  "VerifyAndProxyPacketReceiptAbsence k D upstreamClientID upstreamPrefix connection height proof portID channelID seq =
     mthen (VerifyPacketReceiptAbsence k D upstreamClientID upstreamPrefix connection height proof portID channelID seq)
       (SetProxyPacketReceiptAbsence k upstreamPrefix upstreamClientID portID channelID seq)"

definition VerifyNextSequenceRecv ::
  "('x, 'i) Keeper \<Rightarrow> ('x, 'i) client_ops \<Rightarrow> string \<Rightarrow> prefix \<Rightarrow> ConnectionEnd \<Rightarrow> Height \<Rightarrow> bytes \<Rightarrow> string \<Rightarrow> string \<Rightarrow> u64 \<Rightarrow>
    ('i ctx, unit) prog" where
  "VerifyNextSequenceRecv k D upstreamClientID upstreamPrefix connection height proof portID channelID nextSequenceRecv =
     mbind (target_client k upstreamClientID) (\<lambda>targetClient.
     mbind (mget world) (\<lambda>w.
       with_client_store k upstreamClientID (op_VerifyNextSequenceRecv D targetClient w height (DelayPeriod connection)
         (getBlockDelay k connection) upstreamPrefix proof portID channelID nextSequenceRecv)))"

definition VerifyAndProxyNextSequenceRecv ::
  "('x, 'i) Keeper \<Rightarrow> ('x, 'i) client_ops \<Rightarrow> string \<Rightarrow> prefix \<Rightarrow> ConnectionEnd \<Rightarrow> Height \<Rightarrow> bytes \<Rightarrow> string \<Rightarrow> string \<Rightarrow> u64 \<Rightarrow>
    ('i ctx, unit) prog" where
  "VerifyAndProxyNextSequenceRecv k D upstreamClientID upstreamPrefix connection height proof portID channelID nextSequenceRecv =
     mthen (VerifyNextSequenceRecv k D upstreamClientID upstreamPrefix connection height proof portID channelID nextSequenceRecv)
       (SetProxyNextSequenceRecv k upstreamPrefix upstreamClientID portID channelID nextSequenceRecv)"

section \<open>Statements about the upstream chain\<close>

datatype 'x fact =
    ClientStateFact string "'x client_state"
  | ConsensusStateFact string Height "'x consensus_state"
  | ConnectionFact string ConnectionEnd
  | ChannelFact string string Channel
  | PacketCommitmentFact string string u64 bytes
  | PacketAckFact string string u64 bytes
  | ReceiptAbsenceFact string string u64
  | NextSequenceRecvFact string string u64

text \<open>The slot a statement is about, the bytes recorded for it, the check it needs.\<close>

fun fact_slot :: "'x fact \<Rightarrow> slot" where
  "fact_slot (ClientStateFact i c) = ClientStateSlot i"
| "fact_slot (ConsensusStateFact i h c) = ConsensusStateSlot i h"
| "fact_slot (ConnectionFact i c) = ConnectionSlot i"
| "fact_slot (ChannelFact p c ch) = ChannelSlot p c"
| "fact_slot (PacketCommitmentFact p c n b) = PacketCommitmentSlot p c n"
| "fact_slot (PacketAckFact p c n a) = PacketAckSlot p c n"
| "fact_slot (ReceiptAbsenceFact p c n) = PacketReceiptSlot p c n"
| "fact_slot (NextSequenceRecvFact p c n) = NextSequenceRecvSlot p c"

fun fact_value :: "'x lib \<Rightarrow> 'x fact \<Rightarrow> bytes outcome" where
  "fact_value L (ClientStateFact i c) = MarshalClientState L c"
| "fact_value L (ConsensusStateFact i h c) = MarshalConsensusState L c"
| "fact_value L (ConnectionFact i c) = Ok (MarshalConnectionEnd L c)"
| "fact_value L (ChannelFact p c ch) = Ok (MarshalChannel L ch)"
| "fact_value L (PacketCommitmentFact p c n b) = Ok b"
| "fact_value L (PacketAckFact p c n a) = Ok (CommitAcknowledgement L a)"
| "fact_value L (ReceiptAbsenceFact p c n) = Ok [1]"
| "fact_value L (NextSequenceRecvFact p c n) = Ok (Uint64ToBigEndian L n)"

fun verify_fact ::
  "('x, 'i) client_ops \<Rightarrow> 'x client_state \<Rightarrow> 'i \<Rightarrow> Height \<Rightarrow> u64 \<Rightarrow> prefix \<Rightarrow> bytes \<Rightarrow> 'x fact \<Rightarrow>
    (kvstore, unit) prog" where
  "verify_fact D t w h d p pr (ClientStateFact i c) = op_VerifyClientState D t h p i pr c"
| "verify_fact D t w h d p pr (ConsensusStateFact i ch c) = op_VerifyClientConsensusState D t h i ch p pr c"
| "verify_fact D t w h d p pr (ConnectionFact i c) = op_VerifyConnectionState D t h p pr i c"
| "verify_fact D t w h d p pr (ChannelFact po c ch) = op_VerifyChannelState D t h p pr po c ch"
| "verify_fact D t w h d p pr (PacketCommitmentFact po c n b) = op_VerifyPacketCommitment D t w h d 0 p pr po c n b"
| "verify_fact D t w h d p pr (PacketAckFact po c n a) = op_VerifyPacketAcknowledgement D t w h d 0 p pr po c n a"
| "verify_fact D t w h d p pr (ReceiptAbsenceFact po c n) = op_VerifyPacketReceiptAbsence D t w h d 0 p pr po c n"
| "verify_fact D t w h d p pr (NextSequenceRecvFact po c n) = op_VerifyNextSequenceRecv D t w h d 0 p pr po c n"

definition check_fact ::
  "('x, 'i) Keeper \<Rightarrow> ('x, 'i) client_ops \<Rightarrow> string \<Rightarrow> prefix \<Rightarrow> u64 \<Rightarrow> Height \<Rightarrow> bytes \<Rightarrow> 'x fact \<Rightarrow>
    ('i ctx, unit) prog" where
  "check_fact k D u p d h pr f =
     mbind (target_client k u) (\<lambda>t. mbind (mget world) (\<lambda>w.
       with_client_store k u (verify_fact D t w h d p pr f)))"

definition record_fact :: "('x, 'i) Keeper \<Rightarrow> string \<Rightarrow> prefix \<Rightarrow> 'x fact \<Rightarrow> ('i ctx, unit) prog" where
  "record_fact k u p f =
     mbind (mlift (must (fact_value (cdc k) f))) (\<lambda>b.
       mput (\<lambda>c. ctx_put c (slot_path (cdc k) p u (fact_slot f)) b))"

definition proxy_fact ::
  "('x, 'i) Keeper \<Rightarrow> ('x, 'i) client_ops \<Rightarrow> string \<Rightarrow> prefix \<Rightarrow> u64 \<Rightarrow> Height \<Rightarrow> bytes \<Rightarrow> 'x fact \<Rightarrow>
    ('i ctx, unit) prog" where
  "proxy_fact k D u p d h pr f = mthen (check_fact k D u p d h pr f) (record_fact k u p f)"

named_theorems as_fact \<open>the keeper's operations as instances of the specification\<close>

lemma Verify_as_fact:
  "VerifyClientState k D u p i h pr c = check_fact k D u p 0 h pr (ClientStateFact i c)"
  "VerifyClientConsensusState k D u p i h ch pr s = check_fact k D u p 0 h pr (ConsensusStateFact i ch s)"
  "VerifyConnectionState k D u p cn h pr j = check_fact k D u p 0 h pr (ConnectionFact j cn)"
  "VerifyChannelState k D u p h pr po cc chn = check_fact k D u p 0 h pr (ChannelFact po cc chn)"
  "VerifyPacketCommitment k D u p cn h pr po cc n b =
    check_fact k D u p (DelayPeriod cn) h pr (PacketCommitmentFact po cc n b)"
  "VerifyPacketAcknowledgement k D u p cn h pr po cc n a =
    check_fact k D u p (DelayPeriod cn) h pr (PacketAckFact po cc n a)"
  "VerifyPacketReceiptAbsence k D u p cn h pr po cc n =
    check_fact k D u p (DelayPeriod cn) h pr (ReceiptAbsenceFact po cc n)"
  "VerifyNextSequenceRecv k D u p cn h pr po cc n =
    check_fact k D u p (DelayPeriod cn) h pr (NextSequenceRecvFact po cc n)"
  by (simp_all add: fun_eq_iff check_fact_def VerifyClientState_def VerifyClientConsensusState_def
      VerifyConnectionState_def VerifyChannelState_def VerifyPacketCommitment_def
      VerifyPacketAcknowledgement_def VerifyPacketReceiptAbsence_def VerifyNextSequenceRecv_def
      getBlockDelay_def mbind_def split: prod.splits outcome.splits)

lemma mput_substore: "mput (substore_set s k b) = mput (\<lambda>c. ctx_put c (s @ k) b)"
  by (simp add: substore_via_ctx fun_eq_iff)

lemma slot_paths:
  shows "ProxyStore L p u @ ConnectionKey L j = slot_path L p u (ConnectionSlot j)"
    and "ProxyStore L p u @ ChannelKey L po cc = slot_path L p u (ChannelSlot po cc)"
    and "ProxyStore L p u @ PacketCommitmentKey L po cc n = slot_path L p u (PacketCommitmentSlot po cc n)"
    and "ProxyStore L p u @ PacketAcknowledgementKey L po cc n = slot_path L p u (PacketAckSlot po cc n)"
    and "ProxyStore L p u @ PacketReceiptKey L po cc n = slot_path L p u (PacketReceiptSlot po cc n)"
    and "ProxyStore L p u @ NextSequenceRecvKey L po cc = slot_path L p u (NextSequenceRecvSlot po cc)"
  by (simp_all add: slot_path_def ProxyKey_def ProxyStore_def)

lemma Set_as_fact:
  assumes "ics24_paths (cdc k)"
  shows "SetProxyClientState k p i u c = record_fact k u p (ClientStateFact i c)"
    and "SetProxyClientConsensusState k p i u ch s = record_fact k u p (ConsensusStateFact i ch s)"
    and "SetProxyConnection k p u j cn = record_fact k u p (ConnectionFact j cn)"
    and "SetProxyChannel k p u po cc chn = record_fact k u p (ChannelFact po cc chn)"
    and "SetProxyPacketCommitment k p u po cc n b = record_fact k u p (PacketCommitmentFact po cc n b)"
    and "SetProxyPacketAcknowledgement k p u po cc n a = record_fact k u p (PacketAckFact po cc n a)"
    and "SetProxyPacketReceiptAbsence k p u po cc n = record_fact k u p (ReceiptAbsenceFact po cc n)"
    and "SetProxyNextSequenceRecv k p u po cc n = record_fact k u p (NextSequenceRecvFact po cc n)"
  by (simp_all add: record_fact_def SetProxyClientState_def SetProxyClientConsensusState_def
      SetProxyConnection_def SetProxyChannel_def SetProxyPacketCommitment_def
      SetProxyPacketAcknowledgement_def SetProxyPacketReceiptAbsence_def SetProxyNextSequenceRecv_def
      Let_def fun_eq_iff mput_substore store_paths(1,2) [OF assms] slot_paths)

lemma VerifyAndProxy_as_fact [as_fact]:
  assumes "ics24_paths (cdc k)"
  shows "VerifyAndProxyClientState k D u p i h pr c = proxy_fact k D u p 0 h pr (ClientStateFact i c)"
    and "VerifyAndProxyClientConsensusState k D u p i h ch pr s =
      proxy_fact k D u p 0 h pr (ConsensusStateFact i ch s)"
    and "VerifyAndProxyConnectionState k D u p cn h pr j = proxy_fact k D u p 0 h pr (ConnectionFact j cn)"
    and "VerifyAndProxyChannelState k D u p h pr po cc chn = proxy_fact k D u p 0 h pr (ChannelFact po cc chn)"
    and "VerifyAndProxyPacketCommitment k D u p cn h pr po cc n b =
      proxy_fact k D u p (DelayPeriod cn) h pr (PacketCommitmentFact po cc n b)"
    and "VerifyAndProxyPacketAcknowledgement k D u p cn h pr po cc n a =
      proxy_fact k D u p (DelayPeriod cn) h pr (PacketAckFact po cc n a)"
    and "VerifyAndProxyPacketReceiptAbsence k D u p cn h pr po cc n =
      proxy_fact k D u p (DelayPeriod cn) h pr (ReceiptAbsenceFact po cc n)"
    and "VerifyAndProxyNextSequenceRecv k D u p cn h pr po cc n =
      proxy_fact k D u p (DelayPeriod cn) h pr (NextSequenceRecvFact po cc n)"
  by (simp_all add: proxy_fact_def VerifyAndProxyClientState_def VerifyAndProxyClientConsensusState_def
      VerifyAndProxyConnectionState_def VerifyAndProxyChannelState_def VerifyAndProxyPacketCommitment_def
      VerifyAndProxyPacketAcknowledgement_def VerifyAndProxyPacketReceiptAbsence_def
      VerifyAndProxyNextSequenceRecv_def Verify_as_fact Set_as_fact [OF assms])

section \<open>What one recorded statement does to the store\<close>

text \<open>
  \<open>upstream_verifies K D c u p f\<close>: in context \<open>c\<close>, the light client that the proxy
  keeps for the upstream chain \<open>u\<close> accepts some proof of the statement \<open>f\<close> below prefix \<open>p\<close>.
\<close>

definition upstream_verifies ::
  "('x, 'i) Keeper \<Rightarrow> ('x, 'i) client_ops \<Rightarrow> 'i ctx \<Rightarrow> string \<Rightarrow> prefix \<Rightarrow> 'x fact \<Rightarrow> bool" where
  "upstream_verifies K D c u p f \<longleftrightarrow>
     (\<exists>t h d pr. GetClientState (clientKeeper K) (world c) u = Some t \<and>
        fst (verify_fact D t (world c) h d p pr f (ClientStore (clientKeeper K) (world c) u)) = Ok ())"

lemma with_client_store_frame [simp]: "proxyStore (snd (with_client_store K u f c)) = proxyStore c"
  by (simp add: with_client_store_def case_prod_beta)

lemma with_client_store_fst [simp]:
  "fst (with_client_store K u f c) = fst (f (ClientStore (clientKeeper K) (world c) u))"
  by (simp add: with_client_store_def case_prod_beta)

lemma target_client_apply:
  "target_client K u c = (case GetClientState (clientKeeper K) (world c) u of
     None \<Rightarrow> (Err (ErrClientNotFound u), c) | Some t \<Rightarrow> (Ok t, c))"
  by (simp add: target_client_def split: option.splits)

lemma check_fact_apply:
  "check_fact K D u p d h pr f c = (case GetClientState (clientKeeper K) (world c) u of
     None \<Rightarrow> (Err (ErrClientNotFound u), c)
   | Some t \<Rightarrow> with_client_store K u (verify_fact D t (world c) h d p pr f) c)"
  by (simp add: check_fact_def mbind_apply [of "target_client K u"] target_client_apply split: option.splits)

lemma check_fact_frame [simp]: "proxyStore (snd (check_fact K D u p d h pr f c)) = proxyStore c"
  by (simp add: check_fact_apply split: option.splits)

lemma check_fact_sound:
  "check_fact K D u p d h pr f c = (Ok x, c') \<Longrightarrow> upstream_verifies K D c u p f"
proof -
  assume ok: "check_fact K D u p d h pr f c = (Ok x, c')"
  then obtain t where t: "GetClientState (clientKeeper K) (world c) u = Some t"
    by (auto simp: check_fact_apply split: option.splits)
  have "fst (check_fact K D u p d h pr f c) = Ok ()" using ok by simp
  with t show ?thesis unfolding upstream_verifies_def by (auto simp: check_fact_apply)
qed

text \<open>
  Either the call failed and left the module's store alone, or the statement was verified
  and exactly its slot was set to its value.
\<close>

lemma proxy_fact_cases:
  fixes K :: "('x, 'i) Keeper"
  assumes "proxy_fact K D u p d h pr f c = (r, c')"
  obtains (failed) "r \<noteq> Ok ()" and "proxyStore c' = proxyStore c"
    | (recorded) b where "r = Ok ()" and "upstream_verifies K D c u p f" and "fact_value (cdc K) f = Ok b"
        and "proxyStore c' = (proxyStore c)(slot_path (cdc K) p u (fact_slot f) \<mapsto> b)"
proof (cases "check_fact K D u p d h pr f c")
  case (Pair q c1)
  have st: "proxyStore c1 = proxyStore c"
    using check_fact_frame [of K D u p d h pr f c] Pair by simp
  show ?thesis
  proof (cases q)
    case (Ok x)
    then have v: "upstream_verifies K D c u p f" using check_fact_sound Pair by blast
    show ?thesis
    proof (cases "fact_value (cdc K) f")
      case (Ok b)
      with assms Pair \<open>q = Ok x\<close> st v show ?thesis
        by (intro recorded [of b]) (auto simp: proxy_fact_def record_fact_def mbind_step ctx_put_def)
    qed (use assms Pair \<open>q = Ok x\<close> st failed in \<open>auto simp: proxy_fact_def record_fact_def mbind_step\<close>)
  qed (use assms Pair st failed in \<open>auto simp: proxy_fact_def mbind_def\<close>)
qed

lemma proxy_fact_Ok_iff:
  "proxy_fact K D u p d h pr f c = (Ok (), c') \<longleftrightarrow>
     (\<exists>c1 b. check_fact K D u p d h pr f c = (Ok (), c1) \<and> fact_value (cdc K) f = Ok b \<and>
        c' = ctx_put c1 (slot_path (cdc K) p u (fact_slot f)) b)"
  by (auto simp: proxy_fact_def record_fact_def outcome_simps)

section \<open>Mirroring\<close>

text \<open>
  The abstract specification of a handler: all it does to the state is a sequence of
  verify-and-record operations, each with an upstream client, a prefix, a proof height and a
  proof that \<open>Q\<close> admits. A light client's store changes by its own verification, the
  module's store by recording what was verified, and nothing else moves.
\<close>

inductive mirror_step ::
  "('x, 'i) Keeper \<Rightarrow> ('x, 'i) client_ops \<Rightarrow> (string \<Rightarrow> prefix \<Rightarrow> Height \<Rightarrow> bytes \<Rightarrow> bool) \<Rightarrow>
    'i ctx \<Rightarrow> 'i ctx \<Rightarrow> bool" for K D Q where
  proxied: "Q u p h pr \<Longrightarrow> proxy_fact K D u p d h pr f c = (r, c') \<Longrightarrow> mirror_step K D Q c c'"

inductive_cases mirror_stepE: "mirror_step K D Q c c'"

abbreviation mirrors ::
  "('x, 'i) Keeper \<Rightarrow> ('x, 'i) client_ops \<Rightarrow> (string \<Rightarrow> prefix \<Rightarrow> Height \<Rightarrow> bytes \<Rightarrow> bool) \<Rightarrow>
    'i ctx \<Rightarrow> 'i ctx \<Rightarrow> bool" where
  "mirrors K D Q \<equiv> (mirror_step K D Q)\<^sup>*\<^sup>*"

interpretation mirror: state_frame "mirrors K D Q" for K :: "('x, 'i) Keeper" and D Q
  by unfold_locales auto

lemma mirrors_proxy_fact: "Q u p h pr \<Longrightarrow> keeps (mirrors K D Q) (proxy_fact K D u p d h pr f)"
  by (rule keepsI, rule r_into_rtranclp, erule proxied) (rule prod.collapse [symmetric])

lemmas mirrors_reads =
  mirror.keeps_pure [OF conn_obj.get_state]
  mirror.keeps_pure [OF chan_obj.get_state [where r = "(p, c)" for p c, simplified]]

text \<open>
  \<open>records K D Q c c' u p f\<close>: on the way from \<open>c\<close> to \<open>c'\<close>, in the very context reached there, the
  upstream client \<open>u\<close> was asked about the statement \<open>f\<close> with an admitted proof, accepted it,
  and its value was put at its path.
\<close>

definition records ::
  "('x, 'i) Keeper \<Rightarrow> ('x, 'i) client_ops \<Rightarrow> (string \<Rightarrow> prefix \<Rightarrow> Height \<Rightarrow> bytes \<Rightarrow> bool) \<Rightarrow>
    'i ctx \<Rightarrow> 'i ctx \<Rightarrow> string \<Rightarrow> prefix \<Rightarrow> 'x fact \<Rightarrow> bool" where
  "records K D Q c c' u p f \<longleftrightarrow>
     (\<exists>c1 c2 d h pr b. mirrors K D Q c c1 \<and> Q u p h pr \<and>
        check_fact K D u p d h pr f c1 = (Ok (), c2) \<and> fact_value (cdc K) f = Ok b \<and>
        mirrors K D Q (ctx_put c2 (slot_path (cdc K) p u (fact_slot f)) b) c')"

text \<open>An entry that appeared or changed on the way was recorded on the way.\<close>

lemma mirrors_entry:
  assumes run: "mirrors K D Q c c'" and "proxyStore c' key = Some b" and "proxyStore c key \<noteq> Some b"
  shows "\<exists>u p f. records K D Q c c' u p f \<and> key = slot_path (cdc K) p u (fact_slot f) \<and>
    fact_value (cdc K) f = Ok b"
proof -
  obtain x y where x: "mirrors K D Q c x" and step: "mirror_step K D Q x y"
    and new: "proxyStore x key \<noteq> Some b" "proxyStore y key = Some b" and y: "mirrors K D Q y c'"
    using rtranclp_crossing [OF run, of "\<lambda>s. proxyStore s key = Some b"] assms(2,3) by blast
  from step obtain u p d h pr f r where Q: "Q u p h pr" and pf: "proxy_fact K D u p d h pr f x = (r, y)"
    by (rule mirror_stepE)
  from pf obtain v where r: "r = Ok ()" and v: "fact_value (cdc K) f = Ok v"
    and st: "proxyStore y = (proxyStore x)(slot_path (cdc K) p u (fact_slot f) \<mapsto> v)"
    by (cases rule: proxy_fact_cases) (use new in auto)
  have key: "key = slot_path (cdc K) p u (fact_slot f)" "v = b"
    using st new by (auto split: if_splits)
  obtain x' where "check_fact K D u p d h pr f x = (Ok (), x')" and "y = ctx_put x' key b"
    using pf r v key by (auto simp: proxy_fact_Ok_iff)
  with x y Q v key show ?thesis unfolding records_def by blast
qed

end
