(* ===== verification/Connection.thy ===== *)
theory Connection
  imports Verify
begin

text \<open>
  \<open>modules/proxy/keeper/connection.go\<close>: the connection handshake as the proxy sees it. A
  connection end of the upstream chain is first recorded in state INIT or TRYOPEN, together
  with the client and consensus state that upstream keeps for downstream, and later opened.
\<close>

section \<open>Arguments about the proxy itself\<close>

definition validateSelfClient ::
  "('x, 'i) Keeper \<Rightarrow> 'i \<Rightarrow> ProxyClientState \<Rightarrow> unit outcome" where
  "validateSelfClient k w clientState =
     obind (Prefix_Bytes (cdc k) (prefix_ptr (IbcPrefix clientState))) (\<lambda>ibc.
     if PrefixBytes (cdc k) (MerklePfx (GetIBCCommitmentPrefix k)) \<noteq> ibc
     then Err (Errorf ''IBC commitment prefix mismatch: %X != %X'')
     else
     obind (Prefix_Bytes (cdc k) (prefix_ptr (ProxyPrefix clientState))) (\<lambda>prx.
     if PrefixBytes (cdc k) (MerklePfx (GetProxyCommitmentPrefix k)) \<noteq> prx
     then Err (Errorf ''Proxy commitment prefix mismatch: %X != %X'')
     else
     obind (GetProxyClientState (cdc k) clientState) (\<lambda>inner.
     ValidateSelfClient (clientKeeper k) w inner)))"

definition getSelfConsensusState ::
  "('x, 'i) Keeper \<Rightarrow> 'i \<Rightarrow> Height \<Rightarrow> ProxyConsensusState outcome" where
  "getSelfConsensusState k w consensusHeight =
     (case GetSelfConsensusState (clientKeeper k) w consensusHeight of
        None \<Rightarrow> Err (Errorf ''self consensus state not found: height=%v'')
      | Some selfConsensusState \<Rightarrow>
          obind (PackConsensusState (cdc k) (Some selfConsensusState)) (\<lambda>anyConsensusState.
          Ok (NewConsensusState (Some anyConsensusState))))"

definition produceVerificationArgs ::
  "('x, 'i) Keeper \<Rightarrow> ('x, 'i) client_ops \<Rightarrow> 'i \<Rightarrow> 'x client_state \<Rightarrow> Height \<Rightarrow>
    (ProxyClientState \<times> ProxyConsensusState \<times> string) outcome" where
  "produceVerificationArgs k D w proxyClientState proxyConsensusHeight =
     (case proxyClientState of
        ProxyClient clientState \<Rightarrow>
          obind (validateSelfClient k w clientState) (\<lambda>_.
          obind (getSelfConsensusState k w proxyConsensusHeight) (\<lambda>consensusState.
          Ok (clientState, consensusState, UpstreamClientId clientState)))
      | _ \<Rightarrow>
          obind (op_ClientType D proxyClientState) (\<lambda>_. Err (Errorf ''invalid client type ''))) "

definition Keeper_makeMemStore :: "'x lib \<Rightarrow> 'x consensus_state \<Rightarrow> Height \<Rightarrow> kvstore outcome" where
  "Keeper_makeMemStore L consensusState proofHeight =
     obind (must (MarshalConsensusState L consensusState)) (\<lambda>consensusStateBytes.
     Ok (store_Set (MapStore Map.empty) (ConsensusStateKey L proofHeight) consensusStateBytes))"

text \<open>
  The middle part of \<open>ConnOpenTry\<close> and \<open>ConnOpenAck\<close>: a multi-stage client of downstream
  is replaced by the client it wraps, and the proofs that downstream tracks the proxy are
  checked against the downstream consensus state in a fresh store.
\<close>

definition verifyDownstream ::
  "('x, 'i) Keeper \<Rightarrow> ('x, 'i) client_ops \<Rightarrow> ConnCounterparty \<Rightarrow> 'x client_state \<Rightarrow> 'x consensus_state \<Rightarrow>
    ProxyClientState \<Rightarrow> ProxyConsensusState \<Rightarrow> bytes \<Rightarrow> bytes \<Rightarrow> Height \<Rightarrow> Height \<Rightarrow> unit outcome" where
  "verifyDownstream k D counterparty downstreamClientState downstreamConsensusState
     proxyClientState proxyConsensusState proofProxyClient proofProxyConsensus proofProxyHeight
     proxyConsensusHeight =
     obind (case downstreamClientState of
              MultivClient dcs \<Rightarrow> GetUnderlyingClientState (cdc k) dcs
            | _ \<Rightarrow> Ok downstreamClientState) (\<lambda>downstreamClientState.
     obind (Keeper_makeMemStore (cdc k) downstreamConsensusState proofProxyHeight) (\<lambda>store.
     on_store store (mthen
       (op_VerifyClientState D downstreamClientState proofProxyHeight (MerklePfx (CpPrefix counterparty))
          (CpClientId counterparty) proofProxyClient (ProxyClient proxyClientState))
       (op_VerifyClientConsensusState D downstreamClientState proofProxyHeight (CpClientId counterparty)
          proxyConsensusHeight (MerklePfx (CpPrefix counterparty)) proofProxyConsensus
          (ProxyConsensus proxyConsensusState)))))"

section \<open>The handlers\<close>

definition ConnOpenTry ::
  "('x, 'i) Keeper \<Rightarrow> ('x, 'i) client_ops \<Rightarrow> string \<Rightarrow> prefix \<Rightarrow> ConnectionEnd \<Rightarrow>
    'x client_state \<Rightarrow> 'x consensus_state \<Rightarrow> 'x client_state \<Rightarrow>
    bytes \<Rightarrow> bytes \<Rightarrow> bytes \<Rightarrow> Height \<Rightarrow> Height \<Rightarrow>
    bytes \<Rightarrow> bytes \<Rightarrow> Height \<Rightarrow> Height \<Rightarrow> ('i ctx, unit) prog" where
  "ConnOpenTry k D connectionID upstreamPrefix connection
     downstreamClientState downstreamConsensusState proxyClientState
     proofInit proofClient proofConsensus proofHeight consensusHeight
     proofProxyClient proofProxyConsensus proofProxyHeight proxyConsensusHeight =
     mbind (mget world) (\<lambda>w.
     mbind (mlift (produceVerificationArgs k D w proxyClientState proxyConsensusHeight))
       (\<lambda>(proxyClientState, proxyConsensusState, upstreamClientID).
     mbind (GetProxyConnection k upstreamPrefix upstreamClientID connectionID) (\<lambda>found.
     if found \<noteq> None then mlift (Err (Errorf ''connection already exists''))
     else if ConnState connection \<noteq> CONN_INIT then mlift (Err (Errorf ''connection state must be %s''))
     else
     mthen (VerifyAndProxyClientState k D upstreamClientID upstreamPrefix (ClientId connection) proofHeight
              proofClient downstreamClientState)
     (mthen (VerifyAndProxyClientConsensusState k D upstreamClientID upstreamPrefix (ClientId connection)
              proofHeight consensusHeight proofConsensus downstreamConsensusState)
     (mthen (mlift (verifyDownstream k D (ConnCp connection) downstreamClientState downstreamConsensusState
              proxyClientState proxyConsensusState proofProxyClient proofProxyConsensus proofProxyHeight
              proxyConsensusHeight))
     (VerifyAndProxyConnectionState k D upstreamClientID upstreamPrefix connection proofHeight proofInit
        connectionID))))))"

definition ConnOpenAck ::
  "('x, 'i) Keeper \<Rightarrow> ('x, 'i) client_ops \<Rightarrow> string \<Rightarrow> prefix \<Rightarrow> ConnectionEnd \<Rightarrow>
    'x client_state \<Rightarrow> 'x consensus_state \<Rightarrow> 'x client_state \<Rightarrow>
    bytes \<Rightarrow> bytes \<Rightarrow> bytes \<Rightarrow> Height \<Rightarrow> Height \<Rightarrow>
    bytes \<Rightarrow> bytes \<Rightarrow> Height \<Rightarrow> Height \<Rightarrow> ('i ctx, unit) prog" where
  "ConnOpenAck k D connectionID upstreamPrefix connectionEnd
     downstreamClientState downstreamConsensusState proxyClientState
     proofTry proofClient proofConsensus proofHeight consensusHeight
     proofProxyClient proofProxyConsensus proofProxyHeight proxyConsensusHeight =
     mbind (mget world) (\<lambda>w.
     mbind (mlift (produceVerificationArgs k D w proxyClientState proxyConsensusHeight))
       (\<lambda>(proxyClientState, proxyConsensusState, upstreamClientID).
     mbind (GetProxyConnection k upstreamPrefix upstreamClientID connectionID) (\<lambda>found.
     if found \<noteq> None then mlift (Err (Errorf ''connection already exists''))
     else if ConnState connectionEnd \<noteq> CONN_TRYOPEN then mlift (Err ErrInvalidConnectionState)
     else
     mthen (VerifyAndProxyClientState k D upstreamClientID upstreamPrefix (ClientId connectionEnd) proofHeight
              proofClient downstreamClientState)
     (mthen (VerifyAndProxyClientConsensusState k D upstreamClientID upstreamPrefix (ClientId connectionEnd)
              proofHeight consensusHeight proofConsensus downstreamConsensusState)
     (mthen (mlift (verifyDownstream k D (ConnCp connectionEnd) downstreamClientState downstreamConsensusState
              proxyClientState proxyConsensusState proofProxyClient proofProxyConsensus proofProxyHeight
              proxyConsensusHeight))
     (VerifyAndProxyConnectionState k D upstreamClientID upstreamPrefix connectionEnd proofHeight proofTry
        connectionID))))))"

definition ConnOpenConfirm ::
  "('x, 'i) Keeper \<Rightarrow> ('x, 'i) client_ops \<Rightarrow> string \<Rightarrow> string \<Rightarrow> prefix \<Rightarrow> string \<Rightarrow> bytes \<Rightarrow> Height \<Rightarrow>
    ('i ctx, unit) prog" where
  "ConnOpenConfirm k D connectionID upstreamClientID upstreamPrefix counterpartyConnectionID proofAck proofHeight =
     mbind (GetProxyConnection k upstreamPrefix upstreamClientID connectionID) (\<lambda>v.
     case v of
       None \<Rightarrow> mlift (Err ErrConnectionNotFound)
     | Some connectionEnd \<Rightarrow>
         if ConnState connectionEnd \<noteq> CONN_INIT then mlift (Err ErrInvalidConnectionState)
         else
         VerifyAndProxyConnectionState k D upstreamClientID upstreamPrefix
           (connectionEnd\<lparr>ConnState := CONN_OPEN,
              ConnCp := (ConnCp connectionEnd)\<lparr>CpConnectionId := counterpartyConnectionID\<rparr>\<rparr>)
           proofHeight proofAck connectionID)"

definition ConnOpenFinalize ::
  "('x, 'i) Keeper \<Rightarrow> ('x, 'i) client_ops \<Rightarrow> string \<Rightarrow> string \<Rightarrow> prefix \<Rightarrow> bytes \<Rightarrow> Height \<Rightarrow>
    ('i ctx, unit) prog" where
  "ConnOpenFinalize k D connectionID upstreamClientID upstreamPrefix proofConfirm proofHeight =
     mbind (GetProxyConnection k upstreamPrefix upstreamClientID connectionID) (\<lambda>v.
     case v of
       None \<Rightarrow> mlift (Err ErrConnectionNotFound)
     | Some connectionEnd \<Rightarrow>
         if ConnState connectionEnd \<noteq> CONN_TRYOPEN then mlift (Err ErrInvalidConnectionState)
         else
         VerifyAndProxyConnectionState k D upstreamClientID upstreamPrefix
           (connectionEnd\<lparr>ConnState := CONN_OPEN\<rparr>) proofHeight proofConfirm connectionID)"

section \<open>The handlers only mirror verified statements\<close>

lemma GetProxyConnection_state [simp]: "snd (GetProxyConnection k p u i c) = c"
  by (rule conn_obj.get_state)

lemma produceVerificationArgs_Ok:
  "produceVerificationArgs K D w pc h = Ok (pcs, pk, u) \<longleftrightarrow>
     pc = ProxyClient pcs \<and> u = UpstreamClientId pcs \<and> validateSelfClient K w pcs = Ok () \<and>
     getSelfConsensusState K w h = Ok pk"
  by (auto simp: produceVerificationArgs_def outcome_simps split: client_state.splits)

lemma mirrors_ConnOpen:
  assumes "ics24_paths (cdc k)"
    and Q: "\<And>pcs b. pc = ProxyClient pcs \<Longrightarrow> b \<in> {b1, b2, b3} \<Longrightarrow> Q (UpstreamClientId pcs) p h1 b"
  shows "keeps (mirrors k D Q) (ConnOpenTry k D i p cn dc dk pc b1 b2 b3 h1 h2 b4 b5 h3 h4)"
    and "keeps (mirrors k D Q) (ConnOpenAck k D i p cn dc dk pc b1 b2 b3 h1 h2 b4 b5 h3 h4)"
  unfolding ConnOpenTry_def ConnOpenAck_def as_fact [OF assms(1)]
  by (intro mirror.keeps_rules mirrors_proxy_fact mirrors_reads; auto simp: produceVerificationArgs_Ok intro!: Q)+

lemma mirrors_ConnOpened:
  assumes "ics24_paths (cdc k)" and Q: "Q u p h1 b1"
  shows "keeps (mirrors k D Q) (ConnOpenConfirm k D i u p j b1 h1)"
    and "keeps (mirrors k D Q) (ConnOpenFinalize k D i u p b1 h1)"
  unfolding ConnOpenConfirm_def ConnOpenFinalize_def as_fact [OF assms(1)]
  by (intro mirror.keeps_rules mirrors_proxy_fact Q mirrors_reads)+

section \<open>How recorded connections change\<close>

text \<open>
  An upstream chain and prefix whose names contain no slash. Client identifiers on the proxy
  never do (ICS-24); the prefix is taken from the message.
\<close>

definition root_ok :: "('x, 'i) Keeper \<Rightarrow> prefix \<Rightarrow> string \<Rightarrow> bool" where
  "root_ok K p u \<longleftrightarrow> no_slash u \<and> no_slash (PrefixBytes (cdc K) p)"

definition conn_of :: "('x, 'i) Keeper \<Rightarrow> 'i ctx \<Rightarrow> prefix \<Rightarrow> string \<Rightarrow> string \<Rightarrow> ConnectionEnd option outcome" where
  "conn_of K c p u i = fst (GetProxyConnection K p u i c)"

text \<open>A connection end is only ever opened; once open it is fixed.\<close>

definition opened :: "ConnectionEnd \<Rightarrow> ConnectionEnd \<Rightarrow> bool" where
  "opened a b \<longleftrightarrow> ConnState b = CONN_OPEN \<and>
     (ConnState a = CONN_TRYOPEN \<and> b = a\<lparr>ConnState := CONN_OPEN\<rparr> \<or>
      ConnState a = CONN_INIT \<and>
        (\<exists>j. b = a\<lparr>ConnState := CONN_OPEN, ConnCp := (ConnCp a)\<lparr>CpConnectionId := j\<rparr>\<rparr>))"

definition conn_le :: "('x, 'i) Keeper \<Rightarrow> 'i ctx \<Rightarrow> 'i ctx \<Rightarrow> bool" where
  "conn_le K c c' \<longleftrightarrow>
     (\<forall>p u i a. root_ok K p u \<longrightarrow> conn_of K c p u i = Ok (Some a) \<longrightarrow>
        (\<exists>b. conn_of K c' p u i = Ok (Some b) \<and> (b = a \<or> opened a b)))"

definition conn_same :: "('x, 'i) Keeper \<Rightarrow> 'i ctx \<Rightarrow> 'i ctx \<Rightarrow> bool" where
  "conn_same K c c' \<longleftrightarrow> (\<forall>p u i. root_ok K p u \<longrightarrow> conn_of K c' p u i = conn_of K c p u i)"

lemma opened_final: "opened a b \<Longrightarrow> \<not> opened b d"
  by (auto simp: opened_def)

interpretation conn_frame: state_frame "conn_le K" for K :: "('x, 'i) Keeper"
proof
  fix s t u :: "'i ctx"
  assume "conn_le K s t" and "conn_le K t u"
  then show "conn_le K s u"
    unfolding conn_le_def using opened_final by blast
qed (auto simp: conn_le_def)

interpretation conn_still: state_frame "conn_same K" for K :: "('x, 'i) Keeper"
  by unfold_locales (simp_all add: conn_same_def)

lemma conn_same_le: "conn_same K c c' \<Longrightarrow> conn_le K c c'"
  by (simp add: conn_same_def conn_le_def)

lemma conn_of_local:
  "proxyStore c' (connection_path K p u i) = proxyStore c (connection_path K p u i) \<Longrightarrow>
    conn_of K c' p u i = conn_of K c p u i"
  unfolding conn_of_def by (rule conn_obj.get_local) simp

lemma conn_of_run: "GetProxyConnection K p u i c = (conn_of K c p u i, c)"
  unfolding conn_of_def by (rule conn_obj.get_pure)

lemma verified_client: "upstream_verifies K D c u p f \<Longrightarrow> client_ids_ok (clientKeeper K) \<Longrightarrow> no_slash u"
  by (auto simp: upstream_verifies_def client_ids_ok_def)

lemma connection_path_other:
  assumes "ics24_paths (cdc K)" and "root_ok K p u" and "root_ok K q v" and "slot_kind x \<noteq> ''connections''"
  shows "connection_path K p u i \<noteq> slot_path (cdc K) q v x"
  using slot_path_kind [of "cdc K" u v p q "ConnectionSlot i" x] assms
  by (auto simp: object_paths root_ok_def)

lemma connection_path_eq:
  assumes "ics24_paths (cdc K)" and "root_ok K p u" and "root_ok K q v"
    and "connection_path K p u i = connection_path K q v j"
  shows "u = v \<and> PrefixBytes (cdc K) p = PrefixBytes (cdc K) q \<and> i = j"
proof -
  have "u = v \<and> PrefixBytes (cdc K) p = PrefixBytes (cdc K) q \<and>
      slot_key (cdc K) (ConnectionSlot i) = slot_key (cdc K) (ConnectionSlot j)"
    using assms by (intro slot_path_root) (auto simp: object_paths root_ok_def)
  then show ?thesis by (simp add: ics24_pathsD(5) [OF assms(1)])
qed

lemma same_connection:
  assumes "connection_path K p u i = connection_path K q v j"
  shows "conn_of K c p u i = conn_of K c q v j"
  using assms by (simp add: conn_of_def GetProxyConnection_def connection_path_def read_object_def substore_get_def
      mbind_def)

text \<open>Recording anything but a connection leaves all connections alone.\<close>

lemma conn_same_proxy_fact:
  assumes L: "ics24_paths (cdc K)" and ids: "client_ids_ok (clientKeeper K)"
    and p: "no_slash (PrefixBytes (cdc K) p)" and kind: "slot_kind (fact_slot f) \<noteq> ''connections''"
  shows "keeps (conn_same K) (proxy_fact K D u p d h pr f)"
proof (rule keepsI)
  fix c
  obtain r c' where pf: "proxy_fact K D u p d h pr f c = (r, c')" by fastforce
  then have "conn_same K c c'"
  proof (cases rule: proxy_fact_cases)
    case failed
    then show ?thesis by (auto simp: conn_same_def intro: conn_of_local)
  next
    case (recorded b)
    have "root_ok K p u" using verified_client [OF recorded(2) ids] p by (simp add: root_ok_def)
    then show ?thesis
      using connection_path_other [OF L _ _ kind] recorded(4) by (auto simp: conn_same_def intro!: conn_of_local)
  qed
  with pf show "conn_same K c (snd (proxy_fact K D u p d h pr f c))" by simp
qed

text \<open>Recording a connection that was absent, or opening the recorded one, is a step.\<close>

lemma conn_le_record:
  assumes L: "ics24_paths (cdc K)" and ids: "client_ids_ok (clientKeeper K)" and cod: "codec_ok (cdc K)"
    and p: "no_slash (PrefixBytes (cdc K) p)"
    and old: "conn_of K c p u i = Ok None \<or> (\<exists>a. conn_of K c p u i = Ok (Some a) \<and> opened a b)"
  shows "conn_le K c (snd (proxy_fact K D u p d h pr (ConnectionFact i b) c))"
proof -
  obtain r c' where pf: "proxy_fact K D u p d h pr (ConnectionFact i b) c = (r, c')" by fastforce
  then have "conn_le K c c'"
  proof (cases rule: proxy_fact_cases)
    case failed
    then show ?thesis by (intro conn_same_le) (auto simp: conn_same_def intro: conn_of_local)
  next
    case (recorded v)
    have new: "proxyStore c' = (proxyStore c)(connection_path K p u i \<mapsto> MarshalConnectionEnd (cdc K) b)"
      using recorded(3,4) by (simp add: object_paths [OF L])
    have "conn_of K c' p u i = Ok (Some b)"
      unfolding conn_of_def GetProxyConnection_def
      using new codec_okD(1,2) [OF cod] by (subst read_object_present) (auto simp: connection_path_def)
    then show ?thesis
      using new old same_connection conn_of_local unfolding conn_le_def
      by (metis fun_upd_other outcome.inject(1) option.inject option.distinct(1))
  qed
  with pf show ?thesis by simp
qed

lemma conn_le_handshake:
  assumes L: "ics24_paths (cdc K)" and ids: "client_ids_ok (clientKeeper K)" and cod: "codec_ok (cdc K)"
    and p: "no_slash (PrefixBytes (cdc K) p)" and none: "conn_of K c p u i = Ok None"
    and f: "slot_kind (fact_slot f) \<noteq> ''connections''" and g: "slot_kind (fact_slot g) \<noteq> ''connections''"
  shows "conn_le K c (snd (mthen (proxy_fact K D u p d1 h1 b1 f) (mthen (proxy_fact K D u p d2 h2 b2 g)
    (mthen (mlift v) (proxy_fact K D u p d3 h3 b3 (ConnectionFact i cn)))) c))"
proof -
  let ?f = "proxy_fact K D u p d1 h1 b1 f" and ?g = "proxy_fact K D u p d2 h2 b2 g"
  have sf: "conn_same K s (snd (?f s))" and sg: "conn_same K s (snd (?g s))" for s
    using conn_same_proxy_fact [OF L ids p f] conn_same_proxy_fact [OF L ids p g] by (simp_all add: keeps_def)
  show ?thesis
  proof (cases "fst (?f c) = Ok ()")
    case False
    then show ?thesis using conn_same_le [OF sf] by (cases "fst (?f c)") (simp_all add: mbind_apply)
  next
    case True
    then obtain c1 where c1: "?f c = (Ok (), c1)" by (metis prod.collapse)
    have le1: "conn_le K c c1" using conn_same_le [OF sf [of c]] c1 by simp
    have "root_ok K p u"
      using c1 ids p by (cases rule: proxy_fact_cases) (auto simp: root_ok_def dest: verified_client)
    have none1: "conn_of K c1 p u i = Ok None"
      using sf [of c] c1 none \<open>root_ok K p u\<close> by (simp add: conn_same_def)
    show ?thesis
    proof (cases "fst (?g c1) = Ok ()")
      case False
      then show ?thesis
        using conn_frame.frame_trans [OF le1 conn_same_le [OF sg [of c1]]] c1
        by (cases "fst (?g c1)") (auto simp: mbind_apply)
    next
      case True
      then obtain c2 where c2: "?g c1 = (Ok (), c2)" by (metis prod.collapse)
      have none2: "conn_of K c2 p u i = Ok None"
        using sg [of c1] c2 none1 \<open>root_ok K p u\<close> by (simp add: conn_same_def)
      have le: "conn_le K c c2"
        using conn_frame.frame_trans [OF le1 conn_same_le [OF sg [of c1]]] c2 by simp
      then show ?thesis
        using conn_frame.frame_trans [OF le conn_le_record [OF L ids cod p disjI1 [OF none2]]] c1 c2
        by (cases v) (simp_all add: mbind_step)
    qed
  qed
qed

lemma conn_le_ConnOpen:
  assumes L: "ics24_paths (cdc K)" and ids: "client_ids_ok (clientKeeper K)" and cod: "codec_ok (cdc K)"
    and p: "no_slash (PrefixBytes (cdc K) p)"
  shows "keeps (conn_le K) (ConnOpenTry K D i p cn dc dk pc b1 b2 b3 h1 h2 b4 b5 h3 h4)" (is "keeps _ ?try")
    and "keeps (conn_le K) (ConnOpenAck K D i p cn dc dk pc b1 b2 b3 h1 h2 b4 b5 h3 h4)" (is "keeps _ ?ack")
    and "keeps (conn_le K) (ConnOpenConfirm K D i u p j b1 h1)" (is "keeps _ ?confirm")
    and "keeps (conn_le K) (ConnOpenFinalize K D i u p b1 h1)" (is "keeps _ ?finalize")
proof -
  show "keeps (conn_le K) ?try"
    unfolding ConnOpenTry_def as_fact [OF L]
    by (intro conn_frame.keeps_mbind_state [OF conn_frame.keeps_pure] conn_frame.keeps_rules
        conn_frame.keeps_mbind_state [OF conn_frame.keeps_pure, OF conn_obj.get_state])
      (auto simp: conn_of_run conn_frame.frame_refl intro!: conn_le_handshake [OF L ids cod p])
  show "keeps (conn_le K) ?ack"
    unfolding ConnOpenAck_def as_fact [OF L]
    by (intro conn_frame.keeps_mbind_state [OF conn_frame.keeps_pure] conn_frame.keeps_rules
        conn_frame.keeps_mbind_state [OF conn_frame.keeps_pure, OF conn_obj.get_state])
      (auto simp: conn_of_run conn_frame.frame_refl intro!: conn_le_handshake [OF L ids cod p])
  show "keeps (conn_le K) ?confirm"
    unfolding ConnOpenConfirm_def as_fact [OF L]
    by (intro conn_frame.keeps_mbind_state [OF conn_frame.keeps_pure, OF conn_obj.get_state])
      (auto simp: conn_of_run conn_frame.frame_refl opened_def intro!: conn_le_record [OF L ids cod p] split: option.splits)
  show "keeps (conn_le K) ?finalize"
    unfolding ConnOpenFinalize_def as_fact [OF L]
    by (intro conn_frame.keeps_mbind_state [OF conn_frame.keeps_pure, OF conn_obj.get_state])
      (auto simp: conn_of_run conn_frame.frame_refl opened_def intro!: conn_le_record [OF L ids cod p] split: option.splits)
qed

section \<open>What a successful handshake step establishes\<close>

lemma proxy_fact_OkD:
  assumes "proxy_fact K D u p d h pr f c = (Ok x, c')"
  shows "upstream_verifies K D c u p f \<and> (\<exists>b. fact_value (cdc K) f = Ok b \<and>
    proxyStore c' = (proxyStore c)(slot_path (cdc K) p u (fact_slot f) \<mapsto> b))"
  using assms by (cases rule: proxy_fact_cases) auto

text \<open>The client state and the consensus state of one client do not share a path, nor does a connection.\<close>

lemma handshake_paths:
  assumes "ics24_paths (cdc K)"
  shows "client_path K p u i \<noteq> consensus_path K p u (i, h)"
    and "client_path K p u i \<noteq> connection_path K p u j"
    and "consensus_path K p u (i, h) \<noteq> connection_path K p u j"
  by (simp_all add: object_paths [OF assms] slot_path_def ProxyKey_def ics24_pathsD [OF assms])

definition handshake_recorded ::
  "('x, 'i) Keeper \<Rightarrow> 'i ctx \<Rightarrow> prefix \<Rightarrow> string \<Rightarrow> string \<Rightarrow> ConnectionEnd \<Rightarrow>
    'x client_state \<Rightarrow> Height \<Rightarrow> 'x consensus_state \<Rightarrow> bool" where
  "handshake_recorded K c p u i cn dc h dk \<longleftrightarrow>
     conn_of K c p u i = Ok (Some cn) \<and>
     fst (Keeper_GetProxyClientState K p (ClientId cn) u c) = Ok (Some dc) \<and>
     fst (GetProxyClientConsensusState K p (ClientId cn) u h c) = Ok (Some dk)"

text \<open>
  What \<open>ConnOpenTry\<close> and \<open>ConnOpenAck\<close> are to do, for the state the end must be in: check that
  the client state in the message is the proxy's own and that the name is free; have the
  upstream client accept each of the three statements with its own proof at the given height,
  in this order, each recorded before the next is checked; and check, before the last one,
  that downstream tracks the proxy.
\<close>

definition handshake_spec ::
  "('x, 'i) Keeper \<Rightarrow> ('x, 'i) client_ops \<Rightarrow> int32 \<Rightarrow> string \<Rightarrow> prefix \<Rightarrow> ConnectionEnd \<Rightarrow>
    'x client_state \<Rightarrow> 'x consensus_state \<Rightarrow> 'x client_state \<Rightarrow>
    bytes \<Rightarrow> bytes \<Rightarrow> bytes \<Rightarrow> Height \<Rightarrow> Height \<Rightarrow>
    bytes \<Rightarrow> bytes \<Rightarrow> Height \<Rightarrow> Height \<Rightarrow> 'i ctx \<Rightarrow> 'i ctx \<Rightarrow> bool" where
  "handshake_spec K D state i p cn dc dk pc proofConn proofClient proofConsensus proofHeight consensusHeight
     proofProxyClient proofProxyConsensus proofProxyHeight proxyConsensusHeight c c' \<longleftrightarrow>
     (\<exists>pcs pk u b1 b2 c1 c2 c3.
        pc = ProxyClient pcs \<and> u = UpstreamClientId pcs \<and>
        validateSelfClient K (world c) pcs = Ok () \<and>
        getSelfConsensusState K (world c) proxyConsensusHeight = Ok pk \<and>
        conn_of K c p u i = Ok None \<and> ConnState cn = state \<and>
        check_fact K D u p 0 proofHeight proofClient (ClientStateFact (ClientId cn) dc) c = (Ok (), c1) \<and>
        MarshalClientState (cdc K) dc = Ok b1 \<and>
        check_fact K D u p 0 proofHeight proofConsensus (ConsensusStateFact (ClientId cn) consensusHeight dk)
          (ctx_put c1 (slot_path (cdc K) p u (ClientStateSlot (ClientId cn))) b1) = (Ok (), c2) \<and>
        MarshalConsensusState (cdc K) dk = Ok b2 \<and>
        verifyDownstream K D (ConnCp cn) dc dk pcs pk proofProxyClient proofProxyConsensus proofProxyHeight
          proxyConsensusHeight = Ok () \<and>
        check_fact K D u p 0 proofHeight proofConn (ConnectionFact i cn)
          (ctx_put c2 (slot_path (cdc K) p u (ConsensusStateSlot (ClientId cn) consensusHeight)) b2) = (Ok (), c3) \<and>
        c' = ctx_put c3 (slot_path (cdc K) p u (ConnectionSlot i)) (MarshalConnectionEnd (cdc K) cn))"

lemma read_object_value:
  assumes "proxyStore c (s @ k) = Some b" and "b \<noteq> []" and "d b = Ok x"
  shows "fst (read_object s k d c) = Ok (Some x)"
  using read_object_present [of c s k b d x] assms by simp

lemma handshake_success:
  assumes L: "ics24_paths (cdc K)" and cod: "codec_ok (cdc K)"
    and 1: "proxy_fact K D u p d1 h1 b1 (ClientStateFact (ClientId cn) dc) c = (Ok x1, c1)"
    and 2: "proxy_fact K D u p d2 h2 b2 (ConsensusStateFact (ClientId cn) h dk) c1 = (Ok x2, c2)"
    and 3: "proxy_fact K D u p d3 h3 b3 (ConnectionFact i cn) c2 = (Ok x, c')"
  shows "handshake_recorded K c' p u i cn dc h dk"
proof -
  from proxy_fact_OkD [OF 1] obtain v1 where m1: "MarshalClientState (cdc K) dc = Ok v1"
    and s1: "proxyStore c1 = (proxyStore c)(client_path K p u (ClientId cn) \<mapsto> v1)"
    by (auto simp: object_paths [OF L])
  from proxy_fact_OkD [OF 2] obtain v2 where m2: "MarshalConsensusState (cdc K) dk = Ok v2"
    and s2: "proxyStore c2 = (proxyStore c1)(consensus_path K p u (ClientId cn, h) \<mapsto> v2)"
    by (auto simp: object_paths [OF L])
  have s3: "proxyStore c' = (proxyStore c2)(connection_path K p u i \<mapsto> MarshalConnectionEnd (cdc K) cn)"
    using proxy_fact_OkD [OF 3] by (simp add: object_paths [OF L])
  have at: "proxyStore c' (client_path K p u (ClientId cn)) = Some v1"
    "proxyStore c' (consensus_path K p u (ClientId cn, h)) = Some v2"
    "proxyStore c' (connection_path K p u i) = Some (MarshalConnectionEnd (cdc K) cn)"
    using handshake_paths [OF L, of p u] by (simp_all add: s1 s2 s3)
  show "handshake_recorded K c' p u i cn dc h dk"
    unfolding handshake_recorded_def conn_of_def GetProxyConnection_def Keeper_GetProxyClientState_def
      GetProxyClientConsensusState_def
    by (intro conjI read_object_value [OF at(3) [unfolded connection_path_def]]
        read_object_value [OF at(1) [unfolded client_path_def]]
        read_object_value [OF at(2) [unfolded consensus_path_def fst_conv snd_conv]])
      (simp_all add: codec_okD(1,2) [OF cod] codec_okD(5,6) [OF cod m1] codec_okD(7,8) [OF cod m2])
qed

text \<open>The proxy's own client state names the proxy's two stores and its own client.\<close>

lemma validateSelfClient_Ok:
  assumes "helpers_ok (cdc K)"
  shows "validateSelfClient K w cs = Ok () \<longleftrightarrow>
     IbcPrefix cs = Some (ibcStoreKey K) \<and> ProxyPrefix cs = Some (proxyStoreKey K) \<and>
     (\<exists>inner. UnpackClientState (cdc K) (ProxyClientStateAny cs) = Ok inner \<and>
        ValidateSelfClient (clientKeeper K) w inner = Ok ())"
  using assms
  by (auto simp: validateSelfClient_def Prefix_Bytes_def prefix_ptr_def helpers_ok_def outcome_simps
      GetIBCCommitmentPrefix_def GetProxyCommitmentPrefix_def GetProxyClientState_def split: option.splits)

lemma handshake_iff:
  assumes L: "ics24_paths (cdc K)"
  shows "ConnOpenTry K D i p cn dc dk pc b1 b2 b3 h1 h2 b4 b5 h3 h4 c = (Ok (), c') \<longleftrightarrow>
      handshake_spec K D CONN_INIT i p cn dc dk pc b1 b2 b3 h1 h2 b4 b5 h3 h4 c c'"
    and "ConnOpenAck K D i p cn dc dk pc b1 b2 b3 h1 h2 b4 b5 h3 h4 c = (Ok (), c') \<longleftrightarrow>
      handshake_spec K D CONN_TRYOPEN i p cn dc dk pc b1 b2 b3 h1 h2 b4 b5 h3 h4 c c'"
proof -
  show "ConnOpenTry K D i p cn dc dk pc b1 b2 b3 h1 h2 b4 b5 h3 h4 c = (Ok (), c') \<longleftrightarrow>
      handshake_spec K D CONN_INIT i p cn dc dk pc b1 b2 b3 h1 h2 b4 b5 h3 h4 c c'"
    unfolding ConnOpenTry_def handshake_spec_def as_fact [OF L]
    by (auto simp: outcome_simps produceVerificationArgs_Ok conn_of_run proxy_fact_Ok_iff split: if_splits; blast)
  show "ConnOpenAck K D i p cn dc dk pc b1 b2 b3 h1 h2 b4 b5 h3 h4 c = (Ok (), c') \<longleftrightarrow>
      handshake_spec K D CONN_TRYOPEN i p cn dc dk pc b1 b2 b3 h1 h2 b4 b5 h3 h4 c c'"
    unfolding ConnOpenAck_def handshake_spec_def as_fact [OF L]
    by (auto simp: outcome_simps produceVerificationArgs_Ok conn_of_run proxy_fact_Ok_iff split: if_splits; blast)
qed

text \<open>Afterwards the three objects read back as they were given.\<close>

lemma handshake_reads_back:
  assumes L: "ics24_paths (cdc K)" and cod: "codec_ok (cdc K)"
    and "handshake_spec K D state i p cn dc dk (ProxyClient pcs) b1 b2 b3 h1 h2 b4 b5 h3 h4 c c'"
  shows "handshake_recorded K c' p (UpstreamClientId pcs) i cn dc h2 dk"
proof -
  let ?u = "UpstreamClientId pcs"
  obtain c1 c2 where "proxy_fact K D ?u p 0 h1 b2 (ClientStateFact (ClientId cn) dc) c = (Ok (), c1)"
    "proxy_fact K D ?u p 0 h1 b3 (ConsensusStateFact (ClientId cn) h2 dk) c1 = (Ok (), c2)"
    "proxy_fact K D ?u p 0 h1 b1 (ConnectionFact i cn) c2 = (Ok (), c')"
    using assms(3) unfolding handshake_spec_def proxy_fact_Ok_iff
    by (auto intro: that)
  then show ?thesis by (rule handshake_success [OF L cod])
qed

lemma conn_bind:
  "mbind (GetProxyConnection K p u i) f c = (case conn_of K c p u i of
     Ok v \<Rightarrow> f v c | Err e \<Rightarrow> (Err e, c) | Panic \<Rightarrow> (Panic, c) | Diverge \<Rightarrow> (Diverge, c))"
  by (simp add: mbind_def conn_of_run)

lemma ConnOpenConfirm_Ok:
  assumes "ics24_paths (cdc K)"
  shows "ConnOpenConfirm K D i u p j pr h c = (Ok x, c') \<longleftrightarrow>
    (\<exists>a. conn_of K c p u i = Ok (Some a) \<and> ConnState a = CONN_INIT \<and>
       proxy_fact K D u p 0 h pr (ConnectionFact i
         (a\<lparr>ConnState := CONN_OPEN, ConnCp := (ConnCp a)\<lparr>CpConnectionId := j\<rparr>\<rparr>)) c = (Ok x, c'))"
  unfolding ConnOpenConfirm_def as_fact [OF assms]
  by (auto simp: outcome_simps conn_of_run split: option.splits if_splits)

lemma ConnOpenFinalize_Ok:
  assumes "ics24_paths (cdc K)"
  shows "ConnOpenFinalize K D i u p pr h c = (Ok x, c') \<longleftrightarrow>
    (\<exists>a. conn_of K c p u i = Ok (Some a) \<and> ConnState a = CONN_TRYOPEN \<and>
       proxy_fact K D u p 0 h pr (ConnectionFact i (a\<lparr>ConnState := CONN_OPEN\<rparr>)) c = (Ok x, c'))"
  unfolding ConnOpenFinalize_def as_fact [OF assms]
  by (auto simp: outcome_simps conn_of_run split: option.splits if_splits)

end
