(* ===== verification/Channel_Packet.thy ===== *)
theory Channel_Packet
  imports Connection
begin

text \<open>
  \<open>modules/proxy/keeper/channel.go\<close>, \<open>packet.go\<close> and \<open>client.go\<close>: the channel handshake,
  packets and acknowledgements, and client states, recorded for the upstream chain.
\<close>

section \<open>Channels (\<open>channel.go\<close>)\<close>

definition validateChannelOrder ::
  "('x, 'i) Keeper \<Rightarrow> int32 \<Rightarrow> ConnectionEnd \<Rightarrow> unit outcome" where
  "validateChannelOrder k order connectionEnd =
     (case Versions connectionEnd of
        [v] \<Rightarrow>
          if \<not> VerifySupportedFeature (cdc k) v (OrderString (cdc k) order)
          then Err ErrInvalidVersion
          else Ok ()
      | _ \<Rightarrow> Err ErrInvalidVersion)"

text \<open>The index expression \<open>hops[0]\<close> panics on an empty slice.\<close>

definition first_hop :: "string list \<Rightarrow> string outcome" where
  "first_hop hops = (case hops of [] \<Rightarrow> Panic | h # _ \<Rightarrow> Ok h)"

text \<open>\<open>connectionEnd, found := k.GetProxyConnection(...); if !found { return ErrConnectionNotFound }\<close>\<close>

definition existing_connection ::
  "('x, 'i) Keeper \<Rightarrow> prefix \<Rightarrow> string \<Rightarrow> string list \<Rightarrow> ('i ctx, ConnectionEnd) prog" where
  "existing_connection k upstreamPrefix upstreamClientID hops =
     mbind (mlift (first_hop hops)) (\<lambda>connectionID.
     mbind (GetProxyConnection k upstreamPrefix upstreamClientID connectionID) (\<lambda>v.
     mlift (from_option ErrConnectionNotFound v)))"

definition ChanOpenTry ::
  "('x, 'i) Keeper \<Rightarrow> ('x, 'i) client_ops \<Rightarrow> string \<Rightarrow> prefix \<Rightarrow> int32 \<Rightarrow> string list \<Rightarrow> string \<Rightarrow> string \<Rightarrow>
    string \<Rightarrow> string \<Rightarrow> bytes \<Rightarrow> Height \<Rightarrow> ('i ctx, unit) prog" where
  "ChanOpenTry k D upstreamClientID upstreamPrefix order connectionHops upstreamPortID upstreamChannelID
     downstreamPortID version proofInit proofHeight =
     (if length connectionHops \<noteq> 1 then mlift (Err (Errorf ''hops length must be 1, but got %v''))
      else
      mbind (existing_connection k upstreamPrefix upstreamClientID connectionHops) (\<lambda>connectionEnd.
      mbind (mlift (validateChannelOrder k order connectionEnd)) (\<lambda>_.
      VerifyAndProxyChannelState k D upstreamClientID upstreamPrefix proofHeight proofInit
        upstreamPortID upstreamChannelID
        \<lparr>ChanState = CHAN_INIT, Ordering = order,
         ChanCp = \<lparr>CpPortId = downstreamPortID, CpChannelId = []\<rparr>,
         ConnectionHops = connectionHops, ChanVersion = version\<rparr>)))"

definition ChanOpenAck ::
  "('x, 'i) Keeper \<Rightarrow> ('x, 'i) client_ops \<Rightarrow> string \<Rightarrow> prefix \<Rightarrow> int32 \<Rightarrow> string list \<Rightarrow> string \<Rightarrow> string \<Rightarrow>
    string \<Rightarrow> string \<Rightarrow> string \<Rightarrow> bytes \<Rightarrow> Height \<Rightarrow> ('i ctx, unit) prog" where
  "ChanOpenAck k D upstreamClientID upstreamPrefix order connectionHops upstreamPortID upstreamChannelID
     downstreamPortID downstreamChannelID version proofTry proofHeight =
     (if length connectionHops \<noteq> 1 then mlift (Err (Errorf ''hops length must be 1, but got %v''))
      else
      mbind (existing_connection k upstreamPrefix upstreamClientID connectionHops) (\<lambda>connectionEnd.
      if ConnState connectionEnd \<noteq> CONN_OPEN then mlift (Err ErrInvalidConnectionState)
      else
      mbind (mlift (validateChannelOrder k order connectionEnd)) (\<lambda>_.
      VerifyAndProxyChannelState k D upstreamClientID upstreamPrefix proofHeight proofTry
        upstreamPortID upstreamChannelID
        \<lparr>ChanState = CHAN_TRYOPEN, Ordering = order,
         ChanCp = \<lparr>CpPortId = downstreamPortID, CpChannelId = downstreamChannelID\<rparr>,
         ConnectionHops = connectionHops, ChanVersion = version\<rparr>)))"

definition ChanOpenConfirm ::
  "('x, 'i) Keeper \<Rightarrow> ('x, 'i) client_ops \<Rightarrow> string \<Rightarrow> prefix \<Rightarrow> string \<Rightarrow> string \<Rightarrow> string \<Rightarrow> bytes \<Rightarrow> Height \<Rightarrow>
    ('i ctx, unit) prog" where
  "ChanOpenConfirm k D upstreamClientID upstreamPrefix upstreamPortID upstreamChannelID downstreamChannelID
     proofAck proofHeight =
     mbind (GetProxyChannel k upstreamPrefix upstreamClientID upstreamPortID upstreamChannelID) (\<lambda>v.
     case v of
       None \<Rightarrow> mlift (Err (Errorf ''channel not found''))
     | Some channel \<Rightarrow>
         if CpChannelId (ChanCp channel) \<noteq> []
         then mlift (Err (Errorf ''counterparty.ChannelID must be empty''))
         else if ChanState channel \<noteq> CHAN_INIT then mlift (Err (Errorf ''channel state must be %s''))
         else
         mbind (existing_connection k upstreamPrefix upstreamClientID (ConnectionHops channel)) (\<lambda>connectionEnd.
         if ConnState connectionEnd \<noteq> CONN_OPEN then mlift (Err ErrInvalidConnectionState)
         else
         VerifyAndProxyChannelState k D upstreamClientID upstreamPrefix proofHeight proofAck
           upstreamPortID upstreamChannelID
           (channel\<lparr>ChanCp := (ChanCp channel)\<lparr>CpChannelId := downstreamChannelID\<rparr>, ChanState := CHAN_OPEN\<rparr>)))"

definition ChanOpenFinalize ::
  "('x, 'i) Keeper \<Rightarrow> ('x, 'i) client_ops \<Rightarrow> string \<Rightarrow> prefix \<Rightarrow> string \<Rightarrow> string \<Rightarrow> bytes \<Rightarrow> Height \<Rightarrow>
    ('i ctx, unit) prog" where
  "ChanOpenFinalize k D upstreamClientID upstreamPrefix upstreamPortID upstreamChannelID proofConfirm proofHeight =
     mbind (GetProxyChannel k upstreamPrefix upstreamClientID upstreamPortID upstreamChannelID) (\<lambda>v.
     case v of
       None \<Rightarrow> mlift (Err (Errorf ''channel not found''))
     | Some channel \<Rightarrow>
         if ChanState channel \<noteq> CHAN_TRYOPEN then mlift (Err (Errorf ''channel state must be %s''))
         else
         mbind (existing_connection k upstreamPrefix upstreamClientID (ConnectionHops channel)) (\<lambda>connectionEnd.
         if ConnState connectionEnd \<noteq> CONN_OPEN then mlift (Err ErrInvalidConnectionState)
         else
         VerifyAndProxyChannelState k D upstreamClientID upstreamPrefix proofHeight proofConfirm
           upstreamPortID upstreamChannelID (channel\<lparr>ChanState := CHAN_OPEN\<rparr>)))"

section \<open>Packets (\<open>packet.go\<close>)\<close>

definition RecvPacket ::
  "('x, 'i) Keeper \<Rightarrow> ('x, 'i) client_ops \<Rightarrow> string \<Rightarrow> prefix \<Rightarrow> Packet \<Rightarrow> bytes \<Rightarrow> Height \<Rightarrow>
    ('i ctx, unit) prog" where
  "RecvPacket k D upstreamClientID upstreamPrefix packet proof proofHeight =
     mbind (GetProxyChannel k upstreamPrefix upstreamClientID (SourcePort packet) (SourceChannel packet)) (\<lambda>v.
     case v of
       None \<Rightarrow> mlift (Err ErrChannelNotFound)
     | Some channel \<Rightarrow>
         if DestinationPort packet \<noteq> CpPortId (ChanCp channel) then mlift (Err ErrInvalidPacket)
         else if DestinationChannel packet \<noteq> CpChannelId (ChanCp channel) then mlift (Err ErrInvalidPacket)
         else
         mbind (existing_connection k upstreamPrefix upstreamClientID (ConnectionHops channel)) (\<lambda>connectionEnd.
         VerifyAndProxyPacketCommitment k D upstreamClientID upstreamPrefix connectionEnd proofHeight proof
           (SourcePort packet) (SourceChannel packet) (Sequence packet) (CommitPacket (cdc k) packet)))"

definition AcknowledgePacket ::
  "('x, 'i) Keeper \<Rightarrow> ('x, 'i) client_ops \<Rightarrow> string \<Rightarrow> prefix \<Rightarrow> Packet \<Rightarrow> bytes \<Rightarrow> bytes \<Rightarrow> Height \<Rightarrow>
    ('i ctx, unit) prog" where
  "AcknowledgePacket k D upstreamClientID upstreamPrefix packet acknowledgement proof proofHeight =
     mbind (GetProxyChannel k upstreamPrefix upstreamClientID (DestinationPort packet) (DestinationChannel packet)) (\<lambda>v.
     case v of
       None \<Rightarrow> mlift (Err ErrChannelNotFound)
     | Some channel \<Rightarrow>
         mbind (existing_connection k upstreamPrefix upstreamClientID (ConnectionHops channel)) (\<lambda>connectionEnd.
         VerifyAndProxyPacketAcknowledgement k D upstreamClientID upstreamPrefix connectionEnd proofHeight proof
           (DestinationPort packet) (DestinationChannel packet) (Sequence packet) acknowledgement))"

section \<open>Client states (\<open>client.go\<close>)\<close>

definition Keeper_ClientState ::
  "('x, 'i) Keeper \<Rightarrow> ('x, 'i) client_ops \<Rightarrow> string \<Rightarrow> prefix \<Rightarrow> string \<Rightarrow> 'x client_state \<Rightarrow> 'x consensus_state \<Rightarrow>
    bytes \<Rightarrow> bytes \<Rightarrow> Height \<Rightarrow> Height \<Rightarrow> ('i ctx, unit) prog" where
  "Keeper_ClientState k D upstreamClientID upstreamPrefix counterpartyClientID clientState expectedConsensusState
     proofClient proofConsensus proofHeight consensusHeight =
     mthen (VerifyAndProxyClientState k D upstreamClientID upstreamPrefix counterpartyClientID proofHeight
              proofClient clientState)
     (VerifyAndProxyClientConsensusState k D upstreamClientID upstreamPrefix counterpartyClientID proofHeight
        consensusHeight proofConsensus expectedConsensusState)"

section \<open>Lemmas\<close>

lemma existing_connection_state: "snd (existing_connection k p u hops c) = c"
  by (cases "first_hop hops"; cases "conn_of k c p u (hd hops)")
    (auto simp: existing_connection_def mbind_apply conn_of_run first_hop_def split: list.splits outcome.splits)

lemma existing_connection_Ok [outcome_simps]:
  "existing_connection k p u hops c = (Ok cn, c') \<longleftrightarrow>
     (\<exists>j js. hops = j # js \<and> conn_of k c p u j = Ok (Some cn) \<and> c' = c)"
  by (auto simp: existing_connection_def first_hop_def outcome_simps conn_of_run split: list.splits)

lemma validateChannelOrder_Ok [outcome_simps]:
  "validateChannelOrder k order cn = Ok x \<longleftrightarrow>
     (\<exists>v. Versions cn = [v] \<and> VerifySupportedFeature (cdc k) v (OrderString (cdc k) order))"
  by (auto simp: validateChannelOrder_def split: list.splits)

definition chan_of :: "('x, 'i) Keeper \<Rightarrow> 'i ctx \<Rightarrow> prefix \<Rightarrow> string \<Rightarrow> string \<Rightarrow> string \<Rightarrow> Channel option outcome" where
  "chan_of K c p u a b = fst (GetProxyChannel K p u a b c)"

lemma GetProxyChannel_state: "snd (GetProxyChannel K p u a b c) = c"
  using chan_obj.get_state [of K p u "(a, b)" c] by simp

lemma chan_of_run: "GetProxyChannel K p u a b c = (chan_of K c p u a b, c)"
  using GetProxyChannel_state [of K p u a b c] by (cases "GetProxyChannel K p u a b c") (simp add: chan_of_def)

text \<open>All handlers are made of reads, checks and the recording of one or two statements.\<close>

lemmas handler_defs = ChanOpenTry_def ChanOpenAck_def ChanOpenConfirm_def ChanOpenFinalize_def
  RecvPacket_def AcknowledgePacket_def Keeper_ClientState_def

lemma mirrors_Chan_Packet:
  assumes "ics24_paths (cdc k)" and Q: "Q u p h pr"
  shows "keeps (mirrors k D Q) (ChanOpenTry k D u p order hops a b a' ver pr h)"
    and "keeps (mirrors k D Q) (ChanOpenAck k D u p order hops a b a' b' ver pr h)"
    and "keeps (mirrors k D Q) (ChanOpenConfirm k D u p a b b' pr h)"
    and "keeps (mirrors k D Q) (ChanOpenFinalize k D u p a b pr h)"
    and "keeps (mirrors k D Q) (RecvPacket k D u p pkt pr h)"
    and "keeps (mirrors k D Q) (AcknowledgePacket k D u p pkt ack pr h)"
    and "Q u p h pr' \<Longrightarrow> keeps (mirrors k D Q) (Keeper_ClientState k D u p i dc dk pr pr' h ch)"
  unfolding handler_defs as_fact [OF assms(1)]
  by (intro mirror.keeps_rules mirrors_proxy_fact Q mirror.keeps_pure [OF existing_connection_state]
      mirror.keeps_pure [OF GetProxyChannel_state]; assumption?)+

lemma conn_same_Chan_Packet:
  assumes L: "ics24_paths (cdc k)" and ids: "client_ids_ok (clientKeeper k)"
    and p: "no_slash (PrefixBytes (cdc k) p)"
  shows "keeps (conn_same k) (ChanOpenTry k D u p order hops a b a' ver pr h)"
    and "keeps (conn_same k) (ChanOpenAck k D u p order hops a b a' b' ver pr h)"
    and "keeps (conn_same k) (ChanOpenConfirm k D u p a b b' pr h)"
    and "keeps (conn_same k) (ChanOpenFinalize k D u p a b pr h)"
    and "keeps (conn_same k) (RecvPacket k D u p pkt pr h)"
    and "keeps (conn_same k) (AcknowledgePacket k D u p pkt ack pr h)"
    and "keeps (conn_same k) (Keeper_ClientState k D u p i dc dk pr1 pr2 h ch)"
  unfolding handler_defs as_fact [OF L]
  by (intro conn_still.keeps_rules conn_same_proxy_fact [OF L ids p] conn_still.keeps_pure [OF existing_connection_state]
      conn_still.keeps_pure [OF GetProxyChannel_state]; simp)+

lemma keeps_weaken: "keeps R m \<Longrightarrow> (\<And>s t. R s t \<Longrightarrow> Q s t) \<Longrightarrow> keeps Q m"
  by (simp add: keeps_def)

lemmas conn_le_Chan_Packet = conn_same_Chan_Packet [THEN keeps_weaken, OF _ _ _ conn_same_le]

text \<open>What a recorded channel reads back as.\<close>

lemma chan_recorded:
  assumes L: "ics24_paths (cdc K)" and cod: "codec_ok (cdc K)"
    and "proxy_fact K D u p d h pr (ChannelFact a b ch) c = (Ok x, c')"
  shows "chan_of K c' p u a b = Ok (Some ch)"
  using proxy_fact_OkD [OF assms(3)] codec_okD(3,4) [OF cod]
  by (auto simp: chan_of_def GetProxyChannel_def slot_paths [symmetric] intro!: read_object_value)

lemma chan_bind:
  "mbind (GetProxyChannel K p u a b) f c = (case chan_of K c p u a b of
     Ok v \<Rightarrow> f v c | Err e \<Rightarrow> (Err e, c) | Panic \<Rightarrow> (Panic, c) | Diverge \<Rightarrow> (Diverge, c))"
  by (simp add: mbind_def chan_of_run)

text \<open>When the handlers succeed, and what they then record.\<close>

definition new_channel :: "int32 \<Rightarrow> int32 \<Rightarrow> string list \<Rightarrow> string \<Rightarrow> string \<Rightarrow> string \<Rightarrow> Channel" where
  "new_channel s order hops b b' ver =
     \<lparr>ChanState = s, Ordering = order, ChanCp = \<lparr>CpPortId = b, CpChannelId = b'\<rparr>,
      ConnectionHops = hops, ChanVersion = ver\<rparr>"

lemma ChanOpenTry_Ok:
  assumes "ics24_paths (cdc K)"
  shows "ChanOpenTry K D u p order hops a a' b ver pr h c = (Ok x, c') \<longleftrightarrow>
    (\<exists>j cn. hops = [j] \<and> conn_of K c p u j = Ok (Some cn) \<and> validateChannelOrder K order cn = Ok () \<and>
       proxy_fact K D u p 0 h pr (ChannelFact a a' (new_channel CHAN_INIT order hops b [] ver)) c = (Ok x, c'))"
  unfolding ChanOpenTry_def as_fact [OF assms] new_channel_def
  by (auto simp: outcome_simps length_Suc_conv split: if_splits)

lemma ChanOpenAck_Ok:
  assumes "ics24_paths (cdc K)"
  shows "ChanOpenAck K D u p order hops a a' b b' ver pr h c = (Ok x, c') \<longleftrightarrow>
    (\<exists>j cn. hops = [j] \<and> conn_of K c p u j = Ok (Some cn) \<and> ConnState cn = CONN_OPEN \<and>
       validateChannelOrder K order cn = Ok () \<and>
       proxy_fact K D u p 0 h pr (ChannelFact a a' (new_channel CHAN_TRYOPEN order hops b b' ver)) c = (Ok x, c'))"
  unfolding ChanOpenAck_def as_fact [OF assms] new_channel_def
  by (auto simp: outcome_simps length_Suc_conv split: if_splits)

lemma ChanOpenConfirm_Ok:
  assumes "ics24_paths (cdc K)"
  shows "ChanOpenConfirm K D u p a a' b' pr h c = (Ok x, c') \<longleftrightarrow>
    (\<exists>ch j js cn. chan_of K c p u a a' = Ok (Some ch) \<and> CpChannelId (ChanCp ch) = [] \<and>
       ChanState ch = CHAN_INIT \<and> ConnectionHops ch = j # js \<and>
       conn_of K c p u j = Ok (Some cn) \<and> ConnState cn = CONN_OPEN \<and>
       proxy_fact K D u p 0 h pr (ChannelFact a a'
         (ch\<lparr>ChanCp := (ChanCp ch)\<lparr>CpChannelId := b'\<rparr>, ChanState := CHAN_OPEN\<rparr>)) c = (Ok x, c'))"
  unfolding ChanOpenConfirm_def as_fact [OF assms] chan_bind
  by (auto simp: outcome_simps split: outcome.splits option.splits if_splits)

lemma ChanOpenFinalize_Ok:
  assumes "ics24_paths (cdc K)"
  shows "ChanOpenFinalize K D u p a a' pr h c = (Ok x, c') \<longleftrightarrow>
    (\<exists>ch j js cn. chan_of K c p u a a' = Ok (Some ch) \<and> ChanState ch = CHAN_TRYOPEN \<and>
       ConnectionHops ch = j # js \<and> conn_of K c p u j = Ok (Some cn) \<and> ConnState cn = CONN_OPEN \<and>
       proxy_fact K D u p 0 h pr (ChannelFact a a' (ch\<lparr>ChanState := CHAN_OPEN\<rparr>)) c = (Ok x, c'))"
  unfolding ChanOpenFinalize_def as_fact [OF assms] chan_bind
  by (auto simp: outcome_simps split: outcome.splits option.splits if_splits)

lemma RecvPacket_Ok:
  assumes "ics24_paths (cdc K)"
  shows "RecvPacket K D u p pkt pr h c = (Ok x, c') \<longleftrightarrow>
    (\<exists>ch j js cn. chan_of K c p u (SourcePort pkt) (SourceChannel pkt) = Ok (Some ch) \<and>
       ChanCp ch = \<lparr>CpPortId = DestinationPort pkt, CpChannelId = DestinationChannel pkt\<rparr> \<and>
       ConnectionHops ch = j # js \<and> conn_of K c p u j = Ok (Some cn) \<and>
       proxy_fact K D u p (DelayPeriod cn) h pr (PacketCommitmentFact (SourcePort pkt) (SourceChannel pkt)
         (Sequence pkt) (CommitPacket (cdc K) pkt)) c = (Ok x, c'))"
proof -
  have cp: "ChanCp ch = \<lparr>CpPortId = a, CpChannelId = b\<rparr> \<longleftrightarrow> a = CpPortId (ChanCp ch) \<and> b = CpChannelId (ChanCp ch)"
    for ch :: Channel and a b
    by (cases "ChanCp ch") auto
  show ?thesis
    unfolding RecvPacket_def as_fact [OF assms] cp
    by (auto simp: outcome_simps chan_of_run split: option.splits if_splits)
qed

lemma AcknowledgePacket_Ok:
  assumes "ics24_paths (cdc K)"
  shows "AcknowledgePacket K D u p pkt ack pr h c = (Ok x, c') \<longleftrightarrow>
    (\<exists>ch j js cn. chan_of K c p u (DestinationPort pkt) (DestinationChannel pkt) = Ok (Some ch) \<and>
       ConnectionHops ch = j # js \<and> conn_of K c p u j = Ok (Some cn) \<and>
       proxy_fact K D u p (DelayPeriod cn) h pr (PacketAckFact (DestinationPort pkt) (DestinationChannel pkt)
         (Sequence pkt) ack) c = (Ok x, c'))"
  unfolding AcknowledgePacket_def as_fact [OF assms]
  by (auto simp: outcome_simps chan_of_run split: option.splits if_splits)

end
