(* ===== verification/Msg_Server.thy ===== *)
theory Msg_Server
  imports Messages Channel_Packet
begin

text \<open>
  \<open>modules/proxy/keeper/msg_server.go\<close> and \<open>genesis.go\<close>: a message is unpacked and handed to
  its keeper method. The module's behaviour over time is the step relation
  \<open>module_step\<close>: a message is handled, or something outside the module happens.
\<close>

section \<open>Handlers\<close>

definition Server_ProxyClientState ::
  "('x, 'i) Keeper \<Rightarrow> ('x, 'i) client_ops \<Rightarrow> MsgProxyClientState \<Rightarrow> ('i ctx, unit) prog" where
  "Server_ProxyClientState k D m =
     mbind (mlift (UnpackClientState (cdc k) (pcs_ClientState m))) (\<lambda>clientState.
     mbind (mlift (UnpackConsensusState (cdc k) (pcs_ConsensusState m))) (\<lambda>consensusState.
     Keeper_ClientState k D (pcs_UpstreamClientId m) (MerklePfx (pcs_UpstreamPrefix m))
       (pcs_CounterpartyClientId m) clientState consensusState (pcs_ProofClient m) (pcs_ProofConsensus m)
       (pcs_ProofHeight m) (pcs_ConsensusHeight m)))"

definition ProxyConnectionOpenTry ::
  "('x, 'i) Keeper \<Rightarrow> ('x, 'i) client_ops \<Rightarrow> MsgProxyConnectionOpenTry \<Rightarrow> ('i ctx, unit) prog" where
  "ProxyConnectionOpenTry k D m =
     mbind (mlift (UnpackClientState (cdc k) (cot_DownstreamClientState m))) (\<lambda>downstreamClientState.
     mbind (mlift (UnpackConsensusState (cdc k) (cot_DownstreamConsensusState m))) (\<lambda>downstreamConsensusState.
     mbind (mlift (UnpackClientState (cdc k) (cot_ProxyClientState m))) (\<lambda>proxyClientState.
     ConnOpenTry k D (cot_ConnectionId m) (MerklePfx (cot_UpstreamPrefix m)) (cot_Connection m)
       downstreamClientState downstreamConsensusState proxyClientState
       (cot_ProofInit m) (cot_ProofClient m) (cot_ProofConsensus m) (cot_ProofHeight m) (cot_ConsensusHeight m)
       (cot_ProofProxyClient m) (cot_ProofProxyConsensus m) (cot_ProofProxyHeight m)
       (cot_ProxyConsensusHeight m))))"

definition ProxyConnectionOpenAck ::
  "('x, 'i) Keeper \<Rightarrow> ('x, 'i) client_ops \<Rightarrow> MsgProxyConnectionOpenAck \<Rightarrow> ('i ctx, unit) prog" where
  "ProxyConnectionOpenAck k D m =
     mbind (mlift (UnpackClientState (cdc k) (coa_DownstreamClientState m))) (\<lambda>downstreamClientState.
     mbind (mlift (UnpackConsensusState (cdc k) (coa_DownstreamConsensusState m))) (\<lambda>downstreamConsensusState.
     mbind (mlift (UnpackClientState (cdc k) (coa_ProxyClientState m))) (\<lambda>proxyClientState.
     ConnOpenAck k D (coa_ConnectionId m) (MerklePfx (coa_UpstreamPrefix m)) (coa_Connection m)
       downstreamClientState downstreamConsensusState proxyClientState
       (coa_ProofTry m) (coa_ProofClient m) (coa_ProofConsensus m) (coa_ProofHeight m) (coa_ConsensusHeight m)
       (coa_ProofProxyClient m) (coa_ProofProxyConsensus m) (coa_ProofProxyHeight m)
       (coa_ProxyConsensusHeight m))))"

definition ProxyConnectionOpenConfirm ::
  "('x, 'i) Keeper \<Rightarrow> ('x, 'i) client_ops \<Rightarrow> MsgProxyConnectionOpenConfirm \<Rightarrow> ('i ctx, unit) prog" where
  "ProxyConnectionOpenConfirm k D m =
     ConnOpenConfirm k D (coc_ConnectionId m) (coc_UpstreamClientId m) (MerklePfx (coc_UpstreamPrefix m))
       (coc_CounterpartyConnectionId m) (coc_ProofAck m) (coc_ProofHeight m)"

definition ProxyConnectionOpenFinalize ::
  "('x, 'i) Keeper \<Rightarrow> ('x, 'i) client_ops \<Rightarrow> MsgProxyConnectionOpenFinalize \<Rightarrow> ('i ctx, unit) prog" where
  "ProxyConnectionOpenFinalize k D m =
     ConnOpenFinalize k D (cof_ConnectionId m) (cof_UpstreamClientId m) (MerklePfx (cof_UpstreamPrefix m))
       (cof_ProofConfirm m) (cof_ProofHeight m)"

definition ProxyChannelOpenTry ::
  "('x, 'i) Keeper \<Rightarrow> ('x, 'i) client_ops \<Rightarrow> MsgProxyChannelOpenTry \<Rightarrow> ('i ctx, unit) prog" where
  "ProxyChannelOpenTry k D m =
     ChanOpenTry k D (hot_UpstreamClientId m) (MerklePfx (hot_UpstreamPrefix m)) (hot_Order m)
       (hot_ConnectionHops m) (hot_PortId m) (hot_ChannelId m) (hot_DownstreamPortId m) (hot_Version m)
       (hot_ProofInit m) (hot_ProofHeight m)"

definition ProxyChannelOpenAck ::
  "('x, 'i) Keeper \<Rightarrow> ('x, 'i) client_ops \<Rightarrow> MsgProxyChannelOpenAck \<Rightarrow> ('i ctx, unit) prog" where
  "ProxyChannelOpenAck k D m =
     ChanOpenAck k D (hoa_UpstreamClientId m) (MerklePfx (hoa_UpstreamPrefix m)) (hoa_Order m)
       (hoa_ConnectionHops m) (hoa_PortId m) (hoa_ChannelId m) (hoa_DownstreamPortId m)
       (hoa_DownstreamChannelId m) (hoa_Version m) (hoa_ProofTry m) (hoa_ProofHeight m)"

definition ProxyChannelOpenConfirm ::
  "('x, 'i) Keeper \<Rightarrow> ('x, 'i) client_ops \<Rightarrow> MsgProxyChannelOpenConfirm \<Rightarrow> ('i ctx, unit) prog" where
  "ProxyChannelOpenConfirm k D m =
     ChanOpenConfirm k D (hoc_UpstreamClientId m) (MerklePfx (hoc_UpstreamPrefix m)) (hoc_PortId m)
       (hoc_ChannelId m) (hoc_DownstreamChannelId m) (hoc_ProofAck m) (hoc_ProofHeight m)"

definition ProxyChannelOpenFinalize ::
  "('x, 'i) Keeper \<Rightarrow> ('x, 'i) client_ops \<Rightarrow> MsgProxyChannelOpenFinalize \<Rightarrow> ('i ctx, unit) prog" where
  "ProxyChannelOpenFinalize k D m =
     ChanOpenFinalize k D (hof_UpstreamClientId m) (MerklePfx (hof_UpstreamPrefix m)) (hof_PortId m)
       (hof_ChannelId m) (hof_ProofConfirm m) (hof_ProofHeight m)"

definition ProxyRecvPacket ::
  "('x, 'i) Keeper \<Rightarrow> ('x, 'i) client_ops \<Rightarrow> MsgProxyRecvPacket \<Rightarrow> ('i ctx, unit) prog" where
  "ProxyRecvPacket k D m =
     RecvPacket k D (prp_UpstreamClientId m) (MerklePfx (prp_UpstreamPrefix m)) (prp_Packet m)
       (prp_Proof m) (prp_ProofHeight m)"

definition ProxyAcknowledgePacket ::
  "('x, 'i) Keeper \<Rightarrow> ('x, 'i) client_ops \<Rightarrow> MsgProxyAcknowledgePacket \<Rightarrow> ('i ctx, unit) prog" where
  "ProxyAcknowledgePacket k D m =
     AcknowledgePacket k D (pap_UpstreamClientId m) (MerklePfx (pap_UpstreamPrefix m)) (pap_Packet m)
       (pap_Acknowledgement m) (pap_Proof m) (pap_ProofHeight m)"

fun handle :: "('x, 'i) Keeper \<Rightarrow> ('x, 'i) client_ops \<Rightarrow> msg \<Rightarrow> ('i ctx, unit) prog" where
  "handle k D (ClientState_msg m) = Server_ProxyClientState k D m"
| "handle k D (ConnectionOpenTry_msg m) = ProxyConnectionOpenTry k D m"
| "handle k D (ConnectionOpenAck_msg m) = ProxyConnectionOpenAck k D m"
| "handle k D (ConnectionOpenConfirm_msg m) = ProxyConnectionOpenConfirm k D m"
| "handle k D (ConnectionOpenFinalize_msg m) = ProxyConnectionOpenFinalize k D m"
| "handle k D (ChannelOpenTry_msg m) = ProxyChannelOpenTry k D m"
| "handle k D (ChannelOpenAck_msg m) = ProxyChannelOpenAck k D m"
| "handle k D (ChannelOpenConfirm_msg m) = ProxyChannelOpenConfirm k D m"
| "handle k D (ChannelOpenFinalize_msg m) = ProxyChannelOpenFinalize k D m"
| "handle k D (RecvPacket_msg m) = ProxyRecvPacket k D m"
| "handle k D (AcknowledgePacket_msg m) = ProxyAcknowledgePacket k D m"

lemmas server_defs = Server_ProxyClientState_def ProxyConnectionOpenTry_def ProxyConnectionOpenAck_def
  ProxyConnectionOpenConfirm_def ProxyConnectionOpenFinalize_def ProxyChannelOpenTry_def
  ProxyChannelOpenAck_def ProxyChannelOpenConfirm_def ProxyChannelOpenFinalize_def
  ProxyRecvPacket_def ProxyAcknowledgePacket_def

section \<open>Genesis (\<open>genesis.go\<close>)\<close>

text \<open>The genesis state has no fields; importing it does nothing and nothing is exported.\<close>

datatype GenesisState = GenesisState

definition InitGenesis :: "('x, 'i) Keeper \<Rightarrow> GenesisState \<Rightarrow> ('i ctx, unit) prog" where
  "InitGenesis k state = mret ()"

definition ExportGenesis :: "('x, 'i) Keeper \<Rightarrow> ('i ctx, GenesisState) prog" where
  "ExportGenesis k = mret GenesisState"

section \<open>Runs\<close>

fun upstream_prefix :: "msg \<Rightarrow> MerklePrefix" where
  "upstream_prefix (ClientState_msg m) = pcs_UpstreamPrefix m"
| "upstream_prefix (ConnectionOpenTry_msg m) = cot_UpstreamPrefix m"
| "upstream_prefix (ConnectionOpenAck_msg m) = coa_UpstreamPrefix m"
| "upstream_prefix (ConnectionOpenConfirm_msg m) = coc_UpstreamPrefix m"
| "upstream_prefix (ConnectionOpenFinalize_msg m) = cof_UpstreamPrefix m"
| "upstream_prefix (ChannelOpenTry_msg m) = hot_UpstreamPrefix m"
| "upstream_prefix (ChannelOpenAck_msg m) = hoa_UpstreamPrefix m"
| "upstream_prefix (ChannelOpenConfirm_msg m) = hoc_UpstreamPrefix m"
| "upstream_prefix (ChannelOpenFinalize_msg m) = hof_UpstreamPrefix m"
| "upstream_prefix (RecvPacket_msg m) = prp_UpstreamPrefix m"
| "upstream_prefix (AcknowledgePacket_msg m) = pap_UpstreamPrefix m"

text \<open>
  A message satisfying \<open>ok\<close> is handled, and the state it left is kept (whether it succeeded
  or not: the application that rolls a failed message back makes no step at all); or the
  rest of the chain moves (light clients are updated, blocks are produced) without touching
  the module's store.
\<close>

inductive module_step ::
  "('x, 'i) Keeper \<Rightarrow> ('x, 'i) client_ops \<Rightarrow> (msg \<Rightarrow> bool) \<Rightarrow> 'i ctx \<Rightarrow> 'i ctx \<Rightarrow> bool" for K D ok where
  message: "ok m \<Longrightarrow> handle K D m c = (r, c') \<Longrightarrow> module_step K D ok c c'"
| elsewhere: "proxyStore c' = proxyStore c \<Longrightarrow> module_step K D ok c c'"

inductive_cases module_stepE: "module_step K D ok c c'"

text \<open>
  A relation on states that every message keeps, and that ignores the world, holds across
  whole runs.
\<close>

lemma runs_keep:
  assumes "reflp R" and "transp R"
    and msg: "\<And>m. ok m \<Longrightarrow> keeps R (handle K D m)"
    and env: "\<And>c c'. proxyStore c' = proxyStore c \<Longrightarrow> R c c'"
    and run: "(module_step K D ok)\<^sup>*\<^sup>* c c'"
  shows "R c c'"
  using run
proof (induction rule: rtranclp_induct)
  case base
  then show ?case using assms(1) by (rule reflpD)
next
  case (step y z)
  from step.hyps(2) have "R y z"
    by (rule module_stepE) (use msg env assms(1) in \<open>auto dest: keepsD reflpD\<close>)
  then show ?case by (rule transpD [OF assms(2) step.IH])
qed

lemma conn_le_handle:
  assumes L: "ics24_paths (cdc K)" and ids: "client_ids_ok (clientKeeper K)" and cod: "codec_ok (cdc K)"
    and p: "no_slash (PrefixBytes (cdc K) (MerklePfx (upstream_prefix m)))"
  shows "keeps (conn_le K) (handle K D m)"
  using p
  by (cases m) (simp_all add: server_defs conn_le_ConnOpen [OF L ids cod] conn_le_Chan_Packet [OF L ids]
      conn_frame.keeps_mlift_bind)

text \<open>The messages whose upstream prefix has no slash.\<close>

definition plain_prefix :: "('x, 'i) Keeper \<Rightarrow> msg \<Rightarrow> bool" where
  "plain_prefix K m \<longleftrightarrow> no_slash (PrefixBytes (cdc K) (MerklePfx (upstream_prefix m)))"

lemma conn_le_run:
  assumes "ics24_paths (cdc K)" and "client_ids_ok (clientKeeper K)" and "codec_ok (cdc K)"
    and "(module_step K D (plain_prefix K))\<^sup>*\<^sup>* c c'"
  shows "conn_le K c c'"
proof (rule runs_keep [OF _ _ _ _ assms(4)])
  show "reflp (conn_le K)" by (rule reflpI) (rule conn_frame.frame_refl)
  show "transp (conn_le K)" by (rule transpI) (rule conn_frame.frame_trans)
  show "keeps (conn_le K) (handle K D m)" if "plain_prefix K m" for m
    using that by (intro conn_le_handle assms(1-3)) (simp add: plain_prefix_def)
  show "conn_le K c c'" if "proxyStore c' = proxyStore c" for c c'
    using that by (intro conn_same_le) (auto simp: conn_same_def intro: conn_of_local)
qed

section \<open>Which part of the store a message may change\<close>

text \<open>The upstream chain a message speaks for.\<close>

definition self_names :: "'x lib \<Rightarrow> Any option \<Rightarrow> string \<Rightarrow> bool" where
  "self_names L a u \<longleftrightarrow> (case UnpackClientState L a of Ok (ProxyClient p) \<Rightarrow> u = UpstreamClientId p | _ \<Rightarrow> False)"

fun speaks_for :: "'x lib \<Rightarrow> msg \<Rightarrow> string \<Rightarrow> bool" where
  "speaks_for L (ClientState_msg m) u = (u = pcs_UpstreamClientId m)"
| "speaks_for L (ConnectionOpenTry_msg m) u = self_names L (cot_ProxyClientState m) u"
| "speaks_for L (ConnectionOpenAck_msg m) u = self_names L (coa_ProxyClientState m) u"
| "speaks_for L (ConnectionOpenConfirm_msg m) u = (u = coc_UpstreamClientId m)"
| "speaks_for L (ConnectionOpenFinalize_msg m) u = (u = cof_UpstreamClientId m)"
| "speaks_for L (ChannelOpenTry_msg m) u = (u = hot_UpstreamClientId m)"
| "speaks_for L (ChannelOpenAck_msg m) u = (u = hoa_UpstreamClientId m)"
| "speaks_for L (ChannelOpenConfirm_msg m) u = (u = hoc_UpstreamClientId m)"
| "speaks_for L (ChannelOpenFinalize_msg m) u = (u = hof_UpstreamClientId m)"
| "speaks_for L (RecvPacket_msg m) u = (u = prp_UpstreamClientId m)"
| "speaks_for L (AcknowledgePacket_msg m) u = (u = pap_UpstreamClientId m)"

text \<open>
  The height at which the proofs of a message are to be checked and the proofs about the
  upstream chain it carries. \<open>carried\<close>: what a message lets the keeper verify with.
\<close>

fun upstream_proof_height :: "msg \<Rightarrow> Height" where
  "upstream_proof_height (ClientState_msg m) = pcs_ProofHeight m"
| "upstream_proof_height (ConnectionOpenTry_msg m) = cot_ProofHeight m"
| "upstream_proof_height (ConnectionOpenAck_msg m) = coa_ProofHeight m"
| "upstream_proof_height (ConnectionOpenConfirm_msg m) = coc_ProofHeight m"
| "upstream_proof_height (ConnectionOpenFinalize_msg m) = cof_ProofHeight m"
| "upstream_proof_height (ChannelOpenTry_msg m) = hot_ProofHeight m"
| "upstream_proof_height (ChannelOpenAck_msg m) = hoa_ProofHeight m"
| "upstream_proof_height (ChannelOpenConfirm_msg m) = hoc_ProofHeight m"
| "upstream_proof_height (ChannelOpenFinalize_msg m) = hof_ProofHeight m"
| "upstream_proof_height (RecvPacket_msg m) = prp_ProofHeight m"
| "upstream_proof_height (AcknowledgePacket_msg m) = pap_ProofHeight m"

fun upstream_proofs :: "msg \<Rightarrow> bytes list" where
  "upstream_proofs (ClientState_msg m) = [pcs_ProofClient m, pcs_ProofConsensus m]"
| "upstream_proofs (ConnectionOpenTry_msg m) = [cot_ProofInit m, cot_ProofClient m, cot_ProofConsensus m]"
| "upstream_proofs (ConnectionOpenAck_msg m) = [coa_ProofTry m, coa_ProofClient m, coa_ProofConsensus m]"
| "upstream_proofs (ConnectionOpenConfirm_msg m) = [coc_ProofAck m]"
| "upstream_proofs (ConnectionOpenFinalize_msg m) = [cof_ProofConfirm m]"
| "upstream_proofs (ChannelOpenTry_msg m) = [hot_ProofInit m]"
| "upstream_proofs (ChannelOpenAck_msg m) = [hoa_ProofTry m]"
| "upstream_proofs (ChannelOpenConfirm_msg m) = [hoc_ProofAck m]"
| "upstream_proofs (ChannelOpenFinalize_msg m) = [hof_ProofConfirm m]"
| "upstream_proofs (RecvPacket_msg m) = [prp_Proof m]"
| "upstream_proofs (AcknowledgePacket_msg m) = [pap_Proof m]"

definition carried :: "'x lib \<Rightarrow> msg \<Rightarrow> string \<Rightarrow> prefix \<Rightarrow> Height \<Rightarrow> bytes \<Rightarrow> bool" where
  "carried L m u p h pr \<longleftrightarrow> speaks_for L m u \<and> p = MerklePfx (upstream_prefix m) \<and>
     h = upstream_proof_height m \<and> pr \<in> set (upstream_proofs m)"

text \<open>Handling a message is a sequence of verify-and-record operations with what it carries.\<close>

lemma mirrors_handle:
  assumes L: "ics24_paths (cdc K)"
  shows "keeps (mirrors K D (carried (cdc K) m)) (handle K D m)"
proof (cases m)
  case (ConnectionOpenTry_msg x)
  then show ?thesis
    by (auto simp: server_defs self_names_def carried_def intro!: mirror.keeps_mlift_bind mirrors_ConnOpen [OF L])
next
  case (ConnectionOpenAck_msg x)
  then show ?thesis
    by (auto simp: server_defs self_names_def carried_def intro!: mirror.keeps_mlift_bind mirrors_ConnOpen [OF L])
qed (auto simp: server_defs carried_def intro!: mirror.keeps_mlift_bind mirrors_ConnOpened [OF L] mirrors_Chan_Packet [OF L])

text \<open>
  An entry that appears or changes during a run was recorded by a message of the run, while
  it was handled in the state that the run had then reached.
\<close>

lemma run_entry:
  assumes L: "ics24_paths (cdc K)" and run: "(module_step K D ok)\<^sup>*\<^sup>* c c'"
    and "proxyStore c' key = Some b" and "proxyStore c key \<noteq> Some b"
  obtains c1 m r c2 u p f where "(module_step K D ok)\<^sup>*\<^sup>* c c1" and "ok m" and "handle K D m c1 = (r, c2)"
    and "(module_step K D ok)\<^sup>*\<^sup>* c2 c'" and "proxyStore c1 key \<noteq> Some b" and "proxyStore c2 key = Some b"
    and "records K D (carried (cdc K) m) c1 c2 u p f"
    and "key = slot_path (cdc K) p u (fact_slot f)" and "fact_value (cdc K) f = Ok b"
proof -
  obtain c1 c2 where run1: "(module_step K D ok)\<^sup>*\<^sup>* c c1" and step: "module_step K D ok c1 c2"
    and new: "proxyStore c1 key \<noteq> Some b" "proxyStore c2 key = Some b" and run2: "(module_step K D ok)\<^sup>*\<^sup>* c2 c'"
    using rtranclp_crossing [OF run, of "\<lambda>s. proxyStore s key = Some b"] assms(3,4) by blast
  from step obtain m r where m: "ok m" "handle K D m c1 = (r, c2)"
    by (rule module_stepE) (use new in auto)
  from mirrors_entry [OF keepsD [OF mirrors_handle [OF L] m(2)] new(2,1)] show ?thesis
    using that [OF run1 m run2 new] by blast
qed

definition below :: "('x, 'i) Keeper \<Rightarrow> prefix \<Rightarrow> (string \<Rightarrow> bool) \<Rightarrow> 'i ctx \<Rightarrow> 'i ctx \<Rightarrow> bool" where
  "below K p U c c' \<longleftrightarrow>
     (\<forall>key. proxyStore c' key \<noteq> proxyStore c key \<longrightarrow> (\<exists>u x. U u \<and> key = slot_path (cdc K) p u x))"

interpretation below_frame: state_frame "below K p U" for K :: "('x, 'i) Keeper" and p U
  by unfold_locales (auto simp: below_def, metis)

lemma mirrors_below:
  assumes "mirrors K D (carried (cdc K) m) c c'"
  shows "below K (MerklePfx (upstream_prefix m)) (speaks_for (cdc K) m) c c'"
  using assms
proof (induction rule: rtranclp_induct)
  case (step y z)
  from step.hyps(2) have "below K (MerklePfx (upstream_prefix m)) (speaks_for (cdc K) m) y z"
    by (rule mirror_stepE) (erule proxy_fact_cases, auto simp: below_def carried_def)
  then show ?case by (rule below_frame.frame_trans [OF step.IH])
qed (rule below_frame.frame_refl)

lemma below_handle:
  assumes L: "ics24_paths (cdc K)"
  shows "keeps (below K (MerklePfx (upstream_prefix m)) (speaks_for (cdc K) m)) (handle K D m)"
  by (rule keepsI) (rule mirrors_below [OF keepsD [OF mirrors_handle [OF L] prod.collapse [symmetric]]])

section \<open>Messages that cannot be unpacked\<close>

text \<open>The packed states of a message, and whether they all unpack.\<close>

fun unpacks :: "'x lib \<Rightarrow> msg \<Rightarrow> bool" where
  "unpacks L (ClientState_msg m) \<longleftrightarrow>
     is_ok (UnpackClientState L (pcs_ClientState m)) \<and> is_ok (UnpackConsensusState L (pcs_ConsensusState m))"
| "unpacks L (ConnectionOpenTry_msg m) \<longleftrightarrow>
     is_ok (UnpackClientState L (cot_DownstreamClientState m)) \<and>
     is_ok (UnpackConsensusState L (cot_DownstreamConsensusState m)) \<and>
     is_ok (UnpackClientState L (cot_ProxyClientState m))"
| "unpacks L (ConnectionOpenAck_msg m) \<longleftrightarrow>
     is_ok (UnpackClientState L (coa_DownstreamClientState m)) \<and>
     is_ok (UnpackConsensusState L (coa_DownstreamConsensusState m)) \<and>
     is_ok (UnpackClientState L (coa_ProxyClientState m))"
| "unpacks L m \<longleftrightarrow> True"

definition fails_still :: "('s, 'a) prog \<Rightarrow> 's \<Rightarrow> bool" where
  "fails_still m c \<longleftrightarrow> snd (m c) = c \<and> \<not> is_ok (fst (m c))"

lemma fails_still_bind: "(\<And>x. r = Ok x \<Longrightarrow> fails_still (f x) c) \<Longrightarrow> fails_still (mbind (mlift r) f) c"
  by (cases r) (simp_all add: fails_still_def)

lemma handle_unpack_fails: "\<not> unpacks (cdc K) m \<Longrightarrow> fails_still (handle K D m) c"
  by (cases m) (auto simp: server_defs intro!: fails_still_bind)

end
