(* ===== verification/Fixtures.thy ===== *)
theory Fixtures
  imports Client_Dispatch
begin

text \<open>
  A concrete instance of the parameters, on which the properties are applied: a codec that
  really encodes and decodes every value, the ICS-24 paths, a light client whose
  proofs are the byte \<open>1\<close>, and a client keeper. The lemmas show that all hypotheses of
  the development hold of it at once.
\<close>

section \<open>A serialiser\<close>

type_synonym 'a decoder = "bytes \<Rightarrow> ('a \<times> bytes) option"

definition and_then :: "('a \<times> bytes) option \<Rightarrow> ('a \<Rightarrow> 'b decoder) \<Rightarrow> ('b \<times> bytes) option" where
  "and_then v f = (case v of None \<Rightarrow> None | Some (x, r) \<Rightarrow> f x r)"

lemma and_then_Some [simp]: "and_then (Some (x, r)) f = f x r"
  by (simp add: and_then_def)

lemma and_then_eq_Some: "and_then v f = Some y \<longleftrightarrow> (\<exists>x r. v = Some (x, r) \<and> f x r = Some y)"
  by (auto simp: and_then_def split: option.splits)

definition enc_nat :: "nat \<Rightarrow> bytes" where
  "enc_nat n = replicate n 1 @ [0]"

fun dec_nat :: "nat decoder" where
  "dec_nat [] = None"
| "dec_nat (b # r) = (if b = 1 then and_then (dec_nat r) (\<lambda>n r. Some (Suc n, r)) else Some (0, r))"

definition enc_bytes :: "bytes \<Rightarrow> bytes" where
  "enc_bytes b = enc_nat (length b) @ b"

definition dec_bytes :: "bytes decoder" where
  "dec_bytes s = and_then (dec_nat s) (\<lambda>n r. if n \<le> length r then Some (take n r, drop n r) else None)"

definition enc_string :: "string \<Rightarrow> bytes" where
  "enc_string s = enc_bytes (map (\<lambda>c. word_of_nat (of_char c)) s)"

definition dec_string :: "string decoder" where
  "dec_string s = and_then (dec_bytes s) (\<lambda>b r. Some (map (\<lambda>w. char_of (unat w)) b, r))"

definition enc_word :: "'a::len word \<Rightarrow> bytes" where
  "enc_word w = enc_string (decimal (unat w))"

definition dec_word :: "('a::len word) decoder" where
  "dec_word s = and_then (dec_string s) (\<lambda>d r. Some (word_of_nat (value_of d), r))"

definition enc_list :: "('a \<Rightarrow> bytes) \<Rightarrow> 'a list \<Rightarrow> bytes" where
  "enc_list e xs = enc_nat (length xs) @ concat (map e xs)"

primrec dec_items :: "'a decoder \<Rightarrow> nat \<Rightarrow> 'a list decoder" where
  "dec_items d 0 s = Some ([], s)"
| "dec_items d (Suc n) s = and_then (d s) (\<lambda>x r. and_then (dec_items d n r) (\<lambda>xs r. Some (x # xs, r)))"

definition dec_list :: "'a decoder \<Rightarrow> 'a list decoder" where
  "dec_list d s = and_then (dec_nat s) (dec_items d)"

definition enc_option :: "('a \<Rightarrow> bytes) \<Rightarrow> 'a option \<Rightarrow> bytes" where
  "enc_option e v = (case v of None \<Rightarrow> enc_nat 0 | Some x \<Rightarrow> enc_nat 1 @ e x)"

definition dec_option :: "'a decoder \<Rightarrow> 'a option decoder" where
  "dec_option d s = and_then (dec_nat s) (\<lambda>n r. if n = 0 then Some (None, r)
     else and_then (d r) (\<lambda>x r. Some (Some x, r)))"

named_theorems dec_enc \<open>the decoders read what the encoders wrote\<close>
named_theorems dec_size \<open>the length of what a decoder read and of what it left\<close>

lemma dec_enc_nat [dec_enc]: "dec_nat (enc_nat n @ r) = Some (n, r)"
  by (induction n) (simp_all add: enc_nat_def)

lemma dec_enc_bytes [dec_enc]: "dec_bytes (enc_bytes b @ r) = Some (b, r)"
  by (simp add: dec_bytes_def enc_bytes_def dec_enc)

lemma char_of_byte: "char_of (unat (word_of_nat (of_char c) :: byte)) = c"
proof -
  have "(of_char c :: nat) < 256" by simp
  then have "unat (word_of_nat (of_char c) :: byte) = of_char c"
    by (simp add: unat_of_nat take_bit_nat_def)
  then show ?thesis by simp
qed

lemma dec_enc_string [dec_enc]: "dec_string (enc_string s @ r) = Some (s, r)"
  by (simp add: dec_string_def enc_string_def dec_enc comp_def char_of_byte)

lemma dec_enc_word [dec_enc]: "dec_word (enc_word w @ r) = Some (w, r)"
  by (simp add: dec_word_def enc_word_def dec_enc value_of_decimal)

lemma dec_enc_items:
  assumes "\<And>x r. d (e x @ r) = Some (x, r)"
  shows "dec_items d (length xs) (concat (map e xs) @ r) = Some (xs, r)"
  by (induction xs) (simp_all add: assms)

lemma dec_enc_list [dec_enc]:
  assumes "\<And>x r. d (e x @ r) = Some (x, r)"
  shows "dec_list d (enc_list e xs @ r) = Some (xs, r)"
  by (simp add: dec_list_def enc_list_def dec_enc dec_enc_items assms)

lemma dec_enc_option [dec_enc]:
  assumes "\<And>x r. d (e x @ r) = Some (x, r)"
  shows "dec_option d (enc_option e v @ r) = Some (v, r)"
  by (cases v) (simp_all add: dec_option_def enc_option_def dec_enc assms)

lemma dec_nat_size: "dec_nat s = Some (n, r) \<Longrightarrow> n + length r < length s"
  by (induction s arbitrary: n) (auto simp: and_then_eq_Some split: if_splits)

lemma dec_bytes_size [dec_size]: "dec_bytes s = Some (b, r) \<Longrightarrow> length b + length r < length s"
  by (auto simp: dec_bytes_def and_then_eq_Some dest!: dec_nat_size split: if_splits)

lemma dec_string_size [dec_size]: "dec_string s = Some (x, r) \<Longrightarrow> length r < length s"
  by (auto simp: dec_string_def and_then_eq_Some dest!: dec_bytes_size)

lemma dec_word_size [dec_size]: "dec_word s = Some (x, r) \<Longrightarrow> length r < length s"
  by (auto simp: dec_word_def and_then_eq_Some dest!: dec_string_size)

section \<open>Records\<close>

definition enc_Height :: "Height \<Rightarrow> bytes" where
  "enc_Height x = enc_word (RevisionNumber x) @ enc_word (RevisionHeight x)"

definition dec_Height :: "Height decoder" where
  "dec_Height s =
     and_then (dec_word s) (\<lambda>v0 s.
     and_then (dec_word s) (\<lambda>v1 s.
     Some (\<lparr>RevisionNumber = v0, RevisionHeight = v1\<rparr>, s)))"

lemma dec_enc_Height [dec_enc]: "dec_Height (enc_Height x @ r) = Some (x, r)"
  by (simp add: dec_Height_def enc_Height_def dec_enc)

definition enc_Any :: "Any \<Rightarrow> bytes" where
  "enc_Any x = enc_string (TypeUrl x) @ enc_bytes (AnyValue x)"

definition dec_Any :: "Any decoder" where
  "dec_Any s =
     and_then (dec_string s) (\<lambda>v0 s.
     and_then (dec_bytes s) (\<lambda>v1 s.
     Some (\<lparr>TypeUrl = v0, AnyValue = v1\<rparr>, s)))"

lemma dec_enc_Any [dec_enc]: "dec_Any (enc_Any x @ r) = Some (x, r)"
  by (simp add: dec_Any_def enc_Any_def dec_enc)

definition enc_Version :: "Version \<Rightarrow> bytes" where
  "enc_Version x = enc_string (Identifier x) @ (enc_list enc_string) (Features x)"

definition dec_Version :: "Version decoder" where
  "dec_Version s =
     and_then (dec_string s) (\<lambda>v0 s.
     and_then ((dec_list dec_string) s) (\<lambda>v1 s.
     Some (\<lparr>Identifier = v0, Features = v1\<rparr>, s)))"

lemma dec_enc_Version [dec_enc]: "dec_Version (enc_Version x @ r) = Some (x, r)"
  by (simp add: dec_Version_def enc_Version_def dec_enc)

definition enc_ConnCp :: "ConnCounterparty \<Rightarrow> bytes" where
  "enc_ConnCp x = enc_string (CpClientId x) @ enc_string (CpConnectionId x) @ enc_string (CpPrefix x)"

definition dec_ConnCp :: "ConnCounterparty decoder" where
  "dec_ConnCp s =
     and_then (dec_string s) (\<lambda>v0 s.
     and_then (dec_string s) (\<lambda>v1 s.
     and_then (dec_string s) (\<lambda>v2 s.
     Some (\<lparr>CpClientId = v0, CpConnectionId = v1, CpPrefix = v2\<rparr>, s))))"

lemma dec_enc_ConnCp [dec_enc]: "dec_ConnCp (enc_ConnCp x @ r) = Some (x, r)"
  by (simp add: dec_ConnCp_def enc_ConnCp_def dec_enc)

definition enc_ConnectionEnd :: "ConnectionEnd \<Rightarrow> bytes" where
  "enc_ConnectionEnd x = enc_string (ClientId x) @ (enc_list enc_Version) (Versions x) @ enc_word (ConnState x) @ enc_ConnCp (ConnCp x) @ enc_word (DelayPeriod x)"

definition dec_ConnectionEnd :: "ConnectionEnd decoder" where
  "dec_ConnectionEnd s =
     and_then (dec_string s) (\<lambda>v0 s.
     and_then ((dec_list dec_Version) s) (\<lambda>v1 s.
     and_then (dec_word s) (\<lambda>v2 s.
     and_then (dec_ConnCp s) (\<lambda>v3 s.
     and_then (dec_word s) (\<lambda>v4 s.
     Some (\<lparr>ClientId = v0, Versions = v1, ConnState = v2, ConnCp = v3, DelayPeriod = v4\<rparr>, s))))))"

lemma dec_enc_ConnectionEnd [dec_enc]: "dec_ConnectionEnd (enc_ConnectionEnd x @ r) = Some (x, r)"
  by (simp add: dec_ConnectionEnd_def enc_ConnectionEnd_def dec_enc)

definition enc_ChanCp :: "ChanCounterparty \<Rightarrow> bytes" where
  "enc_ChanCp x = enc_string (CpPortId x) @ enc_string (CpChannelId x)"

definition dec_ChanCp :: "ChanCounterparty decoder" where
  "dec_ChanCp s =
     and_then (dec_string s) (\<lambda>v0 s.
     and_then (dec_string s) (\<lambda>v1 s.
     Some (\<lparr>CpPortId = v0, CpChannelId = v1\<rparr>, s)))"

lemma dec_enc_ChanCp [dec_enc]: "dec_ChanCp (enc_ChanCp x @ r) = Some (x, r)"
  by (simp add: dec_ChanCp_def enc_ChanCp_def dec_enc)

definition enc_Channel :: "Channel \<Rightarrow> bytes" where
  "enc_Channel x = enc_word (ChanState x) @ enc_word (Ordering x) @ enc_ChanCp (ChanCp x) @ (enc_list enc_string) (ConnectionHops x) @ enc_string (ChanVersion x)"

definition dec_Channel :: "Channel decoder" where
  "dec_Channel s =
     and_then (dec_word s) (\<lambda>v0 s.
     and_then (dec_word s) (\<lambda>v1 s.
     and_then (dec_ChanCp s) (\<lambda>v2 s.
     and_then ((dec_list dec_string) s) (\<lambda>v3 s.
     and_then (dec_string s) (\<lambda>v4 s.
     Some (\<lparr>ChanState = v0, Ordering = v1, ChanCp = v2, ConnectionHops = v3, ChanVersion = v4\<rparr>, s))))))"

lemma dec_enc_Channel [dec_enc]: "dec_Channel (enc_Channel x @ r) = Some (x, r)"
  by (simp add: dec_Channel_def enc_Channel_def dec_enc)

definition enc_ProxyCS :: "ProxyClientState \<Rightarrow> bytes" where
  "enc_ProxyCS x = (enc_option enc_Any) (ProxyClientStateAny x) @ enc_string (UpstreamClientId x) @ (enc_option enc_string) (ProxyPrefix x) @ (enc_option enc_string) (IbcPrefix x)"

definition dec_ProxyCS :: "ProxyClientState decoder" where
  "dec_ProxyCS s =
     and_then ((dec_option dec_Any) s) (\<lambda>v0 s.
     and_then (dec_string s) (\<lambda>v1 s.
     and_then ((dec_option dec_string) s) (\<lambda>v2 s.
     and_then ((dec_option dec_string) s) (\<lambda>v3 s.
     Some (\<lparr>ProxyClientStateAny = v0, UpstreamClientId = v1, ProxyPrefix = v2, IbcPrefix = v3\<rparr>, s)))))"

lemma dec_enc_ProxyCS [dec_enc]: "dec_ProxyCS (enc_ProxyCS x @ r) = Some (x, r)"
  by (simp add: dec_ProxyCS_def enc_ProxyCS_def dec_enc)

definition enc_ProxyCons :: "ProxyConsensusState \<Rightarrow> bytes" where
  "enc_ProxyCons x = (enc_option enc_Any) (ProxyConsensusStateAny x)"

definition dec_ProxyCons :: "ProxyConsensusState decoder" where
  "dec_ProxyCons s =
     and_then ((dec_option dec_Any) s) (\<lambda>v0 s.
     Some (\<lparr>ProxyConsensusStateAny = v0\<rparr>, s))"

lemma dec_enc_ProxyCons [dec_enc]: "dec_ProxyCons (enc_ProxyCons x @ r) = Some (x, r)"
  by (simp add: dec_ProxyCons_def enc_ProxyCons_def dec_enc)

definition enc_MultivCS :: "MultivClientState \<Rightarrow> bytes" where
  "enc_MultivCS x = (enc_option enc_Any) (UnderlyingClientState x) @ enc_word (Depth x)"

definition dec_MultivCS :: "MultivClientState decoder" where
  "dec_MultivCS s =
     and_then ((dec_option dec_Any) s) (\<lambda>v0 s.
     and_then (dec_word s) (\<lambda>v1 s.
     Some (\<lparr>UnderlyingClientState = v0, Depth = v1\<rparr>, s)))"

lemma dec_enc_MultivCS [dec_enc]: "dec_MultivCS (enc_MultivCS x @ r) = Some (x, r)"
  by (simp add: dec_MultivCS_def enc_MultivCS_def dec_enc)

definition enc_Proof :: "Proof \<Rightarrow> bytes" where
  "enc_Proof x = enc_bytes (ClientProof x) @ (enc_option enc_Any) (ClientState x) @ enc_bytes (ConsensusProof x) @ (enc_option enc_Any) (ConsensusState x) @ enc_Height (ProofHeight x) @ enc_Height (ConsensusHeight x)"

definition dec_Proof :: "Proof decoder" where
  "dec_Proof s =
     and_then (dec_bytes s) (\<lambda>v0 s.
     and_then ((dec_option dec_Any) s) (\<lambda>v1 s.
     and_then (dec_bytes s) (\<lambda>v2 s.
     and_then ((dec_option dec_Any) s) (\<lambda>v3 s.
     and_then (dec_Height s) (\<lambda>v4 s.
     and_then (dec_Height s) (\<lambda>v5 s.
     Some (\<lparr>ClientProof = v0, ClientState = v1, ConsensusProof = v2, ConsensusState = v3, ProofHeight = v4, ConsensusHeight = v5\<rparr>, s)))))))"

lemma dec_enc_Proof [dec_enc]: "dec_Proof (enc_Proof x @ r) = Some (x, r)"
  by (simp add: dec_Proof_def enc_Proof_def dec_enc)

definition enc_Leaf :: "LeafProof \<Rightarrow> bytes" where
  "enc_Leaf x = enc_bytes (LfProof x) @ enc_Height (LfProofHeight x)"

definition dec_Leaf :: "LeafProof decoder" where
  "dec_Leaf s =
     and_then (dec_bytes s) (\<lambda>v0 s.
     and_then (dec_Height s) (\<lambda>v1 s.
     Some (\<lparr>LfProof = v0, LfProofHeight = v1\<rparr>, s)))"

lemma dec_enc_Leaf [dec_enc]: "dec_Leaf (enc_Leaf x @ r) = Some (x, r)"
  by (simp add: dec_Leaf_def enc_Leaf_def dec_enc)

definition enc_MultiProof :: "MultiProof \<Rightarrow> bytes" where
  "enc_MultiProof x = enc_Proof (Head x) @ (enc_list enc_Proof) (Branches x) @ enc_Leaf (Leaf x)"

definition dec_MultiProof :: "MultiProof decoder" where
  "dec_MultiProof s =
     and_then (dec_Proof s) (\<lambda>v0 s.
     and_then ((dec_list dec_Proof) s) (\<lambda>v1 s.
     and_then (dec_Leaf s) (\<lambda>v2 s.
     Some (\<lparr>Head = v0, Branches = v1, Leaf = v2\<rparr>, s))))"

lemma dec_enc_MultiProof [dec_enc]: "dec_MultiProof (enc_MultiProof x @ r) = Some (x, r)"
  by (simp add: dec_MultiProof_def enc_MultiProof_def dec_enc)

section \<open>Client and consensus states\<close>

fun enc_client :: "nat client_state \<Rightarrow> bytes" where
  "enc_client (ExternalClient x) = enc_nat 0 @ enc_nat x"
| "enc_client (ProxyClient p) = enc_nat 1 @ enc_ProxyCS p"
| "enc_client (MultivClient m) = enc_nat 2 @ enc_MultivCS m"

definition dec_client :: "nat client_state decoder" where
  "dec_client s = and_then (dec_nat s) (\<lambda>tag s.
     if tag = 0 then and_then (dec_nat s) (\<lambda>x r. Some (ExternalClient x, r))
     else if tag = 1 then and_then (dec_ProxyCS s) (\<lambda>p r. Some (ProxyClient p, r))
     else and_then (dec_MultivCS s) (\<lambda>m r. Some (MultivClient m, r)))"

fun enc_consensus :: "nat consensus_state \<Rightarrow> bytes" where
  "enc_consensus (ExternalConsensus x) = enc_nat 0 @ enc_nat x"
| "enc_consensus (ProxyConsensus p) = enc_nat 1 @ enc_ProxyCons p"

definition dec_consensus :: "nat consensus_state decoder" where
  "dec_consensus s = and_then (dec_nat s) (\<lambda>tag s.
     if tag = 0 then and_then (dec_nat s) (\<lambda>x r. Some (ExternalConsensus x, r))
     else and_then (dec_ProxyCons s) (\<lambda>p r. Some (ProxyConsensus p, r)))"

lemma dec_enc_client [dec_enc]: "dec_client (enc_client c @ r) = Some (c, r)"
  by (cases c) (simp_all add: dec_client_def dec_enc)

lemma dec_enc_consensus [dec_enc]: "dec_consensus (enc_consensus k @ r) = Some (k, r)"
  by (cases k) (simp_all add: dec_consensus_def dec_enc)

lemma enc_client_nonempty [simp]: "enc_client c \<noteq> []"
  by (cases c) (simp_all add: enc_nat_def)

lemma enc_consensus_nonempty [simp]: "enc_consensus c \<noteq> []"
  by (cases c) (simp_all add: enc_nat_def)

lemma enc_string_nonempty [simp]: "enc_string s \<noteq> []" and enc_word_nonempty [simp]: "enc_word w \<noteq> []"
  by (simp_all add: enc_string_def enc_bytes_def enc_nat_def enc_word_def)

lemma enc_ends_nonempty [simp]: "enc_ConnectionEnd c \<noteq> []" "enc_Channel ch \<noteq> []"
  by (simp_all add: enc_ConnectionEnd_def enc_Channel_def)

lemma dec_any_size: "dec_option dec_Any s = Some (a, r) \<Longrightarrow> any_size a + length r < length s"
  by (auto simp: dec_option_def dec_Any_def and_then_eq_Some any_size_def
      dest!: dec_nat_size dec_string_size dec_bytes_size split: if_splits option.splits)

lemma dec_client_size: "dec_client s = Some (c, r) \<Longrightarrow> cs_size c \<le> length s"
  by (auto simp: dec_client_def dec_ProxyCS_def dec_MultivCS_def and_then_eq_Some
      dest!: dec_nat_size dec_any_size split: if_splits)

lemma dec_Height_size: "dec_Height s = Some (h, r) \<Longrightarrow> length r < length s"
  by (auto simp: dec_Height_def and_then_eq_Some dest!: dec_word_size)

lemma dec_Proof_size: "dec_Proof s = Some (p, r) \<Longrightarrow> proof_size p + length r < length s"
  by (auto simp: dec_Proof_def and_then_eq_Some proof_size_def
      dest!: dec_bytes_size dec_any_size dec_Height_size)

lemma dec_items_Proof_size:
  "dec_items dec_Proof n s = Some (ps, r) \<Longrightarrow> sum_list (map proof_size ps) + length r \<le> length s"
proof (induction n arbitrary: s ps)
  case (Suc n)
  then show ?case by (fastforce simp: and_then_eq_Some dest!: dec_Proof_size)
qed simp

lemma dec_MultiProof_size: "dec_MultiProof s = Some (mp, r) \<Longrightarrow> multiproof_size mp \<le> length s"
  by (auto simp: dec_MultiProof_def dec_Leaf_def dec_list_def and_then_eq_Some multiproof_size_def
      dest!: dec_Proof_size dec_items_Proof_size dec_bytes_size dec_nat_size dec_Height_size)

section \<open>The codec and the paths\<close>

definition decoded :: "('a \<times> bytes) option \<Rightarrow> 'a outcome" where
  "decoded v = (case v of None \<Rightarrow> Err (ErrLib ''unmarshal'') | Some (x, r) \<Rightarrow> Ok x)"

definition any_of :: "bytes \<Rightarrow> Any" where
  "any_of b = \<lparr>TypeUrl = ''/any'', AnyValue = b\<rparr>"

fun prefix_bytes :: "prefix \<Rightarrow> string" where
  "prefix_bytes (MerklePfx b) = b"
| "prefix_bytes NilMerklePfx = []"
| "prefix_bytes (MultiPrefix p s) = s"

definition demo_lib :: "nat lib" where
  "demo_lib =
    \<lparr>PackClientState = (\<lambda>c. case c of None \<Rightarrow> Err (ErrLib ''pack'') | Some c \<Rightarrow> Ok (any_of (enc_client c))),
     UnpackClientState = (\<lambda>a. case a of None \<Rightarrow> Err (ErrLib ''unpack'') | Some v \<Rightarrow> decoded (dec_client (AnyValue v))),
     PackConsensusState = (\<lambda>c. case c of None \<Rightarrow> Err (ErrLib ''pack'') | Some c \<Rightarrow> Ok (any_of (enc_consensus c))),
     UnpackConsensusState = (\<lambda>a. case a of None \<Rightarrow> Err (ErrLib ''unpack'')
        | Some v \<Rightarrow> decoded (dec_consensus (AnyValue v))),
     MarshalClientState = (\<lambda>c. Ok (enc_client c)),
     UnmarshalClientState = (\<lambda>b. decoded (dec_client b)),
     MarshalConsensusState = (\<lambda>c. Ok (enc_consensus c)),
     UnmarshalConsensusState = (\<lambda>b. decoded (dec_consensus b)),
     MarshalConnectionEnd = enc_ConnectionEnd,
     UnmarshalConnectionEnd = (\<lambda>b. decoded (dec_ConnectionEnd b)),
     MarshalChannel = enc_Channel,
     UnmarshalChannel = (\<lambda>b. decoded (dec_Channel b)),
     UnpackAnyClientState = (\<lambda>a. case a of None \<Rightarrow> Ok None
        | Some v \<Rightarrow> obind (decoded (dec_client (AnyValue v))) (\<lambda>c. Ok (Some c))),
     UnpackAnyConsensusState = (\<lambda>a. case a of None \<Rightarrow> Ok None
        | Some v \<Rightarrow> obind (decoded (dec_consensus (AnyValue v))) (\<lambda>c. Ok (Some c))),
     UnmarshalProof = (\<lambda>b. obind (decoded (dec_MultiProof b)) (\<lambda>p. Ok (Some (MultiProofVal p)))),
     ClientStateKey = ''clientState'',
     ConsensusStateKey = (\<lambda>h. ''consensusStates/'' @ height_string h),
     FullClientStateKey = (\<lambda>i. ''clients/'' @ i @ ''/clientState''),
     FullConsensusStateKey = (\<lambda>i h. ''clients/'' @ i @ ''/consensusStates/'' @ height_string h),
     ConnectionKey = (\<lambda>i. ''connections/'' @ i),
     ChannelKey = (\<lambda>p c. ''channelEnds/ports/'' @ p @ ''/channels/'' @ c),
     PacketCommitmentKey = (\<lambda>p c n.
        ''commitments/ports/'' @ p @ ''/channels/'' @ c @ ''/sequences/'' @ decimal (unat n)),
     PacketAcknowledgementKey = (\<lambda>p c n.
        ''acks/ports/'' @ p @ ''/channels/'' @ c @ ''/sequences/'' @ decimal (unat n)),
     PacketReceiptKey = (\<lambda>p c n.
        ''receipts/ports/'' @ p @ ''/channels/'' @ c @ ''/sequences/'' @ decimal (unat n)),
     NextSequenceRecvKey = (\<lambda>p c. ''nextSequenceRecv/ports/'' @ p @ ''/channels/'' @ c),
     KeyConsensusStatePrefix = ''consensusStates'',
     CommitPacket = (\<lambda>p. enc_bytes (PacketData p)),
     CommitAcknowledgement = enc_bytes,
     Uint64ToBigEndian = enc_word,
     VerifySupportedFeature = (\<lambda>v f. f \<in> set (Features v)),
     OrderString = (\<lambda>n. if n = 1 then ''ORDER_UNORDERED'' else if n = 2 then ''ORDER_ORDERED''
        else ''ORDER_NONE_UNSPECIFIED''),
     HeightEQ = (=),
     PrefixBytes = prefix_bytes\<rparr>"

lemma demo_paths: "ics24_paths demo_lib"
  by (simp add: ics24_paths_def demo_lib_def)

lemma demo_helpers: "helpers_ok demo_lib"
  by (simp add: helpers_ok_def demo_lib_def)

lemma decoded_enc:
  "decoded (dec_client (enc_client c)) = Ok c"
  "decoded (dec_consensus (enc_consensus k)) = Ok k"
  "decoded (dec_ConnectionEnd (enc_ConnectionEnd cn)) = Ok cn"
  "decoded (dec_Channel (enc_Channel ch)) = Ok ch"
  using dec_enc_client [of c "[]"] dec_enc_consensus [of k "[]"]
    dec_enc_ConnectionEnd [of cn "[]"] dec_enc_Channel [of ch "[]"]
  by (simp_all add: decoded_def)

lemma demo_codec: "codec_ok demo_lib"
  by (auto simp: codec_ok_def demo_lib_def decoded_enc any_of_def)

lemma decoded_Ok: "decoded v = Ok x \<longleftrightarrow> (\<exists>r. v = Some (x, r))"
  by (auto simp: decoded_def split: option.splits)

lemma demo_sizes: "sizes_ok demo_lib"
  by (auto simp: sizes_ok_def demo_lib_def decoded_Ok any_size_def outcome_simps
      dest: dec_client_size dec_MultiProof_size split: option.splits)

lemma demo_halts: "lib_halts demo_lib"
  by (auto simp: lib_halts_def demo_lib_def decoded_def obind_Diverge_iff split: option.splits)

section \<open>A light client outside the repository, and a client keeper\<close>

definition accepts :: "bytes \<Rightarrow> (kvstore, unit) prog" where
  "accepts p = mlift (check (p = [1]) (ErrLib ''invalid proof''))"

definition demo_ops :: "(nat, 'i) client_ops" where
  "demo_ops =
    \<lparr>op_ClientType = (\<lambda>_. Ok ''demo''),
     op_GetLatestHeight = (\<lambda>_. Ok \<lparr>RevisionNumber = 0, RevisionHeight = 7\<rparr>),
     op_Validate = (\<lambda>_. Ok ()), op_GetProofSpecs = (\<lambda>_. Ok []), op_Status = (\<lambda>_ _. mret ''Active''),
     op_Initialize = (\<lambda>_ _ _. mret ()), op_ExportMetadata = (\<lambda>_. mret []),
     op_ZeroCustomFields = (\<lambda>_. Ok (Some (ExternalClient 0))),
     op_CheckHeaderAndUpdateState = (\<lambda>_ _ x. mbind (mput (\<lambda>s. store_Set s ''header'' [1]))
        (\<lambda>_. mret (Some (ExternalClient x), Some (ExternalConsensus x)))),
     op_CheckMisbehaviourAndUpdateState = (\<lambda>_ _ x. mbind (mget (\<lambda>s. store_Get demo_lib s ''consensusStates/0-7''))
        (\<lambda>v. mbind (mlift v) (\<lambda>b. mret (Some (ExternalClient (case b of None \<Rightarrow> 0 | Some l \<Rightarrow> length l)))))),
     op_CheckSubstituteAndUpdateState = (\<lambda>_ _ c. mret (Some c, Some (ErrLib ''substitute''))),
     op_VerifyUpgradeAndUpdateState = (\<lambda>_ _ c k _ _. mret (Some c, Some k)),
     op_VerifyClientState = (\<lambda>_ _ _ _ p _. accepts p),
     op_VerifyClientConsensusState = (\<lambda>_ _ _ _ _ p _. accepts p),
     op_VerifyConnectionState = (\<lambda>_ _ _ p _ _. accepts p),
     op_VerifyChannelState = (\<lambda>_ _ _ p _ _ _. accepts p),
     op_VerifyPacketCommitment = (\<lambda>_ _ _ _ _ _ p _ _ _ _. accepts p),
     op_VerifyPacketAcknowledgement = (\<lambda>_ _ _ _ _ _ p _ _ _ _. accepts p),
     op_VerifyPacketReceiptAbsence = (\<lambda>_ _ _ _ _ _ p _ _ _. accepts p),
     op_VerifyNextSequenceRecv = (\<lambda>_ _ _ _ _ _ p _ _ _. accepts p)\<rparr>"

lemma demo_ext_halts: "ext_halts demo_ops"
  by (simp add: ext_halts_def verifies_def demo_ops_def accepts_def check_def halts_mlift)

type_synonym demo_world = "string \<rightharpoonup> nat client_state \<times> kvstore"

definition demo_client_keeper :: "(nat, demo_world) ClientKeeper" where
  "demo_client_keeper =
    \<lparr>ClientStore = (\<lambda>w i. case w i of None \<Rightarrow> MapStore Map.empty | Some (c, s) \<Rightarrow> s),
     PutClientStore = (\<lambda>w i s. case w i of None \<Rightarrow> w | Some (c, _) \<Rightarrow> w(i \<mapsto> (c, s))),
     GetClientState = (\<lambda>w i. if no_slash i then map_option fst (w i) else None),
     GetSelfConsensusState = (\<lambda>w h. Some (ExternalConsensus (unat (RevisionHeight h)))),
     ValidateSelfClient = (\<lambda>w c. case c of ExternalClient x \<Rightarrow> Ok () | _ \<Rightarrow> Err (ErrLib ''self client''))\<rparr>"

definition demo_keeper :: "(nat, demo_world) Keeper" where
  "demo_keeper = \<lparr>proxyStoreKey = ''proxy'', ibcStoreKey = ''ibc'', cdc = demo_lib,
     clientKeeper = NewClientKeeper demo_lib demo_client_keeper\<rparr>"

lemma demo_client_ids: "client_ids_ok (clientKeeper demo_keeper)"
  by (simp add: client_ids_ok_def demo_keeper_def NewClientKeeper_def demo_client_keeper_def)

lemma demo_cdc [simp]: "cdc demo_keeper = demo_lib"
  by (simp add: demo_keeper_def)

lemmas demo_ok = demo_paths demo_helpers demo_codec demo_sizes demo_halts demo_ext_halts demo_client_ids

end
