(* ===== verification/Scenario.thy ===== *)
theory Scenario
  imports Msg_Server Fixtures
begin

text \<open>
  Concrete states of the proxy chain, on the codec and the light client of
  \<open>Fixtures\<close>: the upstream chain \<open>up\<close> is tracked by a light client, and the store
  holds one connection and one channel of it in given states.
\<close>

abbreviation demo_pfx :: prefix where
  "demo_pfx \<equiv> MerklePfx ''ibc''"

definition demo_height :: Height where
  "demo_height = \<lparr>RevisionNumber = 0, RevisionHeight = 5\<rparr>"

definition demo_version :: Version where
  "demo_version = \<lparr>Identifier = ''1'', Features = [''ORDER_ORDERED'', ''ORDER_UNORDERED'']\<rparr>"

definition demo_conn :: "int32 \<Rightarrow> ConnectionEnd" where
  "demo_conn s = \<lparr>ClientId = ''cl'', Versions = [demo_version], ConnState = s,
     ConnCp = \<lparr>CpClientId = ''cp'', CpConnectionId = [], CpPrefix = ''ibc''\<rparr>, DelayPeriod = 0\<rparr>"

definition demo_chan :: "int32 \<Rightarrow> Channel" where
  "demo_chan s = \<lparr>ChanState = s, Ordering = 1, ChanCp = \<lparr>CpPortId = ''pb'', CpChannelId = []\<rparr>,
     ConnectionHops = [''c0''], ChanVersion = ''v''\<rparr>"

definition demo_self :: ProxyClientState where
  "demo_self = \<lparr>ProxyClientStateAny = Some (any_of (enc_client (ExternalClient 2))), UpstreamClientId = ''up'',
     ProxyPrefix = Some ''proxy'', IbcPrefix = Some ''ibc''\<rparr>"

definition demo_world :: demo_world where
  "demo_world = [''up'' \<mapsto> (ExternalClient 1, MapStore Map.empty)]"

definition demo_ctx :: "(slot \<times> bytes) list \<Rightarrow> demo_world ctx" where
  "demo_ctx entries = \<lparr>proxyStore = map_of (map (\<lambda>(x, b). (slot_path demo_lib demo_pfx ''up'' x, b)) entries),
     world = demo_world\<rparr>"

definition demo_store :: "int32 \<Rightarrow> int32 \<Rightarrow> demo_world ctx" where
  "demo_store s t = demo_ctx [(ConnectionSlot ''c0'', enc_ConnectionEnd (demo_conn s)),
     (ChannelSlot ''pa'' ''ch'', enc_Channel (demo_chan t))]"

definition demo_packet :: Packet where
  "demo_packet = \<lparr>Sequence = 3, SourcePort = ''pa'', SourceChannel = ''ch'', DestinationPort = ''pb'',
     DestinationChannel = [], PacketData = [7], TimeoutHeight = demo_height, TimeoutTimestamp = 0\<rparr>"

named_theorems demo_simps \<open>evaluation on the concrete instance\<close>

lemma demo_lib_simps [demo_simps]:
  "PackConsensusState demo_lib (Some k) = Ok (any_of (enc_consensus k))"
  "PackClientState demo_lib (Some cs) = Ok (any_of (enc_client cs))"
  "PackClientState demo_lib None = Err (ErrLib ''pack'')"
  "MarshalClientState demo_lib cs = Ok (enc_client cs)"
  "MarshalConsensusState demo_lib k = Ok (enc_consensus k)"
  "MarshalConnectionEnd demo_lib cn = enc_ConnectionEnd cn"
  "MarshalChannel demo_lib ch = enc_Channel ch"
  "PrefixBytes demo_lib = prefix_bytes"
  "HeightEQ demo_lib = (=)"
  by (simp_all add: demo_lib_def)

lemma demo_decode [demo_simps]:
  "UnpackClientState demo_lib (Some (any_of (enc_client cs))) = Ok cs"
  "UnpackConsensusState demo_lib (Some (any_of (enc_consensus k))) = Ok k"
  "UnpackAnyClientState demo_lib (Some (any_of (enc_client cs))) = Ok (Some cs)"
  "UnpackAnyConsensusState demo_lib (Some (any_of (enc_consensus k))) = Ok (Some k)"
  "UnmarshalClientState demo_lib (enc_client cs) = Ok cs"
  "UnmarshalConsensusState demo_lib (enc_consensus k) = Ok k"
  "UnmarshalConnectionEnd demo_lib (enc_ConnectionEnd cn) = Ok cn"
  "UnmarshalChannel demo_lib (enc_Channel ch) = Ok ch"
  "UnmarshalProof demo_lib (enc_MultiProof mp) = Ok (Some (MultiProofVal mp))"
  using dec_enc_MultiProof [of mp "[]"]
  by (simp_all add: demo_lib_def decoded_enc any_of_def) (simp add: decoded_def)

lemma demo_get_client [demo_simps]:
  "GetClientState (clientKeeper demo_keeper) (world (demo_ctx es)) ''up'' = Some (ExternalClient 1)"
  by (simp add: demo_keeper_def NewClientKeeper_def demo_client_keeper_def demo_ctx_def demo_world_def)

lemma demo_accepts [simp]: "accepts [1] s = (Ok (), s)"
  by (simp add: accepts_def)

lemma demo_ops_verify [demo_simps]:
  "op_VerifyClientState demo_ops t h p i pr cs = accepts pr"
  "op_VerifyClientConsensusState demo_ops t h i ch p pr k = accepts pr"
  "op_VerifyConnectionState demo_ops t h p pr i cn = accepts pr"
  "op_VerifyChannelState demo_ops t h p pr po cc chn = accepts pr"
  "op_VerifyPacketCommitment demo_ops t w h d1 d2 p pr po cc n b = accepts pr"
  "op_VerifyPacketAcknowledgement demo_ops t w h d1 d2 p pr po cc n b = accepts pr"
  "op_VerifyPacketReceiptAbsence demo_ops t w h d1 d2 p pr po cc n = accepts pr"
  "op_VerifyNextSequenceRecv demo_ops t w h d1 d2 p pr po cc n = accepts pr"
  by (simp_all add: demo_ops_def)

lemma demo_verify_fact: "verify_fact demo_ops t w h d p pr f = accepts pr"
  by (cases f) (simp_all add: demo_simps)

text \<open>
  On the instance, a statement about \<open>up\<close> is recorded exactly when the proof is the byte
  \<open>1\<close> and its value can be encoded; the clients' stores stay as they are.
\<close>

definition demo_alive :: "demo_world ctx \<Rightarrow> bool" where
  "demo_alive c \<longleftrightarrow> world c = demo_world"

lemma demo_alive_ctx [simp]: "demo_alive (demo_ctx es)" "demo_alive (demo_store s t)"
  by (simp_all add: demo_alive_def demo_ctx_def demo_store_def)

lemma demo_check_fact:
  "demo_alive c \<Longrightarrow> check_fact demo_keeper demo_ops ''up'' p d h [1] f c = (Ok (), c)"
  by (cases c) (simp add: check_fact_apply demo_alive_def demo_world_def demo_keeper_def NewClientKeeper_def
      demo_client_keeper_def demo_verify_fact with_client_store_def)

lemma demo_proxy_fact:
  "demo_alive c \<Longrightarrow> fact_value demo_lib f = Ok b \<Longrightarrow>
    proxy_fact demo_keeper demo_ops ''up'' p d h [1] f c =
      (Ok (), ctx_put c (slot_path demo_lib p ''up'' (fact_slot f)) b)"
  by (simp add: proxy_fact_def mbind_step [OF demo_check_fact] record_fact_def)

lemma demo_alive_put [simp]: "demo_alive (ctx_put c k v) \<longleftrightarrow> demo_alive c"
  by (simp add: demo_alive_def ctx_put_def)

lemma demo_slot_neq:
  "slot_path demo_lib p u x = slot_path demo_lib p u y \<longleftrightarrow> slot_key demo_lib x = slot_key demo_lib y"
  by (simp add: slot_path_def ProxyKey_def)

lemma demo_conn_of [demo_simps]:
  "conn_of demo_keeper (demo_store s t) demo_pfx ''up'' ''c0'' = Ok (Some (demo_conn s))"
  "conn_of demo_keeper (demo_ctx []) demo_pfx ''up'' i = Ok None"
  by (simp_all add: conn_of_def GetProxyConnection_def demo_store_def demo_ctx_def read_object_def
      substore_get_def slot_paths demo_simps)

lemma demo_slots_differ:
  "slot_path demo_lib p u (ChannelSlot a b) \<noteq> slot_path demo_lib p u (ConnectionSlot i)"
  by (simp add: demo_slot_neq ics24_pathsD [OF demo_paths])

lemma demo_chan_of [demo_simps]:
  "chan_of demo_keeper (demo_store s t) demo_pfx ''up'' ''pa'' ''ch'' = Ok (Some (demo_chan t))"
  by (simp add: chan_of_def GetProxyChannel_def demo_store_def demo_ctx_def read_object_def
      substore_get_def slot_paths demo_slots_differ demo_simps)

lemma demo_order [demo_simps]: "validateChannelOrder demo_keeper 1 (demo_conn s) = Ok ()"
  by (simp add: validateChannelOrder_def demo_conn_def demo_version_def demo_lib_def)

lemma demo_validate_self [demo_simps]: "validateSelfClient demo_keeper w demo_self = Ok ()"
proof -
  have "IbcPrefix demo_self = Some (ibcStoreKey demo_keeper)" "ProxyPrefix demo_self = Some (proxyStoreKey demo_keeper)"
    by (simp_all add: demo_self_def demo_keeper_def)
  moreover have "UnpackClientState (cdc demo_keeper) (ProxyClientStateAny demo_self) = Ok (ExternalClient 2)"
    by (simp add: demo_self_def demo_simps del: enc_client.simps)
  moreover have "ValidateSelfClient (clientKeeper demo_keeper) w (ExternalClient 2) = Ok ()"
    by (simp add: demo_keeper_def NewClientKeeper_def ClientKeeper_ValidateSelfClient_def demo_client_keeper_def)
  ultimately show ?thesis by (simp add: validateSelfClient_Ok demo_helpers)
qed

lemma demo_self_consensus [demo_simps]:
  "getSelfConsensusState demo_keeper w h =
     Ok \<lparr>ProxyConsensusStateAny = Some (any_of (enc_consensus (ExternalConsensus (unat (RevisionHeight h)))))\<rparr>"
  by (simp add: getSelfConsensusState_def NewConsensusState_def demo_keeper_def NewClientKeeper_def
      demo_client_keeper_def demo_lib_simps)

lemma demo_downstream [demo_simps]:
  "verifyDownstream demo_keeper demo_ops cp (ExternalClient x) k ps pk [1] [1] h h' = Ok ()"
  by (simp add: verifyDownstream_def Keeper_makeMemStore_def on_store_def demo_simps mbind_step [OF demo_accepts])

section \<open>A light client that looks up its consensus state\<close>

text \<open>The check of a sound light client: what \<open>holds\<close> of the consensus state read from the store.\<close>

definition root_check :: "Height \<Rightarrow> (nat \<Rightarrow> bool) \<Rightarrow> (kvstore, unit) prog" where
  "root_check h holds = (\<lambda>s.
     (obind (store_Get demo_lib s (ConsensusStateKey demo_lib h)) (\<lambda>v.
      obind (from_option (ErrLib ''no consensus state'') v) (\<lambda>b.
      obind (UnmarshalConsensusState demo_lib b) (\<lambda>k.
      case k of ExternalConsensus n \<Rightarrow> check (holds n) (ErrLib ''invalid proof'') | _ \<Rightarrow> Err (ErrLib ''consensus state'')))), s))"

lemma root_check_Ok:
  "root_check h holds s = (Ok (), s') \<longleftrightarrow>
     s' = s \<and> (\<exists>n. reads_consensus demo_lib s h (ExternalConsensus n) \<and> holds n)"
proof -
  have "(case k of ExternalConsensus n \<Rightarrow> check (holds n) e | ProxyConsensus p \<Rightarrow> Err e') = Ok () \<longleftrightarrow>
      (\<exists>n. k = ExternalConsensus n \<and> holds n)" for k e e'
    by (cases k) (simp_all add: outcome_simps)
  then show ?thesis by (auto simp: root_check_def reads_consensus_def outcome_simps)
qed

end
