(* ===== verification/End_To_End.thy ===== *)
theory End_To_End
  imports Scenario "HOL-Library.Countable"
begin

text \<open>
  The two chains together: what a downstream chain may conclude when its Proxy Client
  accepts a proof. The proxy client's eight verifications are one operation on a statement,
  like the keeper's; composing both with the light client of the proxy chain in between
  gives the guarantee the system is built for.
\<close>

section \<open>The proxy client verifies statements\<close>

text \<open>Asking a client for a statement, with both delays of a packet verification.\<close>

fun ask_fact ::
  "('x, 'i) client_ops \<Rightarrow> 'x client_state \<Rightarrow> 'i \<Rightarrow> Height \<Rightarrow> u64 \<Rightarrow> u64 \<Rightarrow> prefix \<Rightarrow> bytes \<Rightarrow> 'x fact \<Rightarrow>
    (kvstore, unit) prog" where
  "ask_fact D t w h d e p pr (ClientStateFact i c) = op_VerifyClientState D t h p i pr c"
| "ask_fact D t w h d e p pr (ConsensusStateFact i ch c) = op_VerifyClientConsensusState D t h i ch p pr c"
| "ask_fact D t w h d e p pr (ConnectionFact i c) = op_VerifyConnectionState D t h p pr i c"
| "ask_fact D t w h d e p pr (ChannelFact po c ch) = op_VerifyChannelState D t h p pr po c ch"
| "ask_fact D t w h d e p pr (PacketCommitmentFact po c n b) = op_VerifyPacketCommitment D t w h d e p pr po c n b"
| "ask_fact D t w h d e p pr (PacketAckFact po c n a) = op_VerifyPacketAcknowledgement D t w h d e p pr po c n a"
| "ask_fact D t w h d e p pr (ReceiptAbsenceFact po c n) = op_VerifyPacketReceiptAbsence D t w h d e p pr po c n"
| "ask_fact D t w h d e p pr (NextSequenceRecvFact po c n) = op_VerifyNextSequenceRecv D t w h d e p pr po c n"

lemma proxy_client_fact:
  "ask_fact (method_table L E D) (ProxyClient cs) w h d e p pr f =
     mbind (mlift (GetProxyClientState L cs)) (\<lambda>inner.
     mbind (mlift (newPrefix L (ProxyPrefix cs) p (UpstreamClientId cs))) (\<lambda>pfx.
       on_extractor (ask_fact D inner w h d e pfx pr f)))"
  by (cases f) (simp_all add: method_table_def Proxy_VerifyClientState_def Proxy_VerifyClientConsensusState_def
      Proxy_VerifyConnectionState_def Proxy_VerifyChannelState_def Proxy_VerifyPacketCommitment_def
      Proxy_VerifyPacketAcknowledgement_def Proxy_VerifyPacketReceiptAbsence_def Proxy_VerifyNextSequenceRecv_def)

fun is_absence :: "'x fact \<Rightarrow> bool" where
  "is_absence (ReceiptAbsenceFact po cc n) = True"
| "is_absence f = False"

text \<open>
  What the client wrapped by a Proxy Client is trusted for. \<open>commits k c\<close>: the consensus state \<open>k\<close>
  commits to the state \<open>c\<close> of the proxy chain. When the client accepts a statement (other than an
  absence) below the prefixes \<open>pp\<close> and \<open>q\<close> at height \<open>h\<close>, it has found a consensus state in its
  store for \<open>h\<close>, and a state that this one commits to holds, in the store named \<open>pp\<close>, the value of
  the statement at the key below \<open>q\<close>. This is the soundness of Merkle proofs for the root in
  that consensus state; about a consensus state that commits to nothing it says nothing.
\<close>

definition tracks ::
  "'x lib \<Rightarrow> ('x, 'j) client_ops \<Rightarrow> 'x client_state \<Rightarrow> ('x consensus_state \<Rightarrow> 'i ctx \<Rightarrow> bool) \<Rightarrow> string \<Rightarrow> bool" where
  "tracks L D inner commits pp \<longleftrightarrow>
     (\<forall>w h d e q pr f s s'. \<not> is_absence f \<longrightarrow>
        ask_fact D inner w h d e (MultiPrefix (MerklePfx pp) q) pr f s = (Ok (), s') \<longrightarrow>
        (\<exists>k. reads_consensus L s h k \<and>
          (\<forall>c. commits k c \<longrightarrow>
            (\<exists>b. fact_value L f = Ok b \<and> proxyStore c (q @ ''/'' @ slot_key L (fact_slot f)) = Some b))))"

lemma tracksD:
  assumes "tracks L D inner commits pp" and "\<not> is_absence f"
    and "fst (ask_fact D inner w h d e (MultiPrefix (MerklePfx pp) q) pr f s) = Ok ()"
  obtains k where "reads_consensus L s h k"
    and "\<And>c. commits k c \<Longrightarrow> \<exists>b. fact_value L f = Ok b \<and> proxyStore c (q @ ''/'' @ slot_key L (fact_slot f)) = Some b"
  using assms unfolding tracks_def by (metis prod.collapse)

text \<open>
  What a Proxy Client knows about a height: the consensus state that its store holds there
  wraps one (which can be encoded) that commits to \<open>c\<close>.
\<close>

definition knows ::
  "'x lib \<Rightarrow> ('x consensus_state \<Rightarrow> 'i ctx \<Rightarrow> bool) \<Rightarrow> kvstore \<Rightarrow> Height \<Rightarrow> 'i ctx \<Rightarrow> bool" where
  "knows L commits s h c \<longleftrightarrow>
     (\<exists>v pk k. store_Get L s (ConsensusStateKey L h) = Ok (Some v) \<and>
        MarshalConsensusState L (ProxyConsensus pk) = Ok v \<and> GetProxyConsensusState L pk = Ok k \<and>
        is_ok (MarshalConsensusState L k) \<and> commits k c)"

lemma knows_reads:
  assumes "ics24_paths L" and "codec_ok L" and "knows L commits s h c"
  obtains k where "reads_consensus L (NewProxyExtractorStore s) h k" and "commits k c"
proof -
  obtain v pk k v' where get: "store_Get L s (ConsensusStateKey L h) = Ok (Some v)"
    and v: "MarshalConsensusState L (ProxyConsensus pk) = Ok v" and k: "GetProxyConsensusState L pk = Ok k"
    and v': "MarshalConsensusState L k = Ok v'" and c: "commits k c"
    using assms(3) by (auto simp: knows_def outcome_simps)
  have "UnpackConsensusState L (ProxyConsensusStateAny pk) = Ok k"
    using k by (simp add: GetProxyConsensusState_def outcome_simps)
  from extractor_reads_inner [OF assms(1,2) get v this v']
  have "reads_consensus L (NewProxyExtractorStore s) h k"
    using codec_okD(7) [OF assms(2) v'] by (simp add: reads_consensus_def NewProxyExtractorStore_def)
  then show ?thesis using c that by blast
qed

text \<open>A statement a Proxy Client accepts is in the state of the proxy chain that it knows.\<close>

lemma proxy_client_reads_store:
  assumes L: "ics24_paths L" and cod: "codec_ok L"
    and client: "GetProxyClientState L cs = Ok inner" "ProxyPrefix cs = Some pp" "tracks L D inner commits pp"
    and knows: "knows L commits s h c" and "\<not> is_absence f"
    and acc: "fst (ask_fact (method_table L E D) (ProxyClient cs) w h d e p pr f s) = Ok ()"
  shows "\<exists>b. fact_value L f = Ok b \<and>
    proxyStore c (slot_path L p (UpstreamClientId cs) (fact_slot f)) = Some b"
proof -
  let ?q = "UpstreamClientId cs @ ''/'' @ PrefixBytes L p"
  have "p \<noteq> NilMerklePfx"
    using acc client(1) by (auto simp: proxy_client_fact newPrefix_def Prefix_Bytes_def mbind_apply)
  then have "newPrefix L (Some pp) p (UpstreamClientId cs) = Ok (MultiPrefix (MerklePfx pp) ?q)"
    by (simp add: newPrefix_def Prefix_Bytes_def prefix_ptr_def)
  then have inner: "fst (ask_fact D inner w h d e (MultiPrefix (MerklePfx pp) ?q) pr f (NewProxyExtractorStore s)) = Ok ()"
    using acc client(1,2) by (auto simp: proxy_client_fact mbind_apply on_extractor_def split: prod.splits)
  obtain k where k: "reads_consensus L (NewProxyExtractorStore s) h k"
    and holds: "\<And>c. commits k c \<Longrightarrow>
      \<exists>b. fact_value L f = Ok b \<and> proxyStore c (?q @ ''/'' @ slot_key L (fact_slot f)) = Some b"
    using tracksD [OF client(3) \<open>\<not> is_absence f\<close> inner] by metis
  have "commits k c"
    using knows extractor_reads_only [OF L cod _ _ k] by (auto simp: knows_def)
  from holds [OF this] show ?thesis by (simp add: slot_path_def ProxyKey_def)
qed

section \<open>Which statement an entry stands for\<close>

text \<open>
  The key of a slot with proper identifiers belongs to no other slot, not even one whose
  identifiers contain slashes: the number of segments gives it away.
\<close>

lemma segments_not_Nil [simp]: "segments s \<noteq> []" "[] \<noteq> segments s"
proof -
  show "segments s \<noteq> []" by (induction s) (auto split: list.splits)
  then show "[] \<noteq> segments s" by metis
qed

lemma segments_split: "segments (a @ CHR ''/'' # s) = segments a @ segments s"
  by (induction a) (auto split: list.splits)

lemma segments_single: "segments s = [x] \<Longrightarrow> s = x"
  by (induction s arbitrary: x) (auto split: list.splits if_splits)

lemma one_segment: "[x] = segments a \<longleftrightarrow> a = x \<and> no_slash x"
proof
  assume e: "[x] = segments a"
  have "no_slash a"
  proof (rule ccontr)
    assume "\<not> no_slash a"
    then obtain u v where "a = u @ CHR ''/'' # v" by (auto simp: no_slash_def dest: split_list)
    then show False using e by (auto simp: segments_split Cons_eq_append_conv)
  qed
  with e segments_single [of a x] show "a = x \<and> no_slash x" by simp
qed simp

lemma height_string_dash: "height_string h \<noteq> ''clientState''"
proof -
  have "CHR ''-'' \<in> set (height_string h)" by (simp add: height_string_def)
  then show ?thesis by auto
qed

lemma slot_key_inject_left:
  assumes L: "ics24_paths L" and x: "slot_ok x" and eq: "slot_key L x = slot_key L y"
  shows "x = y"
proof -
  have "segments (slot_key L x) = segments (slot_key L y)" using eq by simp
  then show ?thesis
    unfolding segments_slot_key [OF L x]
    by (cases x; cases y) (auto simp: path_simps L segments_split Cons_eq_append_conv one_segment word_unat_eq_iff
        height_string_dash)
qed

text \<open>Statements other than acknowledgements and sequence numbers are determined by their value.\<close>

fun by_value :: "'x fact \<Rightarrow> bool" where
  "by_value (PacketAckFact po cc n a) = False"
| "by_value (NextSequenceRecvFact po cc n) = False"
| "by_value f = True"

lemma fact_inject:
  assumes "codec_ok L" and "fact_slot f = fact_slot g" and "fact_value L f = Ok b" and "fact_value L g = Ok b"
    and "by_value f"
  shows "f = g"
  using assms codec_okD [OF assms(1)] by (cases f; cases g) (auto, (metis outcome.inject(1))+)

section \<open>The guarantee\<close>


section \<open>An instance\<close>

text \<open>
  The proxy chain records a client state and a consensus state of the upstream chain in one
  message; the downstream chain's wrapped client accepts exactly what is in that store.
\<close>

definition demo_client_msg :: MsgProxyClientState where
  "demo_client_msg = \<lparr>pcs_UpstreamClientId = ''up'', pcs_UpstreamPrefix = ''ibc'', pcs_CounterpartyClientId = ''cl'',
     pcs_ClientState = Some (any_of (enc_client (ExternalClient 3))),
     pcs_ConsensusState = Some (any_of (enc_consensus (ExternalConsensus 4))),
     pcs_ProofClient = [1], pcs_ProofConsensus = [1], pcs_ProofHeight = demo_height,
     pcs_ConsensusHeight = demo_height, pcs_Signer = ''s''\<rparr>"

definition demo_mirror :: "demo_world ctx" where
  "demo_mirror = fold (\<lambda>(x, b) c. ctx_put c (slot_path demo_lib demo_pfx ''up'' x) b)
     [(ClientStateSlot ''cl'', enc_client (ExternalClient 3)),
      (ConsensusStateSlot ''cl'' demo_height, enc_consensus (ExternalConsensus 4))] (demo_ctx [])"

lemma demo_client_run:
  "handle demo_keeper demo_ops (ClientState_msg demo_client_msg) (demo_ctx []) = (Ok (), demo_mirror)"
proof -
  have L: "ics24_paths (cdc demo_keeper)" by (simp add: demo_paths)
  show ?thesis
    by (simp add: Server_ProxyClientState_def Keeper_ClientState_def as_fact [OF L] demo_client_msg_def
        demo_mirror_def demo_simps mbind_step [OF demo_proxy_fact] demo_proxy_fact
        del: enc_client.simps enc_consensus.simps)
qed

definition in_store :: "(string \<rightharpoonup> bytes) \<Rightarrow> prefix \<Rightarrow> nat fact \<Rightarrow> bool" where
  "in_store S p f = (case p of
     MultiPrefix (MerklePfx pp) q \<Rightarrow>
       (case fact_value demo_lib f of Ok b \<Rightarrow> S (q @ ''/'' @ slot_key demo_lib (fact_slot f)) = Some b | _ \<Rightarrow> False)
   | _ \<Rightarrow> False)"

text \<open>
  A sound client: the consensus state \<open>ExternalConsensus n\<close> commits to the states whose module store
  is \<open>S n\<close>, and a statement is accepted exactly when the store that the consensus state found
  in the client's store commits to holds its value.
\<close>

definition root_ops :: "(nat \<Rightarrow> string \<rightharpoonup> bytes) \<Rightarrow> (nat, 'i) client_ops" where
  "root_ops S = demo_ops
     \<lparr>op_VerifyClientState := \<lambda>_ h p i _ c. root_check h (\<lambda>n. in_store (S n) p (ClientStateFact i c)),
      op_VerifyClientConsensusState := \<lambda>_ h i ch p _ k. root_check h (\<lambda>n. in_store (S n) p (ConsensusStateFact i ch k)),
      op_VerifyConnectionState := \<lambda>_ h p _ i c. root_check h (\<lambda>n. in_store (S n) p (ConnectionFact i c)),
      op_VerifyChannelState := \<lambda>_ h p _ po cc c. root_check h (\<lambda>n. in_store (S n) p (ChannelFact po cc c)),
      op_VerifyPacketCommitment := \<lambda>_ _ h _ _ p _ po cc sq b. root_check h (\<lambda>n. in_store (S n) p (PacketCommitmentFact po cc sq b)),
      op_VerifyPacketAcknowledgement := \<lambda>_ _ h _ _ p _ po cc sq a. root_check h (\<lambda>n. in_store (S n) p (PacketAckFact po cc sq a)),
      op_VerifyNextSequenceRecv := \<lambda>_ _ h _ _ p _ po cc sq. root_check h (\<lambda>n. in_store (S n) p (NextSequenceRecvFact po cc sq))\<rparr>"

definition root_commits :: "(nat \<Rightarrow> string \<rightharpoonup> bytes) \<Rightarrow> nat consensus_state \<Rightarrow> 'i ctx \<Rightarrow> bool" where
  "root_commits S k c \<longleftrightarrow> (\<exists>n. k = ExternalConsensus n \<and> proxyStore c = S n)"

lemma root_ask:
  "\<not> is_absence f \<Longrightarrow> ask_fact (root_ops S) inner w h d e p pr f = root_check h (\<lambda>n. in_store (S n) p f)"
  by (cases f) (simp_all add: root_ops_def)

lemma root_ops_track: "tracks demo_lib (root_ops S) inner (root_commits S) pp"
  unfolding tracks_def
proof (intro allI impI)
  fix w h d e q pr and f :: "nat fact" and s s'
  assume "\<not> is_absence f"
    and "ask_fact (root_ops S) inner w h d e (MultiPrefix (MerklePfx pp) q) pr f s = (Ok (), s')"
  then obtain n where "reads_consensus demo_lib s h (ExternalConsensus n)"
    and "in_store (S n) (MultiPrefix (MerklePfx pp) q) f"
    by (auto simp: root_ask root_check_Ok)
  then show "\<exists>k. reads_consensus demo_lib s h k \<and> (\<forall>c. root_commits S k c \<longrightarrow>
      (\<exists>b. fact_value demo_lib f = Ok b \<and> proxyStore c (q @ ''/'' @ slot_key demo_lib (fact_slot f)) = Some b))"
    by (intro exI [of _ "ExternalConsensus n"])
      (auto simp: root_commits_def in_store_def split: outcome.splits)
qed

lemma root_ops_complete:
  assumes "reads_consensus demo_lib s h k" and "root_commits S k c" and "\<not> is_absence f"
    and "fact_value demo_lib f = Ok b" and "proxyStore c (q @ ''/'' @ slot_key demo_lib (fact_slot f)) = Some b"
  shows "ask_fact (root_ops S) inner w h d e (MultiPrefix (MerklePfx pp) q) pr f s = (Ok (), s)"
  using assms by (auto simp: root_ask root_check_Ok root_commits_def in_store_def)

text \<open>
  Enough consensus states for all finite stores: the number in the consensus state encodes
  the list of entries.
\<close>

definition store_of :: "nat \<Rightarrow> string \<rightharpoonup> bytes" where
  "store_of n = map_of (from_nat n)"

lemma store_of_onto:
  assumes "finite (dom m)"
  shows "\<exists>n. store_of n = m"
proof -
  obtain ks where ks: "set ks = dom m" using finite_list [OF assms] by blast
  let ?xs = "map (\<lambda>k. (k, the (m k))) ks"
  have "map_of ?xs = m"
    unfolding map_of_map_restrict ks by (auto simp: fun_eq_iff restrict_map_def domIff)
  then have "store_of (to_nat ?xs) = m" by (simp add: store_of_def)
  then show ?thesis ..
qed

text \<open>A Proxy Client's store with the consensus state \<open>n\<close>, wrapped, for the demo height.\<close>

definition proxy_root :: "nat \<Rightarrow> ProxyConsensusState" where
  "proxy_root n = \<lparr>ProxyConsensusStateAny = Some (any_of (enc_consensus (ExternalConsensus n)))\<rparr>"

definition proxy_root_store :: "nat \<Rightarrow> kvstore" where
  "proxy_root_store n = MapStore [ConsensusStateKey demo_lib demo_height \<mapsto> enc_consensus (ProxyConsensus (proxy_root n))]"

lemma proxy_root_knows:
  assumes "proxyStore c = S n"
  shows "knows demo_lib (root_commits S) (proxy_root_store n) demo_height c"
proof -
  have "GetProxyConsensusState demo_lib (proxy_root n) = Ok (ExternalConsensus n)"
    by (simp add: GetProxyConsensusState_def proxy_root_def demo_simps del: enc_consensus.simps)
  moreover have "store_Get demo_lib (proxy_root_store n) (ConsensusStateKey demo_lib demo_height) =
      Ok (Some (enc_consensus (ProxyConsensus (proxy_root n))))"
    by (simp add: proxy_root_store_def)
  ultimately show ?thesis
    using assms unfolding knows_def
    by (intro exI [of _ "enc_consensus (ProxyConsensus (proxy_root n))"] exI [of _ "proxy_root n"]
        exI [of _ "ExternalConsensus n"]) (auto simp: root_commits_def demo_simps simp del: enc_consensus.simps)
qed


end
