(* ===== verification/Relay.thy ===== *)
theory Relay
  imports End_To_End
begin

text \<open>
  What a relayer can achieve. Where the upstream chain's statements can be proved to the
  proxy's light client, the messages of a handshake all succeed one after the other, and what
  they record can be proved to the downstream chain's Proxy Client. \<open>W\<close> is the condition on the
  rest of the proxy chain under which the light client has the consensus states it needs (and
  the delay of a connection has passed); a verification keeps it.
\<close>

section \<open>Statements that can be proved to the proxy\<close>

text \<open>
  Under the condition \<open>W\<close> the upstream client has, for delay \<open>d\<close> and height \<open>h\<close>, a proof of the
  statement that it accepts, and its verification leaves \<open>W\<close> true.
\<close>

definition provable ::
  "('x, 'i) Keeper \<Rightarrow> ('x, 'i) client_ops \<Rightarrow> ('i \<Rightarrow> bool) \<Rightarrow> string \<Rightarrow> prefix \<Rightarrow> u64 \<Rightarrow> Height \<Rightarrow> 'x fact \<Rightarrow> bool" where
  "provable K D W u p d h f \<longleftrightarrow>
     (\<forall>c. W (world c) \<longrightarrow> (\<exists>pr. fst (check_fact K D u p d h pr f c) = Ok () \<and>
        W (world (snd (check_fact K D u p d h pr f c)))))"

lemma provable_recorded:
  assumes "provable K D W u p d h f" and "W (world c)" and "fact_value (cdc K) f = Ok b"
  obtains pr c' where "proxy_fact K D u p d h pr f c = (Ok (), c')" and "W (world c')"
    and "proxyStore c' = (proxyStore c)(slot_path (cdc K) p u (fact_slot f) \<mapsto> b)"
proof -
  obtain pr where ok: "fst (check_fact K D u p d h pr f c) = Ok ()"
    and W: "W (world (snd (check_fact K D u p d h pr f c)))"
    using assms(1,2) unfolding provable_def by blast
  let ?c1 = "snd (check_fact K D u p d h pr f c)"
  have "check_fact K D u p d h pr f c = (Ok (), ?c1)" using ok by (metis prod.collapse)
  then have "proxy_fact K D u p d h pr f c = (Ok (), ctx_put ?c1 (slot_path (cdc K) p u (fact_slot f)) b)"
    using assms(3) by (simp add: proxy_fact_def record_fact_def mbind_step)
  then show ?thesis by (rule that) (use W in \<open>simp_all add: ctx_put_def\<close>)
qed

text \<open>
  Messages delivered in order; before each, the rest of the chain may have moved (its light
  clients updated, time passed). The first message that fails stops the relayer.
\<close>

primrec relay :: "('x, 'i) Keeper \<Rightarrow> ('x, 'i) client_ops \<Rightarrow> (('i \<Rightarrow> 'i) \<times> msg) list \<Rightarrow> ('i ctx, unit) prog" where
  "relay K D [] = mret ()"
| "relay K D (em # ems) =
     mthen (mput (\<lambda>c. c\<lparr>world := fst em (world c)\<rparr>)) (mthen (handle K D (snd em)) (relay K D ems))"

lemma relay_step:
  "handle K D m (c\<lparr>world := e (world c)\<rparr>) = (Ok (), c1) \<Longrightarrow> relay K D ems c1 = r \<Longrightarrow> relay K D ((e, m) # ems) c = r"
  by (simp add: mbind_step)

lemma relay_end:
  "handle K D m (c\<lparr>world := e (world c)\<rparr>) = (Ok (), c') \<Longrightarrow> relay K D [(e, m)] c = (Ok (), c')"
  by (simp add: mbind_step)

text \<open>What the module has recorded does not depend on the rest of the chain.\<close>

lemma recorded_elsewhere [simp]:
  "conn_of K (c\<lparr>world := w\<rparr>) p u i = conn_of K c p u i"
  "chan_of K (c\<lparr>world := w\<rparr>) p u a b = chan_of K c p u a b"
proof -
  show "conn_of K (c\<lparr>world := w\<rparr>) p u i = conn_of K c p u i" by (rule conn_of_local) simp
  have "proxyStore (c\<lparr>world := w\<rparr>) (channel_path K p u (a, b)) = proxyStore c (channel_path K p u (a, b))" by simp
  from chan_obj.get_local [OF this] show "chan_of K (c\<lparr>world := w\<rparr>) p u a b = chan_of K c p u a b"
    by (simp add: chan_of_def)
qed

section \<open>Reading back what was recorded\<close>

lemma conn_of_recorded:
  assumes "codec_ok (cdc K)"
    and "proxyStore c' = (proxyStore c)(slot_path (cdc K) p u (ConnectionSlot i) \<mapsto> MarshalConnectionEnd (cdc K) cn)"
  shows "conn_of K c' p u i = Ok (Some cn)"
  unfolding conn_of_def GetProxyConnection_def
  using assms codec_okD(1,2) [OF assms(1)] by (intro read_object_value) (auto simp: slot_paths)

lemma chan_of_at:
  assumes "codec_ok (cdc K)"
    and "proxyStore c' = (proxyStore c)(slot_path (cdc K) p u (ChannelSlot a b) \<mapsto> MarshalChannel (cdc K) ch)"
  shows "chan_of K c' p u a b = Ok (Some ch)"
  unfolding chan_of_def GetProxyChannel_def
  using assms codec_okD(3,4) [OF assms(1)] by (intro read_object_value) (auto simp: slot_paths)

text \<open>Entries of other slots of the same upstream chain are not disturbed.\<close>

lemma conn_of_undisturbed:
  assumes L: "ics24_paths (cdc K)" and "slot_kind x \<noteq> ''connections''"
    and "proxyStore c' = (proxyStore c)(slot_path (cdc K) p u x \<mapsto> b)"
  shows "conn_of K c' p u i = conn_of K c p u i"
proof (rule conn_of_local)
  have "slot_key (cdc K) x \<noteq> slot_key (cdc K) (ConnectionSlot i)"
    using assms(2) hd_segments_slot_key [OF L] by (metis slot_kind.simps(3))
  then show "proxyStore c' (connection_path K p u i) = proxyStore c (connection_path K p u i)"
    using assms(3) by (simp add: object_paths [OF L] slot_path_def ProxyKey_def)
qed

lemma chan_of_undisturbed:
  assumes L: "ics24_paths (cdc K)" and "slot_kind x \<noteq> ''channelEnds''"
    and "proxyStore c' = (proxyStore c)(slot_path (cdc K) p u x \<mapsto> v)"
  shows "chan_of K c' p u a b = chan_of K c p u a b"
proof -
  have "slot_key (cdc K) x \<noteq> slot_key (cdc K) (ChannelSlot a b)"
    using assms(2) hd_segments_slot_key [OF L] by (metis slot_kind.simps(4))
  then have "proxyStore c' (channel_path K p u (a, b)) = proxyStore c (channel_path K p u (a, b))"
    using assms(3) by (simp add: object_paths [OF L] slot_path_def ProxyKey_def)
  from chan_obj.get_local [OF this] show ?thesis by (simp add: chan_of_def)
qed

section \<open>The first step of the connection handshake\<close>

text \<open>
  What has to hold for the proxy to take part: the client states in the message can be packed
  and stored, the message's proxy client state is the proxy's own, downstream can prove that
  it tracks the proxy, and upstream's three statements are provable.
\<close>

definition self_proved ::
  "('x, 'i) Keeper \<Rightarrow> ('x, 'i) client_ops \<Rightarrow> ('i \<Rightarrow> bool) \<Rightarrow> ProxyClientState \<Rightarrow> ConnectionEnd \<Rightarrow>
    'x client_state \<Rightarrow> 'x consensus_state \<Rightarrow> bool" where
  "self_proved K D W self cn dc dk \<longleftrightarrow>
     (\<exists>h' h pk b b'. (\<forall>w. W w \<longrightarrow> validateSelfClient K w self = Ok () \<and> getSelfConsensusState K w h' = Ok pk) \<and>
        verifyDownstream K D (ConnCp cn) dc dk self pk b b' h h' = Ok ())"

definition packable :: "'x lib \<Rightarrow> 'x client_state \<Rightarrow> bool" where
  "packable L c \<longleftrightarrow> is_ok (PackClientState L (Some c)) \<and> is_ok (MarshalClientState L c)"

definition packable_cons :: "'x lib \<Rightarrow> 'x consensus_state \<Rightarrow> bool" where
  "packable_cons L k \<longleftrightarrow> is_ok (PackConsensusState L (Some k)) \<and> is_ok (MarshalConsensusState L k)"

definition handshake_ready ::
  "('x, 'i) Keeper \<Rightarrow> ('x, 'i) client_ops \<Rightarrow> ('i \<Rightarrow> bool) \<Rightarrow> ProxyClientState \<Rightarrow> prefix \<Rightarrow> Height \<Rightarrow> string \<Rightarrow>
    ConnectionEnd \<Rightarrow> 'x client_state \<Rightarrow> Height \<Rightarrow> 'x consensus_state \<Rightarrow> bool" where
  "handshake_ready K D W self p h i cn dc ch dk \<longleftrightarrow>
     packable (cdc K) dc \<and> packable_cons (cdc K) dk \<and> packable (cdc K) (ProxyClient self) \<and>
     self_proved K D W self cn dc dk \<and>
     provable K D W (UpstreamClientId self) p 0 h (ClientStateFact (ClientId cn) dc) \<and>
     provable K D W (UpstreamClientId self) p 0 h (ConsensusStateFact (ClientId cn) ch dk) \<and>
     provable K D W (UpstreamClientId self) p 0 h (ConnectionFact i cn)"

text \<open>The three recordings of \<open>ConnOpenTry\<close> and \<open>ConnOpenAck\<close> go through.\<close>

lemma handshake_records:
  assumes L: "ics24_paths (cdc K)" and cod: "codec_ok (cdc K)" and W: "W (world c)"
    and ready: "handshake_ready K D W self p h i cn dc ch dk" and u: "u = UpstreamClientId self"
  obtains b1 b2 b3 c1 c2 c' where
    "proxy_fact K D u p 0 h b1 (ClientStateFact (ClientId cn) dc) c = (Ok (), c1)"
    "proxy_fact K D u p 0 h b2 (ConsensusStateFact (ClientId cn) ch dk) c1 = (Ok (), c2)"
    "proxy_fact K D u p 0 h b3 (ConnectionFact i cn) c2 = (Ok (), c')"
    "W (world c')" "conn_of K c' p u i = Ok (Some cn)"
proof -
  obtain v1 v2 where v1: "MarshalClientState (cdc K) dc = Ok v1" and v2: "MarshalConsensusState (cdc K) dk = Ok v2"
    using ready by (auto simp: handshake_ready_def packable_def packable_cons_def outcome_simps)
  have f: "provable K D W u p 0 h (ClientStateFact (ClientId cn) dc)"
    "provable K D W u p 0 h (ConsensusStateFact (ClientId cn) ch dk)" "provable K D W u p 0 h (ConnectionFact i cn)"
    using ready u by (simp_all add: handshake_ready_def)
  obtain b1 c1 where 1: "proxy_fact K D u p 0 h b1 (ClientStateFact (ClientId cn) dc) c = (Ok (), c1)" "W (world c1)"
    by (rule provable_recorded [OF f(1) W, of v1]) (simp_all add: v1)
  obtain b2 c2 where 2: "proxy_fact K D u p 0 h b2 (ConsensusStateFact (ClientId cn) ch dk) c1 = (Ok (), c2)" "W (world c2)"
    by (rule provable_recorded [OF f(2) 1(2), of v2]) (simp_all add: v2)
  obtain b3 c' where 3: "proxy_fact K D u p 0 h b3 (ConnectionFact i cn) c2 = (Ok (), c')" "W (world c')"
    "proxyStore c' = (proxyStore c2)(slot_path (cdc K) p u (ConnectionSlot i) \<mapsto> MarshalConnectionEnd (cdc K) cn)"
    by (rule provable_recorded [OF f(3) 2(2), of "MarshalConnectionEnd (cdc K) cn"]) simp_all
  show ?thesis
    by (rule that [OF 1(1) 2(1) 3(1,2) conn_of_recorded [OF cod 3(3)]])
qed

text \<open>All that goes into the first message of either side.\<close>

lemma handshake_inputs:
  assumes L: "ics24_paths (cdc K)" and cod: "codec_ok (cdc K)" and W: "W (world c)"
    and ready: "handshake_ready K D W self p h i cn dc ch dk" and u: "u = UpstreamClientId self"
  obtains a ak ap h' h3 pk b b' b1 b2 b3 c1 c2 c' where
    "PackClientState (cdc K) (Some dc) = Ok a" "UnpackClientState (cdc K) (Some a) = Ok dc"
    "PackConsensusState (cdc K) (Some dk) = Ok ak" "UnpackConsensusState (cdc K) (Some ak) = Ok dk"
    "PackClientState (cdc K) (Some (ProxyClient self)) = Ok ap" "UnpackClientState (cdc K) (Some ap) = Ok (ProxyClient self)"
    "produceVerificationArgs K D (world c) (ProxyClient self) h' = Ok (self, pk, u)"
    "verifyDownstream K D (ConnCp cn) dc dk self pk b b' h3 h' = Ok ()"
    "proxy_fact K D u p 0 h b1 (ClientStateFact (ClientId cn) dc) c = (Ok (), c1)"
    "proxy_fact K D u p 0 h b2 (ConsensusStateFact (ClientId cn) ch dk) c1 = (Ok (), c2)"
    "proxy_fact K D u p 0 h b3 (ConnectionFact i cn) c2 = (Ok (), c')"
    "W (world c')" "conn_of K c' p u i = Ok (Some cn)"
proof -
  obtain a ak ap where a: "PackClientState (cdc K) (Some dc) = Ok a" "PackConsensusState (cdc K) (Some dk) = Ok ak"
      "PackClientState (cdc K) (Some (ProxyClient self)) = Ok ap"
    using ready by (auto simp: handshake_ready_def packable_def packable_cons_def outcome_simps)
  obtain h' h3 pk b b' where self: "validateSelfClient K (world c) self = Ok ()"
      "getSelfConsensusState K (world c) h' = Ok pk" "verifyDownstream K D (ConnCp cn) dc dk self pk b b' h3 h' = Ok ()"
    using ready W unfolding handshake_ready_def self_proved_def by blast
  have "produceVerificationArgs K D (world c) (ProxyClient self) h' = Ok (self, pk, u)"
    using self(1,2) u by (simp add: produceVerificationArgs_Ok)
  with handshake_records [OF L cod W ready u] show ?thesis
    using that a codec_okD(9) [OF cod a(1)] codec_okD(10) [OF cod a(2)] codec_okD(9) [OF cod a(3)] self(3)
    by metis
qed

lemmas opening_defs = NewMsgProxyConnectionOpenTry_def NewMsgProxyConnectionOpenAck_def
  mustPackClientState_def mustPackConsensusState_def ProxyConnectionOpenTry_def ProxyConnectionOpenAck_def
  ConnOpenTry_def ConnOpenAck_def

text \<open>Upstream's end in INIT: \<open>ConnOpenTry\<close>; in TRYOPEN: \<open>ConnOpenAck\<close>.\<close>

lemma deliver_ConnOpenTry:
  assumes L: "ics24_paths (cdc K)" and cod: "codec_ok (cdc K)" and W: "W (world c)"
    and ready: "handshake_ready K D W self (MerklePfx pb) h i cn dc ch dk"
    and init: "ConnState cn = CONN_INIT" and fresh: "conn_of K c (MerklePfx pb) (UpstreamClientId self) i = Ok None"
  obtains m c' where "handle K D (ConnectionOpenTry_msg m) c = (Ok (), c')" and "W (world c')"
    and "conn_of K c' (MerklePfx pb) (UpstreamClientId self) i = Ok (Some cn)"
proof (rule handshake_inputs [OF L cod W ready refl])
  fix a ak ap h' h3 pk b b' b1 b2 b3 c1 c2 c'
  assume a: "PackClientState (cdc K) (Some dc) = Ok a" "PackConsensusState (cdc K) (Some dk) = Ok ak"
      "PackClientState (cdc K) (Some (ProxyClient self)) = Ok ap"
    and rest: "W (world c')" "conn_of K c' (MerklePfx pb) (UpstreamClientId self) i = Ok (Some cn)"
  assume steps: "UnpackClientState (cdc K) (Some a) = Ok dc" "UnpackConsensusState (cdc K) (Some ak) = Ok dk"
      "UnpackClientState (cdc K) (Some ap) = Ok (ProxyClient self)"
      "produceVerificationArgs K D (world c) (ProxyClient self) h' = Ok (self, pk, UpstreamClientId self)"
      "verifyDownstream K D (ConnCp cn) dc dk self pk b b' h3 h' = Ok ()"
      "proxy_fact K D (UpstreamClientId self) (MerklePfx pb) 0 h b1 (ClientStateFact (ClientId cn) dc) c = (Ok (), c1)"
      "proxy_fact K D (UpstreamClientId self) (MerklePfx pb) 0 h b2 (ConsensusStateFact (ClientId cn) ch dk) c1 = (Ok (), c2)"
      "proxy_fact K D (UpstreamClientId self) (MerklePfx pb) 0 h b3 (ConnectionFact i cn) c2 = (Ok (), c')"
  obtain m where "NewMsgProxyConnectionOpenTry (cdc K) i pb cn (Some dc) (Some dk) (Some (ProxyClient self))
      b3 b1 b2 h ch b b' h3 h' [] = Ok m"
    using a by (simp add: opening_defs)
  then have "handle K D (ConnectionOpenTry_msg m) c = (Ok (), c')"
    using a steps fresh init by (auto simp: opening_defs as_fact [OF L] conn_bind mbind_step)
  then show ?thesis using rest by (rule that)
qed

lemma deliver_ConnOpenAck:
  assumes L: "ics24_paths (cdc K)" and cod: "codec_ok (cdc K)" and W: "W (world c)"
    and ready: "handshake_ready K D W self (MerklePfx pb) h i cn dc ch dk"
    and tryopen: "ConnState cn = CONN_TRYOPEN" and fresh: "conn_of K c (MerklePfx pb) (UpstreamClientId self) i = Ok None"
  obtains m c' where "handle K D (ConnectionOpenAck_msg m) c = (Ok (), c')" and "W (world c')"
    and "conn_of K c' (MerklePfx pb) (UpstreamClientId self) i = Ok (Some cn)"
proof (rule handshake_inputs [OF L cod W ready refl])
  fix a ak ap h' h3 pk b b' b1 b2 b3 c1 c2 c'
  assume a: "PackClientState (cdc K) (Some dc) = Ok a" "PackConsensusState (cdc K) (Some dk) = Ok ak"
      "PackClientState (cdc K) (Some (ProxyClient self)) = Ok ap"
    and rest: "W (world c')" "conn_of K c' (MerklePfx pb) (UpstreamClientId self) i = Ok (Some cn)"
  assume steps: "UnpackClientState (cdc K) (Some a) = Ok dc" "UnpackConsensusState (cdc K) (Some ak) = Ok dk"
      "UnpackClientState (cdc K) (Some ap) = Ok (ProxyClient self)"
      "produceVerificationArgs K D (world c) (ProxyClient self) h' = Ok (self, pk, UpstreamClientId self)"
      "verifyDownstream K D (ConnCp cn) dc dk self pk b b' h3 h' = Ok ()"
      "proxy_fact K D (UpstreamClientId self) (MerklePfx pb) 0 h b1 (ClientStateFact (ClientId cn) dc) c = (Ok (), c1)"
      "proxy_fact K D (UpstreamClientId self) (MerklePfx pb) 0 h b2 (ConsensusStateFact (ClientId cn) ch dk) c1 = (Ok (), c2)"
      "proxy_fact K D (UpstreamClientId self) (MerklePfx pb) 0 h b3 (ConnectionFact i cn) c2 = (Ok (), c')"
  obtain m where "NewMsgProxyConnectionOpenAck (cdc K) i pb cn (Some dc) (Some dk) (Some (ProxyClient self))
      b3 b1 b2 h ch b b' h3 h' [] = Ok m"
    using a by (simp add: opening_defs)
  then have "handle K D (ConnectionOpenAck_msg m) c = (Ok (), c')"
    using a steps fresh tryopen by (auto simp: opening_defs as_fact [OF L] conn_bind mbind_step)
  then show ?thesis using rest by (rule that)
qed

section \<open>The other steps\<close>

definition confirmed_end :: "ConnectionEnd \<Rightarrow> string \<Rightarrow> ConnectionEnd" where
  "confirmed_end cn j = cn\<lparr>ConnState := CONN_OPEN, ConnCp := (ConnCp cn)\<lparr>CpConnectionId := j\<rparr>\<rparr>"

lemma confirmed_end_simps [simp]:
  "ConnState (confirmed_end cn j) = CONN_OPEN" "Versions (confirmed_end cn j) = Versions cn"
  "DelayPeriod (confirmed_end cn j) = DelayPeriod cn"
  by (simp_all add: confirmed_end_def)

lemma deliver_ConnOpenConfirm:
  assumes L: "ics24_paths (cdc K)" and cod: "codec_ok (cdc K)" and W: "W (world c)"
    and cn: "conn_of K c (MerklePfx pb) u i = Ok (Some cn)" "ConnState cn = CONN_INIT"
    and f: "provable K D W u (MerklePfx pb) 0 h (ConnectionFact i (confirmed_end cn j))"
  obtains m c' where "handle K D (ConnectionOpenConfirm_msg m) c = (Ok (), c')" and "W (world c')"
    and "conn_of K c' (MerklePfx pb) u i = Ok (Some (confirmed_end cn j))"
proof (rule provable_recorded [OF f W, of "MarshalConnectionEnd (cdc K) (confirmed_end cn j)"])
  fix pr c'
  assume pf: "proxy_fact K D u (MerklePfx pb) 0 h pr (ConnectionFact i (confirmed_end cn j)) c = (Ok (), c')"
    and st: "proxyStore c' = (proxyStore c)(slot_path (cdc K) (MerklePfx pb) u (fact_slot (ConnectionFact i (confirmed_end cn j)))
      \<mapsto> MarshalConnectionEnd (cdc K) (confirmed_end cn j))" and "W (world c')"
  let ?m = "\<lparr>coc_ConnectionId = i, coc_UpstreamClientId = u, coc_UpstreamPrefix = pb,
     coc_CounterpartyConnectionId = j, coc_ProofAck = pr, coc_ProofHeight = h, coc_Signer = []\<rparr>"
  have "handle K D (ConnectionOpenConfirm_msg ?m) c = (Ok (), c')"
    using cn pf by (simp add: ProxyConnectionOpenConfirm_def ConnOpenConfirm_Ok [OF L] confirmed_end_def)
  with \<open>W (world c')\<close> conn_of_recorded [OF cod, of c' c] st show ?thesis by (intro that) auto
qed simp

lemma deliver_ConnOpenFinalize:
  assumes L: "ics24_paths (cdc K)" and cod: "codec_ok (cdc K)" and W: "W (world c)"
    and cn: "conn_of K c (MerklePfx pb) u i = Ok (Some cn)" "ConnState cn = CONN_TRYOPEN"
    and f: "provable K D W u (MerklePfx pb) 0 h (ConnectionFact i (cn\<lparr>ConnState := CONN_OPEN\<rparr>))"
  obtains m c' where "handle K D (ConnectionOpenFinalize_msg m) c = (Ok (), c')" and "W (world c')"
    and "conn_of K c' (MerklePfx pb) u i = Ok (Some (cn\<lparr>ConnState := CONN_OPEN\<rparr>))"
proof (rule provable_recorded [OF f W, of "MarshalConnectionEnd (cdc K) (cn\<lparr>ConnState := CONN_OPEN\<rparr>)"])
  fix pr c'
  assume pf: "proxy_fact K D u (MerklePfx pb) 0 h pr (ConnectionFact i (cn\<lparr>ConnState := CONN_OPEN\<rparr>)) c = (Ok (), c')"
    and st: "proxyStore c' = (proxyStore c)(slot_path (cdc K) (MerklePfx pb) u (fact_slot (ConnectionFact i (cn\<lparr>ConnState := CONN_OPEN\<rparr>)))
      \<mapsto> MarshalConnectionEnd (cdc K) (cn\<lparr>ConnState := CONN_OPEN\<rparr>))" and "W (world c')"
  let ?m = "\<lparr>cof_ConnectionId = i, cof_UpstreamClientId = u, cof_UpstreamPrefix = pb, cof_ProofConfirm = pr,
     cof_ProofHeight = h, cof_Signer = []\<rparr>"
  have "handle K D (ConnectionOpenFinalize_msg ?m) c = (Ok (), c')"
    using cn pf by (simp add: ProxyConnectionOpenFinalize_def ConnOpenFinalize_Ok [OF L])
  with \<open>W (world c')\<close> conn_of_recorded [OF cod, of c' c] st show ?thesis by (intro that) auto
qed simp

text \<open>Recording a channel leaves the connections alone.\<close>

lemma provable_channel:
  assumes L: "ics24_paths (cdc K)" and cod: "codec_ok (cdc K)" and W: "W (world c)"
    and f: "provable K D W u p 0 h (ChannelFact a b ch)"
  obtains pr c' where "proxy_fact K D u p 0 h pr (ChannelFact a b ch) c = (Ok (), c')" and "W (world c')"
    and "chan_of K c' p u a b = Ok (Some ch)" and "\<forall>i. conn_of K c' p u i = conn_of K c p u i"
proof (rule provable_recorded [OF f W, of "MarshalChannel (cdc K) ch"])
  fix pr c'
  assume 1: "proxy_fact K D u p 0 h pr (ChannelFact a b ch) c = (Ok (), c')" "W (world c')"
    and "proxyStore c' = (proxyStore c)(slot_path (cdc K) p u (fact_slot (ChannelFact a b ch)) \<mapsto> MarshalChannel (cdc K) ch)"
  then have st: "proxyStore c' = (proxyStore c)(slot_path (cdc K) p u (ChannelSlot a b) \<mapsto> MarshalChannel (cdc K) ch)"
    by simp
  have "conn_of K c' p u i = conn_of K c p u i" for i by (rule conn_of_undisturbed [OF L _ st]) simp
  then show ?thesis using that [OF 1 chan_of_at [OF cod st]] by blast
qed simp

lemma deliver_ChanOpenTry:
  assumes L: "ics24_paths (cdc K)" and "codec_ok (cdc K)" and "W (world c)"
    and cn: "conn_of K c (MerklePfx pb) u i = Ok (Some cn)" "validateChannelOrder K order cn = Ok ()"
    and "provable K D W u (MerklePfx pb) 0 h (ChannelFact a b (new_channel CHAN_INIT order [i] a' [] ver))"
  shows "\<exists>m c'. handle K D (ChannelOpenTry_msg m) c = (Ok (), c') \<and> W (world c') \<and>
    chan_of K c' (MerklePfx pb) u a b = Ok (Some (new_channel CHAN_INIT order [i] a' [] ver)) \<and>
    (\<forall>i. conn_of K c' (MerklePfx pb) u i = conn_of K c (MerklePfx pb) u i)"
proof -
  obtain pr c' where pf: "proxy_fact K D u (MerklePfx pb) 0 h pr
      (ChannelFact a b (new_channel CHAN_INIT order [i] a' [] ver)) c = (Ok (), c')"
    and rest: "W (world c')" "chan_of K c' (MerklePfx pb) u a b = Ok (Some (new_channel CHAN_INIT order [i] a' [] ver))"
      "\<forall>i. conn_of K c' (MerklePfx pb) u i = conn_of K c (MerklePfx pb) u i"
    by (rule provable_channel [OF assms(1-3,6)])
  have "handle K D (ChannelOpenTry_msg \<lparr>hot_UpstreamClientId = u, hot_UpstreamPrefix = pb, hot_Order = order,
      hot_ConnectionHops = [i], hot_PortId = a, hot_ChannelId = b, hot_DownstreamPortId = a', hot_Version = ver,
      hot_ProofInit = pr, hot_ProofHeight = h, hot_Signer = []\<rparr>) c = (Ok (), c')"
    using cn pf by (simp add: ProxyChannelOpenTry_def ChanOpenTry_Ok [OF L])
  with rest show ?thesis by blast
qed

lemma deliver_ChanOpenAck:
  assumes L: "ics24_paths (cdc K)" and "codec_ok (cdc K)" and "W (world c)"
    and cn: "conn_of K c (MerklePfx pb) u i = Ok (Some cn)" "validateChannelOrder K order cn = Ok ()" "ConnState cn = CONN_OPEN"
    and "provable K D W u (MerklePfx pb) 0 h (ChannelFact a b (new_channel CHAN_TRYOPEN order [i] a' b' ver))"
  shows "\<exists>m c'. handle K D (ChannelOpenAck_msg m) c = (Ok (), c') \<and> W (world c') \<and>
    chan_of K c' (MerklePfx pb) u a b = Ok (Some (new_channel CHAN_TRYOPEN order [i] a' b' ver)) \<and>
    (\<forall>i. conn_of K c' (MerklePfx pb) u i = conn_of K c (MerklePfx pb) u i)"
proof -
  obtain pr c' where pf: "proxy_fact K D u (MerklePfx pb) 0 h pr
      (ChannelFact a b (new_channel CHAN_TRYOPEN order [i] a' b' ver)) c = (Ok (), c')"
    and rest: "W (world c')" "chan_of K c' (MerklePfx pb) u a b = Ok (Some (new_channel CHAN_TRYOPEN order [i] a' b' ver))"
      "\<forall>i. conn_of K c' (MerklePfx pb) u i = conn_of K c (MerklePfx pb) u i"
    by (rule provable_channel [OF assms(1-3,7)])
  have "handle K D (ChannelOpenAck_msg \<lparr>hoa_UpstreamClientId = u, hoa_UpstreamPrefix = pb, hoa_Order = order,
      hoa_ConnectionHops = [i], hoa_PortId = a, hoa_ChannelId = b, hoa_DownstreamPortId = a',
      hoa_DownstreamChannelId = b', hoa_Version = ver, hoa_ProofTry = pr, hoa_ProofHeight = h, hoa_Signer = []\<rparr>) c = (Ok (), c')"
    using cn pf by (simp add: ProxyChannelOpenAck_def ChanOpenAck_Ok [OF L])
  with rest show ?thesis by blast
qed

lemma deliver_ChanOpenConfirm:
  assumes L: "ics24_paths (cdc K)" and "codec_ok (cdc K)" and "W (world c)"
    and cn: "conn_of K c (MerklePfx pb) u i = Ok (Some cn)" "ConnState cn = CONN_OPEN"
    and ch: "chan_of K c (MerklePfx pb) u a b = Ok (Some (new_channel CHAN_INIT order [i] a' [] ver))"
    and "provable K D W u (MerklePfx pb) 0 h (ChannelFact a b (new_channel CHAN_OPEN order [i] a' b' ver))"
  shows "\<exists>m c'. handle K D (ChannelOpenConfirm_msg m) c = (Ok (), c') \<and> W (world c') \<and>
    chan_of K c' (MerklePfx pb) u a b = Ok (Some (new_channel CHAN_OPEN order [i] a' b' ver)) \<and>
    (\<forall>i. conn_of K c' (MerklePfx pb) u i = conn_of K c (MerklePfx pb) u i)"
proof -
  obtain pr c' where pf: "proxy_fact K D u (MerklePfx pb) 0 h pr
      (ChannelFact a b (new_channel CHAN_OPEN order [i] a' b' ver)) c = (Ok (), c')"
    and rest: "W (world c')" "chan_of K c' (MerklePfx pb) u a b = Ok (Some (new_channel CHAN_OPEN order [i] a' b' ver))"
      "\<forall>i. conn_of K c' (MerklePfx pb) u i = conn_of K c (MerklePfx pb) u i"
    by (rule provable_channel [OF assms(1-3,7)])
  have "handle K D (ChannelOpenConfirm_msg \<lparr>hoc_UpstreamClientId = u, hoc_UpstreamPrefix = pb, hoc_PortId = a,
      hoc_ChannelId = b, hoc_DownstreamChannelId = b', hoc_ProofAck = pr, hoc_ProofHeight = h, hoc_Signer = []\<rparr>) c = (Ok (), c')"
    using cn ch pf by (simp add: ProxyChannelOpenConfirm_def ChanOpenConfirm_Ok [OF L] new_channel_def)
  with rest show ?thesis by blast
qed

lemma deliver_ChanOpenFinalize:
  assumes L: "ics24_paths (cdc K)" and "codec_ok (cdc K)" and "W (world c)"
    and cn: "conn_of K c (MerklePfx pb) u i = Ok (Some cn)" "ConnState cn = CONN_OPEN"
    and ch: "chan_of K c (MerklePfx pb) u a b = Ok (Some (new_channel CHAN_TRYOPEN order [i] a' b' ver))"
    and "provable K D W u (MerklePfx pb) 0 h (ChannelFact a b (new_channel CHAN_OPEN order [i] a' b' ver))"
  shows "\<exists>m c'. handle K D (ChannelOpenFinalize_msg m) c = (Ok (), c') \<and> W (world c') \<and>
    chan_of K c' (MerklePfx pb) u a b = Ok (Some (new_channel CHAN_OPEN order [i] a' b' ver)) \<and>
    (\<forall>i. conn_of K c' (MerklePfx pb) u i = conn_of K c (MerklePfx pb) u i)"
proof -
  obtain pr c' where pf: "proxy_fact K D u (MerklePfx pb) 0 h pr
      (ChannelFact a b (new_channel CHAN_OPEN order [i] a' b' ver)) c = (Ok (), c')"
    and rest: "W (world c')" "chan_of K c' (MerklePfx pb) u a b = Ok (Some (new_channel CHAN_OPEN order [i] a' b' ver))"
      "\<forall>i. conn_of K c' (MerklePfx pb) u i = conn_of K c (MerklePfx pb) u i"
    by (rule provable_channel [OF assms(1-3,7)])
  have "handle K D (ChannelOpenFinalize_msg \<lparr>hof_UpstreamClientId = u, hof_UpstreamPrefix = pb, hof_PortId = a,
      hof_ChannelId = b, hof_ProofConfirm = pr, hof_ProofHeight = h, hof_Signer = []\<rparr>) c = (Ok (), c')"
    using cn ch pf by (simp add: ProxyChannelOpenFinalize_def ChanOpenFinalize_Ok [OF L] new_channel_def)
  with rest show ?thesis by blast
qed

text \<open>Packets and acknowledgements leave connections and channels alone.\<close>

lemma deliver_RecvPacket:
  fixes pkt :: Packet
  assumes L: "ics24_paths (cdc K)" and W: "W (world c)"
    and cn: "conn_of K c (MerklePfx pb) u i = Ok (Some cn)"
    and ch: "chan_of K c (MerklePfx pb) u (SourcePort pkt) (SourceChannel pkt) =
      Ok (Some (new_channel s order [i] (DestinationPort pkt) (DestinationChannel pkt) ver))"
    and f: "provable K D W u (MerklePfx pb) (DelayPeriod cn) h
      (PacketCommitmentFact (SourcePort pkt) (SourceChannel pkt) (Sequence pkt) (CommitPacket (cdc K) pkt))"
  shows "\<exists>m c'. handle K D (RecvPacket_msg m) c = (Ok (), c') \<and>
    conn_of K c' (MerklePfx pb) u i = Ok (Some cn) \<and>
    proxyStore c' (slot_path (cdc K) (MerklePfx pb) u
      (PacketCommitmentSlot (SourcePort pkt) (SourceChannel pkt) (Sequence pkt))) = Some (CommitPacket (cdc K) pkt)"
proof -
  let ?f = "PacketCommitmentFact (SourcePort pkt) (SourceChannel pkt) (Sequence pkt) (CommitPacket (cdc K) pkt)"
  obtain pr c' where pf: "proxy_fact K D u (MerklePfx pb) (DelayPeriod cn) h pr ?f c = (Ok (), c')"
    and st: "proxyStore c' = (proxyStore c)(slot_path (cdc K) (MerklePfx pb) u (fact_slot ?f) \<mapsto> CommitPacket (cdc K) pkt)"
    by (rule provable_recorded [OF f W]) auto
  have "handle K D (RecvPacket_msg \<lparr>prp_UpstreamClientId = u, prp_UpstreamPrefix = pb, prp_Packet = pkt,
      prp_Proof = pr, prp_ProofHeight = h, prp_Signer = []\<rparr>) c = (Ok (), c')"
    using cn ch pf by (simp add: ProxyRecvPacket_def RecvPacket_Ok [OF L] new_channel_def)
  moreover have "conn_of K c' (MerklePfx pb) u i = Ok (Some cn)"
    unfolding cn [symmetric] by (rule conn_of_undisturbed [OF L _ st]) simp
  moreover have "proxyStore c' (slot_path (cdc K) (MerklePfx pb) u
      (PacketCommitmentSlot (SourcePort pkt) (SourceChannel pkt) (Sequence pkt))) = Some (CommitPacket (cdc K) pkt)"
    using st by simp
  ultimately show ?thesis by blast
qed

lemma deliver_AcknowledgePacket:
  fixes pkt :: Packet
  assumes L: "ics24_paths (cdc K)" and W: "W (world c)"
    and cn: "conn_of K c (MerklePfx pb) u i = Ok (Some cn)"
    and ch: "chan_of K c (MerklePfx pb) u (DestinationPort pkt) (DestinationChannel pkt) =
      Ok (Some (new_channel s order [i] a' b' ver))"
    and f: "provable K D W u (MerklePfx pb) (DelayPeriod cn) h
      (PacketAckFact (DestinationPort pkt) (DestinationChannel pkt) (Sequence pkt) ack)"
  shows "\<exists>m c'. handle K D (AcknowledgePacket_msg m) c = (Ok (), c') \<and>
    conn_of K c' (MerklePfx pb) u i = Ok (Some cn) \<and>
    proxyStore c' (slot_path (cdc K) (MerklePfx pb) u
      (PacketAckSlot (DestinationPort pkt) (DestinationChannel pkt) (Sequence pkt))) = Some (CommitAcknowledgement (cdc K) ack)"
proof -
  let ?f = "PacketAckFact (DestinationPort pkt) (DestinationChannel pkt) (Sequence pkt) ack"
  obtain pr c' where pf: "proxy_fact K D u (MerklePfx pb) (DelayPeriod cn) h pr ?f c = (Ok (), c')"
    and st: "proxyStore c' = (proxyStore c)(slot_path (cdc K) (MerklePfx pb) u (fact_slot ?f) \<mapsto> CommitAcknowledgement (cdc K) ack)"
    by (rule provable_recorded [OF f W]) auto
  have "handle K D (AcknowledgePacket_msg \<lparr>pap_UpstreamClientId = u, pap_UpstreamPrefix = pb, pap_Packet = pkt,
      pap_Acknowledgement = ack, pap_Proof = pr, pap_ProofHeight = h, pap_Signer = []\<rparr>) c = (Ok (), c')"
    using cn ch pf by (simp add: ProxyAcknowledgePacket_def AcknowledgePacket_Ok [OF L] new_channel_def)
  moreover have "conn_of K c' (MerklePfx pb) u i = Ok (Some cn)"
    unfolding cn [symmetric] by (rule conn_of_undisturbed [OF L _ st]) simp
  moreover have "proxyStore c' (slot_path (cdc K) (MerklePfx pb) u
      (PacketAckSlot (DestinationPort pkt) (DestinationChannel pkt) (Sequence pkt))) = Some (CommitAcknowledgement (cdc K) ack)"
    using st by simp
  ultimately show ?thesis by blast
qed

section \<open>Proving what the proxy recorded to the downstream chain\<close>

text \<open>
  The converse of \<open>tracks\<close>: when a consensus state that the client finds in its store commits to
  a state of the proxy chain, and the store named \<open>pp\<close> holds there the value of a statement
  (other than an absence), there is a proof of it that the client accepts. \<open>ready\<close> stands for
  what else a client may ask for: that it is active and the delay has passed.
\<close>

definition complete ::
  "'x lib \<Rightarrow> ('x, 'j) client_ops \<Rightarrow> 'x client_state \<Rightarrow> ('x consensus_state \<Rightarrow> 'i ctx \<Rightarrow> bool) \<Rightarrow>
    ('j \<Rightarrow> Height \<Rightarrow> u64 \<Rightarrow> u64 \<Rightarrow> kvstore \<Rightarrow> bool) \<Rightarrow> string \<Rightarrow> bool" where
  "complete L D inner commits ready pp \<longleftrightarrow>
     (\<forall>w h d e s k c q f b. ready w h d e s \<longrightarrow> reads_consensus L s h k \<longrightarrow> commits k c \<longrightarrow>
        \<not> is_absence f \<longrightarrow> fact_value L f = Ok b \<longrightarrow>
        proxyStore c (q @ ''/'' @ slot_key L (fact_slot f)) = Some b \<longrightarrow>
        (\<exists>pr. fst (ask_fact D inner w h d e (MultiPrefix (MerklePfx pp) q) pr f s) = Ok ()))"

lemma completeD:
  assumes "complete L D inner commits ready pp" and "ready w h d e s" and "reads_consensus L s h k" and "commits k c"
    and "\<not> is_absence f" and "fact_value L f = Ok b" and "proxyStore c (q @ ''/'' @ slot_key L (fact_slot f)) = Some b"
  shows "\<exists>pr. fst (ask_fact D inner w h d e (MultiPrefix (MerklePfx pp) q) pr f s) = Ok ()"
  using assms unfolding complete_def by blast

text \<open>A Proxy Client that knows a state of the proxy chain accepts what is recorded in it.\<close>

lemma proxy_client_accepts_recorded:
  assumes L: "ics24_paths L" and cod: "codec_ok L"
    and client: "GetProxyClientState L cs = Ok inner" "ProxyPrefix cs = Some pp" "complete L D inner commits ready pp"
    and knows: "knows L commits s h c" and ready: "ready w h d e (NewProxyExtractorStore s)"
    and p: "p \<noteq> NilMerklePfx" and f: "\<not> is_absence f" "fact_value L f = Ok b"
    and at: "proxyStore c (slot_path L p (UpstreamClientId cs) (fact_slot f)) = Some b"
  shows "\<exists>pr. fst (ask_fact (method_table L E D) (ProxyClient cs) w h d e p pr f s) = Ok ()"
proof -
  let ?q = "UpstreamClientId cs @ ''/'' @ PrefixBytes L p"
  have "newPrefix L (Some pp) p (UpstreamClientId cs) = Ok (MultiPrefix (MerklePfx pp) ?q)"
    using p by (simp add: newPrefix_def Prefix_Bytes_def prefix_ptr_def)
  moreover obtain k where k: "reads_consensus L (NewProxyExtractorStore s) h k" "commits k c"
    by (rule knows_reads [OF L cod knows])
  have "proxyStore c (?q @ ''/'' @ slot_key L (fact_slot f)) = Some b"
    using at by (simp add: slot_path_def ProxyKey_def)
  from completeD [OF client(3) ready k f this]
  obtain pr where "fst (ask_fact D inner w h d e (MultiPrefix (MerklePfx pp) ?q) pr f (NewProxyExtractorStore s)) = Ok ()"
    by blast
  ultimately show ?thesis
    using client(1,2) by (intro exI [of _ pr])
      (simp add: proxy_client_fact mbind_apply on_extractor_def case_prod_beta)
qed

section \<open>Finite stores\<close>

text \<open>Messages leave a finite store finite.\<close>

lemma handle_finite:
  assumes "ics24_paths (cdc K)" and "handle K D m c = (r, c')" and fin: "finite (dom (proxyStore c))"
  shows "finite (dom (proxyStore c'))"
  using keepsD [OF mirrors_handle [OF assms(1)] assms(2)]
proof (induction rule: rtranclp_induct)
  case (step y z)
  from step.hyps(2) have "\<exists>k v. proxyStore z = proxyStore y \<or> proxyStore z = (proxyStore y)(k \<mapsto> v)"
    by (rule mirror_stepE) (erule proxy_fact_cases, auto)
  then show ?case using step.IH by (elim exE disjE) (simp_all del: fun_upd_apply)
qed (rule fin)

lemma relay_finite:
  "ics24_paths (cdc K) \<Longrightarrow> relay K D ems c = (Ok (), c') \<Longrightarrow> finite (dom (proxyStore c)) \<Longrightarrow> finite (dom (proxyStore c'))"
proof (induction ems arbitrary: c)
  case (Cons em ems)
  from Cons.prems(2) obtain c1 where "handle K D (snd em) (c\<lparr>world := fst em (world c)\<rparr>) = (Ok (), c1)"
    and "relay K D ems c1 = (Ok (), c')"
    by (auto simp: outcome_simps)
  with handle_finite [OF Cons.prems(1) this(1)] Cons show ?case by simp
qed simp

end
