(* ===== verification/Relay_Properties.thy ===== *)
theory Relay_Properties
  imports Relay
begin

text \<open>
  Liveness of the whole path: what is true on the upstream chain can be relayed through the
  proxy to the downstream chain. The two theorems are the two sides of a connection; each
  names the messages that do it.
\<close>

lemma validateChannelOrder_versions:
  "Versions cn' = Versions cn \<Longrightarrow> validateChannelOrder K order cn' = validateChannelOrder K order cn"
  by (simp add: validateChannelOrder_def)

text \<open>The conditions at the five turns, when the rest of the chain moves before each.\<close>

lemma turns:
  assumes "\<And>n w. W n w \<Longrightarrow> W (Suc n) (e n w)"
  shows "W 0 w \<Longrightarrow> W 1 (e 0 w)" and "W 1 w \<Longrightarrow> W 2 (e 1 w)" and "W 2 w \<Longrightarrow> W 3 (e 2 w)"
    and "W 3 w \<Longrightarrow> W 4 (e 3 w)" and "W 4 w \<Longrightarrow> W 5 (e 4 w)"
  using assms [of 0] assms [of 1] assms [of 2] assms [of 3] assms [of 4]
  by (simp_all add: numeral_2_eq_2 eval_nat_numeral)

text \<open>
  C5. A packet reaches the downstream chain. Let the rest of the proxy chain move before each
  message (\<open>e n\<close>, from condition \<open>W n\<close> to \<open>W (n + 1)\<close>: its light client of upstream is updated), let
  upstream initiate a connection that the proxy does not know yet, and let each of its
  statements along the way (both client statements and the end in INIT, the end OPEN, the
  channel in INIT and OPEN, the packet's commitment under the connection's delay) be provable
  to the light client of upstream when its turn comes. Then five messages, Try and Confirm of the
  connection, Try and Confirm of the channel and the packet, all succeed in this order. And
  whenever the downstream chain's Proxy Client knows the resulting state \<open>c'\<close> of the proxy chain,
  and wraps a client that accepts proofs of what the states it knows hold, then it accepts a
  proof of the packet's commitment.
\<close>

theorem packet_reaches_downstream:
  fixes pkt :: Packet
  assumes L: "ics24_paths (cdc K)" and cod: "codec_ok (cdc K)"
    and W: "W 0 (world c)" and env: "\<And>n w. W n w \<Longrightarrow> W (Suc n) (e n w)"
    and ready: "handshake_ready K D (W 1) self (MerklePfx pb) h1 i cn dc ch dk" and init: "ConnState cn = CONN_INIT"
    and fresh: "conn_of K c (MerklePfx pb) (UpstreamClientId self) i = Ok None"
    and opened: "provable K D (W 2) (UpstreamClientId self) (MerklePfx pb) 0 h2 (ConnectionFact i (confirmed_end cn j))"
    and order: "validateChannelOrder K order cn = Ok ()"
    and chan: "provable K D (W 3) (UpstreamClientId self) (MerklePfx pb) 0 h3 (ChannelFact (SourcePort pkt) (SourceChannel pkt)
        (new_channel CHAN_INIT order [i] (DestinationPort pkt) [] ver))"
      "provable K D (W 4) (UpstreamClientId self) (MerklePfx pb) 0 h4 (ChannelFact (SourcePort pkt) (SourceChannel pkt)
        (new_channel CHAN_OPEN order [i] (DestinationPort pkt) (DestinationChannel pkt) ver))"
    and sent: "provable K D (W 5) (UpstreamClientId self) (MerklePfx pb) (DelayPeriod cn) h5
      (PacketCommitmentFact (SourcePort pkt) (SourceChannel pkt) (Sequence pkt) (CommitPacket (cdc K) pkt))"
    and client: "GetProxyClientState (cdc K) cs = Ok inner" "ProxyPrefix cs = Some pp"
      "complete (cdc K) DD inner commits able pp" and same: "UpstreamClientId cs = UpstreamClientId self"
  shows "\<exists>m1 m2 m3 m4 m5 c'. relay K D [(e 0, ConnectionOpenTry_msg m1), (e 1, ConnectionOpenConfirm_msg m2),
      (e 2, ChannelOpenTry_msg m3), (e 3, ChannelOpenConfirm_msg m4), (e 4, RecvPacket_msg m5)] c = (Ok (), c') \<and>
    conn_of K c' (MerklePfx pb) (UpstreamClientId self) i = Ok (Some (confirmed_end cn j)) \<and>
    (\<forall>s h w t d. knows (cdc K) commits s h c' \<and> able w h t d (NewProxyExtractorStore s) \<longrightarrow>
      (\<exists>pr. fst (ask_fact (method_table (cdc K) E DD) (ProxyClient cs) w h t d (MerklePfx pb) pr
        (PacketCommitmentFact (SourcePort pkt) (SourceChannel pkt) (Sequence pkt) (CommitPacket (cdc K) pkt)) s) = Ok ()))"
proof -
  let ?u = "UpstreamClientId self" and ?p = "MerklePfx pb"
  let ?f = "PacketCommitmentFact (SourcePort pkt) (SourceChannel pkt) (Sequence pkt) (CommitPacket (cdc K) pkt)"
  note turn = turns [of W e, OF env]
  obtain m1 c1 where 1: "handle K D (ConnectionOpenTry_msg m1) (c\<lparr>world := e 0 (world c)\<rparr>) = (Ok (), c1)" "W 1 (world c1)"
    "conn_of K c1 ?p ?u i = Ok (Some cn)"
    by (rule deliver_ConnOpenTry [where c = "c\<lparr>world := e 0 (world c)\<rparr>", OF L cod _ ready init])
      (use W turn fresh in simp_all)
  obtain m2 c2 where 2: "handle K D (ConnectionOpenConfirm_msg m2) (c1\<lparr>world := e 1 (world c1)\<rparr>) = (Ok (), c2)" "W 2 (world c2)"
    "conn_of K c2 ?p ?u i = Ok (Some (confirmed_end cn j))"
    by (rule deliver_ConnOpenConfirm [where c = "c1\<lparr>world := e 1 (world c1)\<rparr>", OF L cod _ _ init opened])
      (use 1 turn in simp_all)
  have ord: "validateChannelOrder K order (confirmed_end cn j) = Ok ()"
    using order by (simp add: validateChannelOrder_versions [of "confirmed_end cn j" cn])
  obtain m3 c3 where 3: "handle K D (ChannelOpenTry_msg m3) (c2\<lparr>world := e 2 (world c2)\<rparr>) = (Ok (), c3)" "W 3 (world c3)"
    "chan_of K c3 ?p ?u (SourcePort pkt) (SourceChannel pkt) = Ok (Some (new_channel CHAN_INIT order [i] (DestinationPort pkt) [] ver))"
    "conn_of K c3 ?p ?u i = Ok (Some (confirmed_end cn j))"
    using deliver_ChanOpenTry [where c = "c2\<lparr>world := e 2 (world c2)\<rparr>", OF L cod _ _ ord chan(1)] 2 turn by auto
  obtain m4 c4 where 4: "handle K D (ChannelOpenConfirm_msg m4) (c3\<lparr>world := e 3 (world c3)\<rparr>) = (Ok (), c4)" "W 4 (world c4)"
    "chan_of K c4 ?p ?u (SourcePort pkt) (SourceChannel pkt) =
      Ok (Some (new_channel CHAN_OPEN order [i] (DestinationPort pkt) (DestinationChannel pkt) ver))"
    "conn_of K c4 ?p ?u i = Ok (Some (confirmed_end cn j))"
    using deliver_ChanOpenConfirm [where c = "c3\<lparr>world := e 3 (world c3)\<rparr>", OF L cod _ _ _ _ chan(2)] 3 turn by auto
  have sent': "provable K D (W 5) ?u ?p (DelayPeriod (confirmed_end cn j)) h5 ?f" using sent by simp
  obtain m5 c5 where 5: "handle K D (RecvPacket_msg m5) (c4\<lparr>world := e 4 (world c4)\<rparr>) = (Ok (), c5)"
    "conn_of K c5 ?p ?u i = Ok (Some (confirmed_end cn j))"
    "proxyStore c5 (slot_path (cdc K) ?p ?u (fact_slot ?f)) = Some (CommitPacket (cdc K) pkt)"
    using deliver_RecvPacket [where c = "c4\<lparr>world := e 4 (world c4)\<rparr>" and i = i and s = CHAN_OPEN and order = order and ver = ver, OF L _ _ _ sent'] 4 turn by auto
  have "\<exists>pr. fst (ask_fact (method_table (cdc K) E DD) (ProxyClient cs) w h t d ?p pr ?f s) = Ok ()"
    if "knows (cdc K) commits s h c5" and "able w h t d (NewProxyExtractorStore s)" for s h w t d
    by (rule proxy_client_accepts_recorded [OF L cod client that]) (use 5(3) same in simp_all)
  moreover have "relay K D [(e 0, ConnectionOpenTry_msg m1), (e 1, ConnectionOpenConfirm_msg m2),
      (e 2, ChannelOpenTry_msg m3), (e 3, ChannelOpenConfirm_msg m4), (e 4, RecvPacket_msg m5)] c = (Ok (), c5)"
    by (intro relay_step [where e = "e 0", OF 1(1)] relay_step [where e = "e 1", OF 2(1)] relay_step [where e = "e 2", OF 3(1)]
        relay_step [where e = "e 3", OF 4(1)] relay_end 5(1))
  ultimately show ?thesis using 5(2) by blast
qed

text \<open>
  C6. An acknowledgement reaches the downstream chain. The same for the side on which upstream
  answers: its end goes from TRYOPEN to OPEN, its channel too, and it acknowledges a packet
  it received; the messages are Ack and Finalize of the connection and of the channel, and
  the acknowledgement.
\<close>

theorem acknowledgement_reaches_downstream:
  fixes pkt :: Packet
  assumes L: "ics24_paths (cdc K)" and cod: "codec_ok (cdc K)"
    and W: "W 0 (world c)" and env: "\<And>n w. W n w \<Longrightarrow> W (Suc n) (e n w)"
    and ready: "handshake_ready K D (W 1) self (MerklePfx pb) h1 i cn dc ch dk" and tryopen: "ConnState cn = CONN_TRYOPEN"
    and fresh: "conn_of K c (MerklePfx pb) (UpstreamClientId self) i = Ok None"
    and opened: "provable K D (W 2) (UpstreamClientId self) (MerklePfx pb) 0 h2 (ConnectionFact i (cn\<lparr>ConnState := CONN_OPEN\<rparr>))"
    and order: "validateChannelOrder K order cn = Ok ()"
    and chan: "provable K D (W 3) (UpstreamClientId self) (MerklePfx pb) 0 h3 (ChannelFact (DestinationPort pkt) (DestinationChannel pkt)
        (new_channel CHAN_TRYOPEN order [i] a' b' ver))"
      "provable K D (W 4) (UpstreamClientId self) (MerklePfx pb) 0 h4 (ChannelFact (DestinationPort pkt) (DestinationChannel pkt)
        (new_channel CHAN_OPEN order [i] a' b' ver))"
    and written: "provable K D (W 5) (UpstreamClientId self) (MerklePfx pb) (DelayPeriod cn) h5
      (PacketAckFact (DestinationPort pkt) (DestinationChannel pkt) (Sequence pkt) ack)"
    and client: "GetProxyClientState (cdc K) cs = Ok inner" "ProxyPrefix cs = Some pp"
      "complete (cdc K) DD inner commits able pp" and same: "UpstreamClientId cs = UpstreamClientId self"
  shows "\<exists>m1 m2 m3 m4 m5 c'. relay K D [(e 0, ConnectionOpenAck_msg m1), (e 1, ConnectionOpenFinalize_msg m2),
      (e 2, ChannelOpenAck_msg m3), (e 3, ChannelOpenFinalize_msg m4), (e 4, AcknowledgePacket_msg m5)] c = (Ok (), c') \<and>
    conn_of K c' (MerklePfx pb) (UpstreamClientId self) i = Ok (Some (cn\<lparr>ConnState := CONN_OPEN\<rparr>)) \<and>
    (\<forall>s h w t d. knows (cdc K) commits s h c' \<and> able w h t d (NewProxyExtractorStore s) \<longrightarrow>
      (\<exists>pr. fst (ask_fact (method_table (cdc K) E DD) (ProxyClient cs) w h t d (MerklePfx pb) pr
        (PacketAckFact (DestinationPort pkt) (DestinationChannel pkt) (Sequence pkt) ack) s) = Ok ()))"
proof -
  let ?u = "UpstreamClientId self" and ?p = "MerklePfx pb" and ?cn = "cn\<lparr>ConnState := CONN_OPEN\<rparr>"
  let ?f = "PacketAckFact (DestinationPort pkt) (DestinationChannel pkt) (Sequence pkt) ack"
  note turn = turns [of W e, OF env]
  obtain m1 c1 where 1: "handle K D (ConnectionOpenAck_msg m1) (c\<lparr>world := e 0 (world c)\<rparr>) = (Ok (), c1)" "W 1 (world c1)"
    "conn_of K c1 ?p ?u i = Ok (Some cn)"
    by (rule deliver_ConnOpenAck [where c = "c\<lparr>world := e 0 (world c)\<rparr>", OF L cod _ ready tryopen])
      (use W turn fresh in simp_all)
  obtain m2 c2 where 2: "handle K D (ConnectionOpenFinalize_msg m2) (c1\<lparr>world := e 1 (world c1)\<rparr>) = (Ok (), c2)" "W 2 (world c2)"
    "conn_of K c2 ?p ?u i = Ok (Some ?cn)"
    by (rule deliver_ConnOpenFinalize [where c = "c1\<lparr>world := e 1 (world c1)\<rparr>", OF L cod _ _ tryopen opened])
      (use 1 turn in simp_all)
  have ord: "validateChannelOrder K order ?cn = Ok ()"
    using order by (simp add: validateChannelOrder_versions [of ?cn cn])
  obtain m3 c3 where 3: "handle K D (ChannelOpenAck_msg m3) (c2\<lparr>world := e 2 (world c2)\<rparr>) = (Ok (), c3)" "W 3 (world c3)"
    "chan_of K c3 ?p ?u (DestinationPort pkt) (DestinationChannel pkt) = Ok (Some (new_channel CHAN_TRYOPEN order [i] a' b' ver))"
    "conn_of K c3 ?p ?u i = Ok (Some ?cn)"
    using deliver_ChanOpenAck [where c = "c2\<lparr>world := e 2 (world c2)\<rparr>", OF L cod _ _ ord _ chan(1)] 2 turn by auto
  obtain m4 c4 where 4: "handle K D (ChannelOpenFinalize_msg m4) (c3\<lparr>world := e 3 (world c3)\<rparr>) = (Ok (), c4)" "W 4 (world c4)"
    "chan_of K c4 ?p ?u (DestinationPort pkt) (DestinationChannel pkt) = Ok (Some (new_channel CHAN_OPEN order [i] a' b' ver))"
    "conn_of K c4 ?p ?u i = Ok (Some ?cn)"
    using deliver_ChanOpenFinalize [where c = "c3\<lparr>world := e 3 (world c3)\<rparr>", OF L cod _ _ _ _ chan(2)] 3 turn by auto
  have written': "provable K D (W 5) ?u ?p (DelayPeriod ?cn) h5 ?f" using written by simp
  obtain m5 c5 where 5: "handle K D (AcknowledgePacket_msg m5) (c4\<lparr>world := e 4 (world c4)\<rparr>) = (Ok (), c5)"
    "conn_of K c5 ?p ?u i = Ok (Some ?cn)"
    "proxyStore c5 (slot_path (cdc K) ?p ?u (fact_slot ?f)) = Some (CommitAcknowledgement (cdc K) ack)"
    using deliver_AcknowledgePacket [where c = "c4\<lparr>world := e 4 (world c4)\<rparr>" and i = i and s = CHAN_OPEN and order = order and ver = ver
        and a' = a' and b' = b', OF L _ _ _ written'] 4 turn by auto
  have "\<exists>pr. fst (ask_fact (method_table (cdc K) E DD) (ProxyClient cs) w h t d ?p pr ?f s) = Ok ()"
    if "knows (cdc K) commits s h c5" and "able w h t d (NewProxyExtractorStore s)" for s h w t d
    by (rule proxy_client_accepts_recorded [OF L cod client that]) (use 5(3) same in simp_all)
  moreover have "relay K D [(e 0, ConnectionOpenAck_msg m1), (e 1, ConnectionOpenFinalize_msg m2),
      (e 2, ChannelOpenAck_msg m3), (e 3, ChannelOpenFinalize_msg m4), (e 4, AcknowledgePacket_msg m5)] c = (Ok (), c5)"
    by (intro relay_step [where e = "e 0", OF 1(1)] relay_step [where e = "e 1", OF 2(1)] relay_step [where e = "e 2", OF 3(1)]
        relay_step [where e = "e 3", OF 4(1)] relay_end 5(1))
  ultimately show ?thesis using 5(2) by blast
qed

section \<open>An instance\<close>

text \<open>
  Sound clients on both sides. Client \<open>x\<close> looks up the consensus state in its store, and accepts
  a statement exactly when it is true (\<open>T\<close>) of the state with the number found there. Before each
  message the client of \<open>up\<close> on the proxy is updated by one height.
\<close>

definition truth_check :: "nat client_state \<Rightarrow> Height \<Rightarrow> (nat \<Rightarrow> nat \<Rightarrow> bool) \<Rightarrow> (kvstore, unit) prog" where
  "truth_check t h P = (case t of ExternalClient x \<Rightarrow> root_check h (P x) | _ \<Rightarrow> mlift (Err (ErrLib ''client'')))"

definition truth_ops :: "(nat \<times> nat \<times> nat fact) list \<Rightarrow> (nat, 'i) client_ops" where
  "truth_ops T = demo_ops
     \<lparr>op_VerifyClientState := \<lambda>t h p i _ c. truth_check t h (\<lambda>x n. (x, n, ClientStateFact i c) \<in> set T),
      op_VerifyClientConsensusState := \<lambda>t h i ch p _ k. truth_check t h (\<lambda>x n. (x, n, ConsensusStateFact i ch k) \<in> set T),
      op_VerifyConnectionState := \<lambda>t h p _ i c. truth_check t h (\<lambda>x n. (x, n, ConnectionFact i c) \<in> set T),
      op_VerifyChannelState := \<lambda>t h p _ po cc c. truth_check t h (\<lambda>x n. (x, n, ChannelFact po cc c) \<in> set T),
      op_VerifyPacketCommitment := \<lambda>t _ h _ _ p _ po cc sq b. truth_check t h (\<lambda>x n. (x, n, PacketCommitmentFact po cc sq b) \<in> set T),
      op_VerifyPacketAcknowledgement := \<lambda>t _ h _ _ p _ po cc sq a. truth_check t h (\<lambda>x n. (x, n, PacketAckFact po cc sq a) \<in> set T),
      op_VerifyPacketReceiptAbsence := \<lambda>t _ h _ _ p _ po cc sq. truth_check t h (\<lambda>x n. (x, n, ReceiptAbsenceFact po cc sq) \<in> set T),
      op_VerifyNextSequenceRecv := \<lambda>t _ h _ _ p _ po cc sq. truth_check t h (\<lambda>x n. (x, n, NextSequenceRecvFact po cc sq) \<in> set T)\<rparr>"

definition up_height :: "nat \<Rightarrow> Height" where
  "up_height n = \<lparr>RevisionNumber = 0, RevisionHeight = word_of_nat n\<rparr>"

definition up_world :: "nat \<Rightarrow> demo_world" where
  "up_world n = [''up'' \<mapsto> (ExternalClient 1,
     MapStore [ConsensusStateKey demo_lib (up_height n) \<mapsto> enc_consensus (ExternalConsensus n)])]"

definition up_move :: "nat \<Rightarrow> demo_world \<Rightarrow> demo_world" where
  "up_move n w = up_world (Suc n)"

definition up_start :: "demo_world ctx" where
  "up_start = (demo_ctx [])\<lparr>world := up_world 0\<rparr>"

lemma truth_verify: "verify_fact (truth_ops T) t w h d p pr f = truth_check t h (\<lambda>x n. (x, n, f) \<in> set T)"
  by (cases f) (simp_all add: truth_ops_def)

lemma truth_provable:
  assumes "(1, n, f) \<in> set T"
  shows "provable demo_keeper (truth_ops T) (\<lambda>w. w = up_world n) ''up'' p d (up_height n) f"
  unfolding provable_def
proof (intro allI impI)
  fix c :: "demo_world ctx"
  assume w: "world c = up_world n"
  let ?s = "MapStore [ConsensusStateKey demo_lib (up_height n) \<mapsto> enc_consensus (ExternalConsensus n)]"
  have "reads_consensus demo_lib ?s (up_height n) (ExternalConsensus n)"
    by (simp add: reads_consensus_def demo_simps del: enc_consensus.simps)
  then have "root_check (up_height n) (\<lambda>m. (1, m, f) \<in> set T) ?s = (Ok (), ?s)"
    using assms by (auto simp: root_check_Ok)
  then have "check_fact demo_keeper (truth_ops T) ''up'' p d (up_height n) pr f c = (Ok (), c)" for pr
    using w by (cases c) (simp add: check_fact_apply demo_keeper_def NewClientKeeper_def demo_client_keeper_def
        truth_verify truth_check_def with_client_store_def up_world_def del: enc_consensus.simps)
  then show "\<exists>pr. fst (check_fact demo_keeper (truth_ops T) ''up'' p d (up_height n) pr f c) = Ok () \<and>
      world (snd (check_fact demo_keeper (truth_ops T) ''up'' p d (up_height n) pr f c)) = up_world n"
    using w by simp
qed

text \<open>What is true on the way: what downstream stores about the proxy, and the first statements of upstream.\<close>

definition self_consensus :: ProxyConsensusState where
  "self_consensus = \<lparr>ProxyConsensusStateAny = Some (any_of (enc_consensus (ExternalConsensus 5)))\<rparr>"

definition opening_truth :: "int32 \<Rightarrow> (nat \<times> nat \<times> nat fact) list" where
  "opening_truth s =
     [(3, 4, ClientStateFact ''cp'' (ProxyClient demo_self)),
      (3, 4, ConsensusStateFact ''cp'' demo_height (ProxyConsensus self_consensus)),
      (1, 1, ClientStateFact ''cl'' (ExternalClient 3)),
      (1, 1, ConsensusStateFact ''cl'' demo_height (ExternalConsensus 4)),
      (1, 1, ConnectionFact ''c0'' (demo_conn s))]"

lemma demo_packable [simp]: "packable demo_lib cs" "packable_cons demo_lib k"
  by (simp_all add: packable_def packable_cons_def demo_simps)

lemma truth_downstream:
  assumes "set (opening_truth s) \<subseteq> set T"
  shows "verifyDownstream demo_keeper (truth_ops T) (ConnCp (demo_conn s)) (ExternalClient 3) (ExternalConsensus 4)
    demo_self self_consensus b b' h demo_height = Ok ()"
proof -
  let ?s = "MapStore [ConsensusStateKey demo_lib h \<mapsto> enc_consensus (ExternalConsensus 4)]"
  have "reads_consensus demo_lib ?s h (ExternalConsensus 4)"
    by (simp add: reads_consensus_def demo_simps del: enc_consensus.simps)
  then have "root_check h (\<lambda>m. (3, m, f) \<in> set T) ?s = (Ok (), ?s)" if "(3, 4, f) \<in> set T" for f
    using that by (auto simp: root_check_Ok)
  then have ok: "truth_check (ExternalClient 3) h (\<lambda>x m. (x, m, f) \<in> set T) ?s = (Ok (), ?s)" if "(3, 4, f) \<in> set T" for f
    using that by (simp add: truth_check_def)
  have mem: "Keeper_makeMemStore demo_lib (ExternalConsensus 4) h = Ok ?s"
    by (simp add: Keeper_makeMemStore_def demo_simps del: enc_consensus.simps)
  have "op_VerifyClientState (truth_ops T :: (nat, demo_world) client_ops) (ExternalClient 3) h p ''cp'' b (ProxyClient demo_self) ?s = (Ok (), ?s)"
    "op_VerifyClientConsensusState (truth_ops T :: (nat, demo_world) client_ops) (ExternalClient 3) h ''cp'' demo_height p b (ProxyConsensus self_consensus) ?s = (Ok (), ?s)"
    for p b
    using assms by (simp_all add: truth_ops_def ok opening_truth_def del: enc_consensus.simps)
  then show ?thesis
    by (simp add: verifyDownstream_def mem on_store_def mbind_apply demo_conn_def del: enc_consensus.simps)
qed

lemma truth_ready:
  assumes "set (opening_truth s) \<subseteq> set T"
  shows "handshake_ready demo_keeper (truth_ops T) (\<lambda>w. w = up_world 1) demo_self p (up_height 1) ''c0'' (demo_conn s)
    (ExternalClient 3) demo_height (ExternalConsensus 4)"
proof -
  have "getSelfConsensusState demo_keeper w demo_height = Ok self_consensus" for w
    by (simp add: demo_self_consensus self_consensus_def demo_height_def del: enc_consensus.simps)
  then have "self_proved demo_keeper (truth_ops T) (\<lambda>w. w = up_world 1) demo_self (demo_conn s) (ExternalClient 3) (ExternalConsensus 4)"
    unfolding self_proved_def using truth_downstream [OF assms] demo_validate_self by blast
  moreover have "UpstreamClientId demo_self = ''up''" "ClientId (demo_conn s) = ''cl''"
    by (simp_all add: demo_self_def demo_conn_def)
  ultimately show ?thesis
    using assms truth_provable [of 1 _ T] by (simp add: handshake_ready_def opening_truth_def)
qed

lemma up_start_fresh: "conn_of demo_keeper up_start demo_pfx ''up'' i = Ok None"
  by (simp add: up_start_def demo_simps)

lemma root_complete: "complete demo_lib (root_ops S :: (nat, 'j) client_ops) inner (root_commits S) (\<lambda>_ _ _ _ _. True) pp"
  unfolding complete_def
proof (intro allI impI exI)
  fix w :: 'j and h d e s k c q b and f :: "nat fact"
  assume "reads_consensus demo_lib s h k" "root_commits S k c" "\<not> is_absence f" "fact_value demo_lib f = Ok b"
    "proxyStore c (q @ ''/'' @ slot_key demo_lib (fact_slot f)) = Some b"
  from root_ops_complete [OF this, where w = w and inner = inner and d = d and e = e and pp = pp and pr = "[]"]
  show "fst (ask_fact (root_ops S) inner w h d e (MultiPrefix (MerklePfx pp) q) [] f s) = Ok ()" by simp
qed

lemma demo_inner: "GetProxyClientState (cdc demo_keeper) demo_self = Ok (ExternalClient 2)"
  by (simp add: GetProxyClientState_def demo_self_def demo_simps del: enc_client.simps)

text \<open>The downstream client's store can know whatever state the relayer ends in.\<close>

lemma relayed_known:
  assumes "relay demo_keeper D ems up_start = (Ok (), c')"
  shows "\<exists>n. knows demo_lib (root_commits store_of) (proxy_root_store n) demo_height c'"
proof -
  have "finite (dom (proxyStore c'))"
    by (rule relay_finite [OF _ assms]) (simp_all add: demo_paths up_start_def demo_ctx_def)
  then obtain n where "proxyStore c' = store_of n" using store_of_onto by metis
  then show ?thesis using proxy_root_knows [where S = store_of] by blast
qed

definition packet_truth :: "(nat \<times> nat \<times> nat fact) list" where
  "packet_truth = opening_truth CONN_INIT @
     [(1, 2, ConnectionFact ''c0'' (confirmed_end (demo_conn CONN_INIT) ''c1'')),
      (1, 3, ChannelFact ''pa'' ''ch'' (new_channel CHAN_INIT 1 [''c0''] ''pb'' [] ''v'')),
      (1, 4, ChannelFact ''pa'' ''ch'' (new_channel CHAN_OPEN 1 [''c0''] ''pb'' [] ''v'')),
      (1, 5, PacketCommitmentFact ''pa'' ''ch'' 3 (CommitPacket demo_lib demo_packet))]"

lemma packet_reaches_downstream_witness:
  "\<exists>m1 m2 m3 m4 m5 c' n pr. relay demo_keeper (truth_ops packet_truth) [(up_move 0, ConnectionOpenTry_msg m1),
      (up_move 1, ConnectionOpenConfirm_msg m2), (up_move 2, ChannelOpenTry_msg m3),
      (up_move 3, ChannelOpenConfirm_msg m4), (up_move 4, RecvPacket_msg m5)] up_start = (Ok (), c') \<and>
    fst (ask_fact (method_table demo_lib demo_ops (root_ops store_of)) (ProxyClient demo_self) demo_world demo_height 0 0 demo_pfx pr
      (PacketCommitmentFact ''pa'' ''ch'' 3 (CommitPacket demo_lib demo_packet)) (proxy_root_store n)) = Ok ()"
proof -
  have L: "ics24_paths (cdc demo_keeper)" and cod: "codec_ok (cdc demo_keeper)"
    and up: "UpstreamClientId demo_self = ''up''" and pp: "ProxyPrefix demo_self = Some ''proxy''"
    and init: "ConnState (demo_conn CONN_INIT) = CONN_INIT" and W: "world up_start = up_world 0"
    and fresh: "conn_of demo_keeper up_start demo_pfx (UpstreamClientId demo_self) ''c0'' = Ok None"
    by (simp_all add: demo_paths demo_codec demo_self_def demo_conn_def up_start_fresh) (simp add: up_start_def)
  have env: "up_move n w = up_world (Suc n)" for n w by (simp add: up_move_def)
  have ready: "handshake_ready demo_keeper (truth_ops packet_truth) (\<lambda>w. w = up_world 1) demo_self demo_pfx (up_height 1) ''c0''
      (demo_conn CONN_INIT) (ExternalClient 3) demo_height (ExternalConsensus 4)"
    by (rule truth_ready) (auto simp: packet_truth_def)
  have turn: "provable demo_keeper (truth_ops packet_truth) (\<lambda>w. w = up_world n) (UpstreamClientId demo_self) demo_pfx d (up_height n) f"
    if "(1, n, f) \<in> set packet_truth" for n d f
    unfolding up by (rule truth_provable [OF that])
  have t2: "(1, 2, ConnectionFact ''c0'' (confirmed_end (demo_conn CONN_INIT) ''c1'')) \<in> set packet_truth"
    and t3: "(1, 3, ChannelFact (SourcePort demo_packet) (SourceChannel demo_packet)
      (new_channel CHAN_INIT 1 [''c0''] (DestinationPort demo_packet) [] ''v'')) \<in> set packet_truth"
    and t4: "(1, 4, ChannelFact (SourcePort demo_packet) (SourceChannel demo_packet)
      (new_channel CHAN_OPEN 1 [''c0''] (DestinationPort demo_packet) (DestinationChannel demo_packet) ''v'')) \<in> set packet_truth"
    and t5: "(1, 5, PacketCommitmentFact (SourcePort demo_packet) (SourceChannel demo_packet) (Sequence demo_packet)
      (CommitPacket (cdc demo_keeper) demo_packet)) \<in> set packet_truth"
    by (simp_all add: packet_truth_def demo_packet_def)
  note delivered = packet_reaches_downstream [where D = "truth_ops packet_truth" and DD = "root_ops store_of :: (nat, demo_world) client_ops" and E = demo_ops
        and W = "\<lambda>n w. w = up_world n" and e = up_move and able = "\<lambda>_ _ _ _ _. True",
      OF L cod W env ready init fresh turn [OF t2] demo_order turn [OF t3] turn [OF t4] turn [OF t5] demo_inner pp
        root_complete [of store_of, folded demo_cdc] refl]
  obtain m1 m2 m3 m4 m5 c' where run: "relay demo_keeper (truth_ops packet_truth) [(up_move 0, ConnectionOpenTry_msg m1),
      (up_move 1, ConnectionOpenConfirm_msg m2), (up_move 2, ChannelOpenTry_msg m3),
      (up_move 3, ChannelOpenConfirm_msg m4), (up_move 4, RecvPacket_msg m5)] up_start = (Ok (), c')"
    and acc: "\<And>s. knows (cdc demo_keeper) (root_commits store_of) s demo_height c' \<Longrightarrow>
      \<exists>pr. fst (ask_fact (method_table (cdc demo_keeper) demo_ops (root_ops store_of)) (ProxyClient demo_self) demo_world
        demo_height 0 0 demo_pfx pr (PacketCommitmentFact (SourcePort demo_packet) (SourceChannel demo_packet) (Sequence demo_packet)
        (CommitPacket (cdc demo_keeper) demo_packet)) s) = Ok ()"
    using delivered by blast
  from relayed_known [OF run] obtain n where "knows (cdc demo_keeper) (root_commits store_of) (proxy_root_store n) demo_height c'"
    by auto
  from acc [OF this] run show ?thesis by (simp add: demo_packet_def) blast
qed

definition demo_answered :: Packet where
  "demo_answered = demo_packet\<lparr>DestinationPort := ''pa'', DestinationChannel := ''ch''\<rparr>"

definition acknowledgement_truth :: "(nat \<times> nat \<times> nat fact) list" where
  "acknowledgement_truth = opening_truth CONN_TRYOPEN @
     [(1, 2, ConnectionFact ''c0'' ((demo_conn CONN_TRYOPEN)\<lparr>ConnState := CONN_OPEN\<rparr>)),
      (1, 3, ChannelFact ''pa'' ''ch'' (new_channel CHAN_TRYOPEN 1 [''c0''] ''pb'' ''cb'' ''v'')),
      (1, 4, ChannelFact ''pa'' ''ch'' (new_channel CHAN_OPEN 1 [''c0''] ''pb'' ''cb'' ''v'')),
      (1, 5, PacketAckFact ''pa'' ''ch'' 3 [9])]"

lemma acknowledgement_reaches_downstream_witness:
  "\<exists>m1 m2 m3 m4 m5 c' n pr. relay demo_keeper (truth_ops acknowledgement_truth) [(up_move 0, ConnectionOpenAck_msg m1),
      (up_move 1, ConnectionOpenFinalize_msg m2), (up_move 2, ChannelOpenAck_msg m3),
      (up_move 3, ChannelOpenFinalize_msg m4), (up_move 4, AcknowledgePacket_msg m5)] up_start = (Ok (), c') \<and>
    fst (ask_fact (method_table demo_lib demo_ops (root_ops store_of)) (ProxyClient demo_self) demo_world demo_height 0 0 demo_pfx pr
      (PacketAckFact ''pa'' ''ch'' 3 [9]) (proxy_root_store n)) = Ok ()"
proof -
  have L: "ics24_paths (cdc demo_keeper)" and cod: "codec_ok (cdc demo_keeper)"
    and up: "UpstreamClientId demo_self = ''up''" and pp: "ProxyPrefix demo_self = Some ''proxy''"
    and tryopen: "ConnState (demo_conn CONN_TRYOPEN) = CONN_TRYOPEN" and W: "world up_start = up_world 0"
    and fresh: "conn_of demo_keeper up_start demo_pfx (UpstreamClientId demo_self) ''c0'' = Ok None"
    by (simp_all add: demo_paths demo_codec demo_self_def demo_conn_def up_start_fresh) (simp add: up_start_def)
  have env: "up_move n w = up_world (Suc n)" for n w by (simp add: up_move_def)
  have ready: "handshake_ready demo_keeper (truth_ops acknowledgement_truth) (\<lambda>w. w = up_world 1) demo_self demo_pfx (up_height 1) ''c0''
      (demo_conn CONN_TRYOPEN) (ExternalClient 3) demo_height (ExternalConsensus 4)"
    by (rule truth_ready) (auto simp: acknowledgement_truth_def)
  have turn: "provable demo_keeper (truth_ops acknowledgement_truth) (\<lambda>w. w = up_world n) (UpstreamClientId demo_self) demo_pfx d (up_height n) f"
    if "(1, n, f) \<in> set acknowledgement_truth" for n d f
    unfolding up by (rule truth_provable [OF that])
  have t2: "(1, 2, ConnectionFact ''c0'' ((demo_conn CONN_TRYOPEN)\<lparr>ConnState := CONN_OPEN\<rparr>)) \<in> set acknowledgement_truth"
    and t3: "(1, 3, ChannelFact (DestinationPort demo_answered) (DestinationChannel demo_answered)
      (new_channel CHAN_TRYOPEN 1 [''c0''] ''pb'' ''cb'' ''v'')) \<in> set acknowledgement_truth"
    and t4: "(1, 4, ChannelFact (DestinationPort demo_answered) (DestinationChannel demo_answered)
      (new_channel CHAN_OPEN 1 [''c0''] ''pb'' ''cb'' ''v'')) \<in> set acknowledgement_truth"
    and t5: "(1, 5, PacketAckFact (DestinationPort demo_answered) (DestinationChannel demo_answered) (Sequence demo_answered) [9])
      \<in> set acknowledgement_truth"
    by (simp_all add: acknowledgement_truth_def demo_answered_def demo_packet_def)
  note delivered = acknowledgement_reaches_downstream [where D = "truth_ops acknowledgement_truth" and E = demo_ops
        and DD = "root_ops store_of :: (nat, demo_world) client_ops"
        and W = "\<lambda>n w. w = up_world n" and e = up_move and able = "\<lambda>_ _ _ _ _. True",
      OF L cod W env ready tryopen fresh turn [OF t2] demo_order turn [OF t3] turn [OF t4] turn [OF t5] demo_inner pp
        root_complete [of store_of, folded demo_cdc] refl]
  obtain m1 m2 m3 m4 m5 c' where run: "relay demo_keeper (truth_ops acknowledgement_truth) [(up_move 0, ConnectionOpenAck_msg m1),
      (up_move 1, ConnectionOpenFinalize_msg m2), (up_move 2, ChannelOpenAck_msg m3),
      (up_move 3, ChannelOpenFinalize_msg m4), (up_move 4, AcknowledgePacket_msg m5)] up_start = (Ok (), c')"
    and acc: "\<And>s. knows (cdc demo_keeper) (root_commits store_of) s demo_height c' \<Longrightarrow>
      \<exists>pr. fst (ask_fact (method_table (cdc demo_keeper) demo_ops (root_ops store_of)) (ProxyClient demo_self) demo_world
        demo_height 0 0 demo_pfx pr (PacketAckFact (DestinationPort demo_answered) (DestinationChannel demo_answered)
        (Sequence demo_answered) [9]) s) = Ok ()"
    using delivered by blast
  from relayed_known [OF run] obtain n where "knows (cdc demo_keeper) (root_commits store_of) (proxy_root_store n) demo_height c'"
    by auto
  from acc [OF this] run show ?thesis by (simp add: demo_answered_def demo_packet_def) blast
qed

end
