(* ===== verification/Multi_Stage.thy ===== *)
theory Multi_Stage
  imports Scenario
begin

text \<open>
  What a multi-proof establishes about a network of chains. Each chain of the network stores
  client and consensus states; the Proxy Client that chain \<open>n\<close> stores under an identifier
  tracks another chain. If the light clients are sound, an accepted multi-proof leads, in as
  many hops as its depth says, to a chain that really stores the claimed state.
\<close>

section \<open>The network\<close>

text \<open>
  Which chain a light client's state belongs to, and what a chain stores (at any of its
  heights): the client and consensus states below a prefix and under an identifier, and the
  chain that the client under this identifier tracks.
\<close>

record ('n, 'x) network =
  client_of :: "'x client_state \<Rightarrow> 'n \<Rightarrow> bool"
  consensus_of :: "'x consensus_state \<Rightarrow> 'n \<Rightarrow> bool"
  client_at :: "'n \<Rightarrow> prefix \<Rightarrow> string \<Rightarrow> 'x client_state \<Rightarrow> bool"
  consensus_at :: "'n \<Rightarrow> prefix \<Rightarrow> string \<Rightarrow> Height \<Rightarrow> 'x consensus_state \<Rightarrow> bool"
  tracked :: "'n \<Rightarrow> prefix \<Rightarrow> string \<Rightarrow> 'n"

text \<open>
  Soundness of the wrapped light clients, method by method: a client accepts a statement only
  if its store has a consensus state at the proof height, and, when this is a consensus state of
  the chain it follows, only if that chain stores what is claimed. Verifications do not write.
\<close>

definition clients_sound :: "('n, 'x) network \<Rightarrow> 'x lib \<Rightarrow> ('x, 'i) client_ops \<Rightarrow> bool" where
  "clients_sound N L D \<longleftrightarrow> (\<forall>inner n h p i pr s s'. client_of N inner n \<longrightarrow>
     (\<forall>cs. op_VerifyClientState D inner h p i pr cs s = (Ok (), s') \<longrightarrow>
        s' = s \<and> (\<exists>k. reads_consensus L s h k \<and> (consensus_of N k n \<longrightarrow> client_at N n p i cs))) \<and>
     (\<forall>ch ks. op_VerifyClientConsensusState D inner h i ch p pr ks s = (Ok (), s') \<longrightarrow>
        s' = s \<and> (\<exists>k. reads_consensus L s h k \<and> (consensus_of N k n \<longrightarrow> consensus_at N n p i ch ks))))"

lemma clients_soundD:
  assumes "clients_sound N L D" and "client_of N inner n"
  shows "op_VerifyClientState D inner h p i pr cs s = (Ok (), s') \<Longrightarrow>
      s' = s \<and> (\<exists>k. reads_consensus L s h k \<and> (consensus_of N k n \<longrightarrow> client_at N n p i cs))"
    and "op_VerifyClientConsensusState D inner h i ch p pr ks s = (Ok (), s') \<Longrightarrow>
      s' = s \<and> (\<exists>k. reads_consensus L s h k \<and> (consensus_of N k n \<longrightarrow> consensus_at N n p i ch ks))"
  using assms unfolding clients_sound_def by blast+

text \<open>
  The Proxy Clients that the chains store are genuine: they wrap a client and consensus states
  of the chain that is tracked under their identifier.
\<close>

definition genuine :: "('n, 'x) network \<Rightarrow> 'x lib \<Rightarrow> bool" where
  "genuine N L \<longleftrightarrow> (\<forall>n p i.
     (\<forall>c inner. client_at N n p i (ProxyClient c) \<longrightarrow> GetProxyClientState L c = Ok inner \<longrightarrow>
        client_of N inner (tracked N n p i)) \<and>
     (\<forall>h k inner. consensus_at N n p i h (ProxyConsensus k) \<longrightarrow> GetProxyConsensusState L k = Ok inner \<longrightarrow>
        consensus_of N inner (tracked N n p i)))"

text \<open>
  One hop: from a client (a chain, a prefix and an identifier) to the client that the Proxy
  Client stored there points to, on the chain that it tracks.
\<close>

definition hop :: "('n, 'x) network \<Rightarrow> 'n \<times> prefix \<times> string \<Rightarrow> 'n \<times> prefix \<times> string \<Rightarrow> bool" where
  "hop N = (\<lambda>(n, p, i) (m, q, j). m = tracked N n p i \<and>
     (\<exists>c. client_at N n p i (ProxyClient c) \<and> q = prefix_ptr (IbcPrefix c) \<and> j = UpstreamClientId c))"

section \<open>One stage\<close>

text \<open>The store made for a stage yields the consensus state wrapped in the one put there.\<close>

lemma stage_reads:
  assumes L: "ics24_paths L" and cod: "codec_ok L" and store: "makeMemStore L (ProxyConsensus k) h = Ok s"
    and reads: "reads_consensus L (NewProxyExtractorStore s) h ck"
  shows "GetProxyConsensusState L k = Ok ck"
proof -
  obtain b where "MarshalConsensusState L (ProxyConsensus k) = Ok b" and "s = MapStore [ConsensusStateKey L h \<mapsto> b]"
    using store by (auto simp: makeMemStore_def outcome_simps)
  with extractor_reads_only [OF L cod _ _ reads] show ?thesis by simp
qed

text \<open>
  A stage whose consensus state wraps one of the chain that the client follows is sound, for
  client states and for consensus states, and it keeps the store.
\<close>

definition stage_at :: "('n, 'x) network \<Rightarrow> 'x lib \<Rightarrow> ProxyClientState \<times> ProxyConsensusState \<Rightarrow> 'n \<Rightarrow> bool" where
  "stage_at N L = (\<lambda>(c, k) n.
     (\<forall>inner. GetProxyClientState L c = Ok inner \<longrightarrow> client_of N inner n) \<and>
     (\<forall>inner. GetProxyConsensusState L k = Ok inner \<longrightarrow> consensus_of N inner n))"

lemma stage_sound:
  assumes L: "ics24_paths L" and cod: "codec_ok L" and snd: "clients_sound N L D"
    and stage: "stage_at N L (c, k) n" and store: "makeMemStore L (ProxyConsensus k) h = Ok s"
  shows "Proxy_IBCVerifyClientState L D c h p i pr cs s = (Ok (), s') \<Longrightarrow> s' = s \<and> client_at N n p i cs"
    and "Proxy_IBCVerifyClientConsensusState L D c h i ch p pr ks s = (Ok (), s') \<Longrightarrow> s' = s \<and> consensus_at N n p i ch ks"
proof -
  have root: "consensus_of N ck n" if "reads_consensus L (NewProxyExtractorStore s) h ck" for ck
    using stage stage_reads [OF L cod store that] by (simp add: stage_at_def)
  have inner: "client_of N inner n" if "GetProxyClientState L c = Ok inner" for inner
    using stage that by (simp add: stage_at_def)
  have kept: "embedded (NewProxyExtractorStore s) = s" by (simp add: NewProxyExtractorStore_def)
  note sound = clients_soundD [OF snd inner]
  show "Proxy_IBCVerifyClientState L D c h p i pr cs s = (Ok (), s') \<Longrightarrow> s' = s \<and> client_at N n p i cs"
    using kept root by (auto simp: Proxy_IBCVerifyClientState_def on_extractor_Ok outcome_simps dest!: sound(1))
  show "Proxy_IBCVerifyClientConsensusState L D c h i ch p pr ks s = (Ok (), s') \<Longrightarrow> s' = s \<and> consensus_at N n p i ch ks"
    using kept root by (auto simp: Proxy_IBCVerifyClientConsensusState_def on_extractor_Ok outcome_simps dest!: sound(2))
qed

text \<open>A link of the chain of trust is a hop, and the next stage is as good as this one.\<close>

lemma genuineD:
  assumes "genuine N L"
  shows "client_at N n p i (ProxyClient c) \<Longrightarrow> GetProxyClientState L c = Ok inner \<Longrightarrow> client_of N inner (tracked N n p i)"
    and "consensus_at N n p i h (ProxyConsensus k) \<Longrightarrow> GetProxyConsensusState L k = Ok inner' \<Longrightarrow>
      consensus_of N inner' (tracked N n p i)"
  using assms unfolding genuine_def by blast+

lemma next_stage:
  assumes "genuine N L" and "client_at N n p i (ProxyClient c)" and "consensus_at N n p i h (ProxyConsensus k)"
  shows "stage_at N L (c, k) (tracked N n p i)"
    and "hop N (n, p, i) (tracked N n p i, prefix_ptr (IbcPrefix c), UpstreamClientId c)"
  using genuineD [OF assms(1)] assms(2,3) by (auto simp: stage_at_def hop_def)

lemma link_hop:
  assumes L: "ics24_paths L" and cod: "codec_ok L" and snd: "clients_sound N L D" and gen: "genuine N L"
    and link: "link_ok L D (c, k) b (c', k')" and stage: "stage_at N L (c, k) n"
  shows "\<exists>m. stage_at N L (c', k') m \<and>
    hop N (n, prefix_ptr (IbcPrefix c), UpstreamClientId c) (m, prefix_ptr (IbcPrefix c'), UpstreamClientId c')"
proof -
  let ?p = "prefix_ptr (IbcPrefix c)" and ?i = "UpstreamClientId c"
  obtain store s1 where store: "makeMemStore L (ProxyConsensus k) (ProofHeight b) = Ok store"
    and 1: "Proxy_IBCVerifyClientState L D c (ProofHeight b) ?p ?i (ClientProof b) (ProxyClient c') store = (Ok (), s1)"
    and 2: "fst (Proxy_IBCVerifyClientConsensusState L D c (ProofHeight b) ?i (ConsensusHeight b) ?p
      (ConsensusProof b) (ProxyConsensus k') s1) = Ok ()"
    using link by (auto simp: link_ok_def)
  note sound = stage_sound [OF L cod snd stage store]
  from sound(1) [OF 1] have "s1 = store" and "client_at N n ?p ?i (ProxyClient c')" by simp_all
  moreover obtain s2 where "Proxy_IBCVerifyClientConsensusState L D c (ProofHeight b) ?i (ConsensusHeight b) ?p
      (ConsensusProof b) (ProxyConsensus k') s1 = (Ok (), s2)"
    using 2 by (metis prod.collapse)
  ultimately show ?thesis using sound(2) next_stage [OF gen] by blast
qed

lemma chain_hops:
  assumes "ics24_paths L" and "codec_ok L" and "clients_sound N L D" and "genuine N L"
  shows "trust_chain L D r bs r' \<Longrightarrow> stage_at N L r n \<Longrightarrow>
    \<exists>m. stage_at N L r' m \<and>
      (hop N ^^ length bs) (n, prefix_ptr (IbcPrefix (fst r)), UpstreamClientId (fst r))
        (m, prefix_ptr (IbcPrefix (fst r')), UpstreamClientId (fst r'))"
proof (induction arbitrary: n rule: trust_chain.induct)
  case (chain_end p)
  then show ?case by auto
next
  case (chain_link p b q bs r)
  obtain m where m: "stage_at N L q m"
    "hop N (n, prefix_ptr (IbcPrefix (fst p)), UpstreamClientId (fst p)) (m, prefix_ptr (IbcPrefix (fst q)), UpstreamClientId (fst q))"
    using link_hop [OF assms, of "fst p" "snd p" b "fst q" "snd q" n] chain_link by auto
  from chain_link.IH [OF m(1)] relpowp_Suc_I2 [of "hop N", OF m(2)] show ?case unfolding list.size(4) by fastforce
qed

text \<open>What the head of an accepted multi-proof and its branches establish.\<close>

lemma stages_hops:
  assumes L: "ics24_paths L" and cod: "codec_ok L" and snd: "clients_sound N L D" and gen: "genuine N L"
    and under: "client_of N underlying n"
    and read: "\<And>k. reads_consensus L s h k \<Longrightarrow> consensus_of N k n"
    and hd: "head_ok L D underlying h p i hp c k s s'" and chain: "trust_chain L D (c, k) bs (c', k')"
  shows "s' = s \<and> (\<exists>m. stage_at N L (c', k') m \<and>
    (hop N ^^ Suc (length bs)) (n, p, i) (m, prefix_ptr (IbcPrefix c'), UpstreamClientId c'))"
proof -
  obtain s1 where 1: "op_VerifyClientState D underlying h p i (ClientProof hp) (ProxyClient c) s = (Ok (), s1)"
    and 2: "op_VerifyClientConsensusState D underlying h i (ConsensusHeight hp) p (ConsensusProof hp) (ProxyConsensus k) s1 = (Ok (), s')"
    using hd by (auto simp: head_ok_def)
  from clients_soundD(1) [OF snd under 1] read have s1: "s1 = s" and c: "client_at N n p i (ProxyClient c)" by auto
  from clients_soundD(2) [OF snd under 2] read have "s' = s1" and "consensus_at N n p i (ConsensusHeight hp) (ProxyConsensus k)"
    by (auto simp: s1)
  note stage = next_stage [OF gen c this(2)]
  from chain_hops [OF L cod snd gen chain stage(1)] relpowp_Suc_I2 [of "hop N", OF stage(2)] \<open>s' = s1\<close> s1 show ?thesis
    unfolding fst_conv by blast
qed

section \<open>Soundness of the multi-stage client\<close>

lemma proxy_state_hops:
  assumes "ics24_paths L" and "codec_ok L" and "clients_sound N L D" and "genuine N L"
    and under: "UnpackClientState L (UnderlyingClientState cs) = Ok underlying" and "client_of N underlying n"
    and "\<And>k. reads_consensus L s h k \<Longrightarrow> consensus_of N k n"
    and run: "verifyProxyState L D cs h p i mp s = (Ok (c', k'), s')"
  shows "s' = s \<and> (\<exists>m. stage_at N L (c', k') m \<and>
    (hop N ^^ Suc (unat (Depth cs))) (n, p, i) (m, prefix_ptr (IbcPrefix c'), UpstreamClientId c'))"
proof -
  obtain c k where "length (Branches mp) = unat (Depth cs)"
    and "head_ok L D underlying h p i (Head mp) c k s s'" and "trust_chain L D (c, k) (Branches mp) (c', k')"
    using run under by (auto simp: verifyProxyState_iff)
  with stages_hops [OF assms(1-4,6,7) this(2,3)] show ?thesis by simp
qed

lemma leaf_at:
  assumes "ics24_paths L" and "codec_ok L" and "clients_sound N L D" and "stage_at N L (c, k) n"
    and "makeMemStore L (ProxyConsensus k) h = Ok s"
  shows "fst (Proxy_IBCVerifyClientState L D c h p i pr cs s) = Ok () \<Longrightarrow> client_at N n p i cs"
    and "fst (Proxy_IBCVerifyClientConsensusState L D c h i ch p pr ks s) = Ok () \<Longrightarrow> consensus_at N n p i ch ks"
  using stage_sound [OF assms] by (metis prod.collapse)+

text \<open>C7. The multi-stage client is sound. Let the light clients that it and the Proxy Clients wrap
  be sound, let the chains store genuine Proxy Clients, and let the multi-stage client wrap a
  client of chain \<open>n\<close> whose consensus states in the store are those of \<open>n\<close>. Then a client state
  or consensus state that it accepts is really stored on an IBC chain \<open>m\<close>, and \<open>m\<close> is reached from
  the counterparty's client on \<open>n\<close> in exactly one hop more than the depth, each hop leading
  through a Proxy Client to the chain that it tracks. The store of the multi-stage client is unchanged.\<close>

theorem multi_stage_sound:
  assumes "ics24_paths L" and "codec_ok L" and "clients_sound N L D" and "genuine N L"
    and "UnpackClientState L (UnderlyingClientState cs) = Ok underlying" and "client_of N underlying n"
    and "\<And>k. reads_consensus L s h k \<Longrightarrow> consensus_of N k n"
  shows "(Multiv_VerifyClientState L D cs h p i pr claimed s = (Ok (), s') \<longrightarrow>
      s' = s \<and> (\<exists>m q j. (hop N ^^ Suc (unat (Depth cs))) (n, p, i) (m, q, j) \<and> client_at N m q j claimed)) \<and>
    (Multiv_VerifyClientConsensusState L D cs h i ch p pr claimed_k s = (Ok (), s') \<longrightarrow>
      s' = s \<and> (\<exists>m q j. (hop N ^^ Suc (unat (Depth cs))) (n, p, i) (m, q, j) \<and> consensus_at N m q j ch claimed_k))"
proof (intro conjI impI)
  assume "Multiv_VerifyClientState L D cs h p i pr claimed s = (Ok (), s')"
  then obtain mp c k store where run: "verifyProxyState L D cs h p i mp s = (Ok (c, k), s')"
    and store: "makeMemStore L (ProxyConsensus k) (LfProofHeight (Leaf mp)) = Ok store"
    and last: "fst (Proxy_IBCVerifyClientState L D c (LfProofHeight (Leaf mp)) (prefix_ptr (IbcPrefix c))
          (UpstreamClientId c) (LfProof (Leaf mp)) claimed store) = Ok ()"
    by (auto simp: Multiv_VerifyClientState_def outcome_simps on_store_def)
  from proxy_state_hops [OF assms run] leaf_at(1) [OF assms(1-3) _ store last]
  show "s' = s" and "\<exists>m q j. (hop N ^^ Suc (unat (Depth cs))) (n, p, i) (m, q, j) \<and> client_at N m q j claimed"
    by blast+
next
  assume "Multiv_VerifyClientConsensusState L D cs h i ch p pr claimed_k s = (Ok (), s')"
  then obtain mp c k store where run: "verifyProxyState L D cs h p i mp s = (Ok (c, k), s')"
    and store: "makeMemStore L (ProxyConsensus k) (LfProofHeight (Leaf mp)) = Ok store"
    and last: "fst (Proxy_IBCVerifyClientConsensusState L D c (LfProofHeight (Leaf mp)) (UpstreamClientId c) ch
          (prefix_ptr (IbcPrefix c)) (LfProof (Leaf mp)) claimed_k store) = Ok ()"
    by (auto simp: Multiv_VerifyClientConsensusState_def outcome_simps on_store_def)
  from proxy_state_hops [OF assms run] leaf_at(2) [OF assms(1-3) _ store last]
  show "s' = s" and "\<exists>m q j. (hop N ^^ Suc (unat (Depth cs))) (n, p, i) (m, q, j) \<and> consensus_at N m q j ch claimed_k"
    by blast+
qed

section \<open>An instance\<close>

text \<open>
  A line of chains \<open>0, 1, 2, \<dots>\<close>: each stores under \<open>cl\<close> a Proxy Client of the next one, and the
  third an external client. The light clients look up the consensus state in their store
  and compare with what the chain it names really holds.
\<close>

definition line_tracking :: "nat \<Rightarrow> ProxyClientState" where
  "line_tracking n = \<lparr>ProxyClientStateAny = Some (any_of (enc_client (ExternalClient n))), UpstreamClientId = ''cl'',
     ProxyPrefix = Some ''proxy'', IbcPrefix = Some ''ibc''\<rparr>"

definition line_wrap :: "nat \<Rightarrow> ProxyConsensusState" where
  "line_wrap n = \<lparr>ProxyConsensusStateAny = Some (any_of (enc_consensus (ExternalConsensus n)))\<rparr>"

definition line_client :: "nat \<Rightarrow> nat client_state" where
  "line_client n = (if n < 2 then ProxyClient (line_tracking (Suc n)) else ExternalClient 9)"

definition line_network :: "(nat, nat) network" where
  "line_network = \<lparr>client_of = (\<lambda>c n. c = ExternalClient n), consensus_of = (\<lambda>k n. k = ExternalConsensus n),
     client_at = (\<lambda>n p i c. i = ''cl'' \<and> c = line_client n),
     consensus_at = (\<lambda>n p i h k. i = ''cl'' \<and> h = demo_height \<and> k = ProxyConsensus (line_wrap (Suc n))),
     tracked = (\<lambda>n p i. Suc n)\<rparr>"

definition line_ops :: "(nat, demo_world) client_ops" where
  "line_ops = demo_ops
     \<lparr>op_VerifyClientState := (\<lambda>inner h p i pr c. root_check h (\<lambda>n. client_at line_network n p i c)),
      op_VerifyClientConsensusState := (\<lambda>inner h i ch p pr k. root_check h (\<lambda>n. consensus_at line_network n p i ch k))\<rparr>"

lemma line_sound: "clients_sound line_network demo_lib line_ops"
  unfolding clients_sound_def
  by (auto simp: line_ops_def root_check_Ok line_network_def)

lemma line_unpack [simp]:
  "GetProxyClientState demo_lib (line_tracking n) = Ok (ExternalClient n)"
  "GetProxyConsensusState demo_lib (line_wrap n) = Ok (ExternalConsensus n)"
  by (simp_all add: GetProxyClientState_def GetProxyConsensusState_def line_tracking_def line_wrap_def demo_simps
      del: enc_client.simps enc_consensus.simps)

lemma line_genuine: "genuine line_network demo_lib"
  by (auto simp: genuine_def line_network_def line_client_def split: if_splits)

definition line_proof :: MultiProof where
  "line_proof =
    (let stage = (\<lambda>n. \<lparr>ClientProof = [], ClientState = Some (any_of (enc_client (ProxyClient (line_tracking n)))),
           ConsensusProof = [], ConsensusState = Some (any_of (enc_consensus (ProxyConsensus (line_wrap n)))),
           ProofHeight = demo_height, ConsensusHeight = demo_height\<rparr>)
     in \<lparr>Head = stage (Suc 0), Branches = [stage (Suc (Suc 0))], Leaf = \<lparr>LfProof = [], LfProofHeight = demo_height\<rparr>\<rparr>)"

definition line_store :: "nat consensus_state \<Rightarrow> kvstore" where
  "line_store k = MapStore [ConsensusStateKey demo_lib demo_height \<mapsto> enc_consensus k]"

lemma line_reads:
  "reads_consensus demo_lib (line_store k) demo_height k' \<longleftrightarrow> k' = k"
  "reads_consensus demo_lib (NewProxyExtractorStore (line_store (ProxyConsensus (line_wrap n)))) demo_height
     (ExternalConsensus n)"
proof -
  show "reads_consensus demo_lib (line_store k) demo_height k' \<longleftrightarrow> k' = k"
    by (auto simp: reads_consensus_def line_store_def demo_simps)
  have "store_Get demo_lib (line_store (ProxyConsensus (line_wrap n))) (ConsensusStateKey demo_lib demo_height) =
      Ok (Some (enc_consensus (ProxyConsensus (line_wrap n))))"
    by (simp add: line_store_def)
  from extractor_reads_inner [OF demo_paths demo_codec this, of "line_wrap n" "ExternalConsensus n"]
  show "reads_consensus demo_lib (NewProxyExtractorStore (line_store (ProxyConsensus (line_wrap n)))) demo_height
      (ExternalConsensus n)"
    by (simp add: reads_consensus_def NewProxyExtractorStore_def demo_simps line_wrap_def del: enc_consensus.simps)
qed

text \<open>Each check of the instance: the head on the multi-stage client's store, and any later stage.\<close>

lemma line_verify:
  "reads_consensus demo_lib s demo_height (ExternalConsensus n) \<Longrightarrow>
    op_VerifyClientState line_ops inner demo_height p ''cl'' pr (line_client n) s = (Ok (), s)"
  "reads_consensus demo_lib s demo_height (ExternalConsensus n) \<Longrightarrow>
    op_VerifyClientConsensusState line_ops inner demo_height ''cl'' demo_height p pr (ProxyConsensus (line_wrap (Suc n))) s = (Ok (), s)"
  by (auto simp: line_ops_def root_check_Ok line_network_def)

lemma line_stage:
  assumes "s = line_store (ProxyConsensus (line_wrap n))"
  shows "Proxy_IBCVerifyClientState demo_lib line_ops (line_tracking n) demo_height p ''cl'' pr (line_client n) s = (Ok (), s)"
    and "Proxy_IBCVerifyClientConsensusState demo_lib line_ops (line_tracking n) demo_height ''cl'' demo_height p pr
      (ProxyConsensus (line_wrap (Suc n))) s = (Ok (), s)"
proof -
  have kept: "embedded (NewProxyExtractorStore s) = s" by (simp add: NewProxyExtractorStore_def)
  note read = line_reads(2) [of n, folded assms]
  show "Proxy_IBCVerifyClientState demo_lib line_ops (line_tracking n) demo_height p ''cl'' pr (line_client n) s = (Ok (), s)"
    by (simp add: Proxy_IBCVerifyClientState_def on_extractor_def line_verify(1) [OF read] kept)
  show "Proxy_IBCVerifyClientConsensusState demo_lib line_ops (line_tracking n) demo_height ''cl'' demo_height p pr
      (ProxyConsensus (line_wrap (Suc n))) s = (Ok (), s)"
    by (simp add: Proxy_IBCVerifyClientConsensusState_def on_extractor_def line_verify(2) [OF read] kept)
qed

lemma line_makeMemStore: "makeMemStore demo_lib k demo_height = Ok (line_store k)"
  by (simp add: makeMemStore_def line_store_def demo_simps)

lemma line_accepted:
  "Multiv_VerifyClientState demo_lib line_ops \<lparr>UnderlyingClientState = Some (any_of (enc_client (ExternalClient 0))), Depth = 1\<rparr>
     demo_height demo_pfx ''cl'' (enc_MultiProof line_proof) (ExternalClient 9) (line_store (ExternalConsensus 0)) =
   (Ok (), line_store (ExternalConsensus 0))"
proof -
  have client: "ProxyClient (line_tracking (Suc 0)) = line_client 0"
    "ProxyClient (line_tracking (Suc (Suc 0))) = line_client (Suc 0)" "ExternalClient 9 = line_client (Suc (Suc 0))"
    by (simp_all add: line_client_def)
  have next_client: "UpstreamClientId (line_tracking n) = ''cl''" for n by (simp add: line_tracking_def)
  have root: "reads_consensus demo_lib (line_store (ExternalConsensus 0)) demo_height (ExternalConsensus 0)"
    by (simp add: line_reads)
  have hd: "head_ok demo_lib line_ops (ExternalClient 0) demo_height demo_pfx ''cl'' (Head line_proof) (line_tracking (Suc 0))
      (line_wrap (Suc 0)) (line_store (ExternalConsensus 0)) (line_store (ExternalConsensus 0))"
    by (simp add: head_ok_def line_proof_def demo_simps client line_verify [OF root] del: enc_client.simps enc_consensus.simps)
  have link: "link_ok demo_lib line_ops (line_tracking (Suc 0), line_wrap (Suc 0)) (hd (Branches line_proof))
      (line_tracking (Suc (Suc 0)), line_wrap (Suc (Suc 0)))"
    by (simp add: link_ok_def line_proof_def line_makeMemStore demo_simps client next_client line_stage [OF refl]
        del: enc_client.simps enc_consensus.simps)
  have chain: "trust_chain demo_lib line_ops (line_tracking (Suc 0), line_wrap (Suc 0)) (Branches line_proof)
      (line_tracking (Suc (Suc 0)), line_wrap (Suc (Suc 0)))"
    using link by (auto simp: line_proof_def trust_chain_Cons)
  have leaf: "fst (Proxy_IBCVerifyClientState demo_lib line_ops (line_tracking (Suc (Suc 0))) demo_height p ''cl'' pr (ExternalClient 9)
      (line_store (ProxyConsensus (line_wrap (Suc (Suc 0)))))) = Ok ()" for p pr
    unfolding client by (simp add: line_stage [OF refl])
  have sizes: "length (Branches line_proof) = 1" "LfProofHeight (Leaf line_proof) = demo_height"
    by (simp_all add: line_proof_def)
  show ?thesis
    unfolding Multiv_VerifyClientState_iff
    by (intro exI [of _ line_proof] exI [of _ "ExternalClient 0"] exI [of _ "line_tracking (Suc 0)"] exI [of _ "line_wrap (Suc 0)"]
        exI [of _ "line_tracking (Suc (Suc 0))"] exI [of _ "line_wrap (Suc (Suc 0))"]
        exI [of _ "line_store (ProxyConsensus (line_wrap (Suc (Suc 0))))"] conjI)
      (simp_all add: hd chain leaf demo_simps sizes line_makeMemStore next_client del: enc_client.simps)
qed

lemma multi_stage_sound_witness:
  "\<exists>m q j. (hop line_network ^^ Suc (unat (1 :: 32 word))) (0, demo_pfx, ''cl'') (m, q, j) \<and>
     client_at line_network m q j (ExternalClient 9)"
proof -
  have "UnpackClientState demo_lib (UnderlyingClientState \<lparr>UnderlyingClientState = Some (any_of (enc_client (ExternalClient 0))), Depth = 1\<rparr>) =
      Ok (ExternalClient 0)" by (simp add: demo_simps del: enc_client.simps)
  moreover have "client_of line_network (ExternalClient 0) 0" by (simp add: line_network_def)
  moreover have "consensus_of line_network k 0" if "reads_consensus demo_lib (line_store (ExternalConsensus 0)) demo_height k" for k
    using that by (simp add: line_reads line_network_def)
  ultimately show ?thesis
    using multi_stage_sound [OF demo_paths demo_codec line_sound line_genuine, THEN conjunct1, rule_format, OF _ _ _ line_accepted]
    by simp
qed

end
