(* ===== verification/Keeper_Properties.thy ===== *)
theory Keeper_Properties
  imports Scenario
begin

text \<open>
  The properties of the proxy module's keeper and message server, each with an application
  to the concrete states of \<open>Scenario\<close>.
\<close>

section \<open>The store mirrors verified upstream state\<close>

definition demo_recv :: MsgProxyRecvPacket where
  "demo_recv = \<lparr>prp_UpstreamClientId = ''up'', prp_UpstreamPrefix = ''ibc'', prp_Packet = demo_packet,
     prp_Proof = [1], prp_ProofHeight = demo_height, prp_Signer = ''s''\<rparr>"

definition demo_commitment_path :: string where
  "demo_commitment_path = slot_path demo_lib demo_pfx ''up'' (PacketCommitmentSlot ''pa'' ''ch'' 3)"

lemma demo_recv_run:
  "handle demo_keeper demo_ops (RecvPacket_msg demo_recv) (demo_store CONN_OPEN CHAN_OPEN) =
     (Ok (), ctx_put (demo_store CONN_OPEN CHAN_OPEN) demo_commitment_path (CommitPacket demo_lib demo_packet))"
proof -
  have "ics24_paths (cdc demo_keeper)" by (simp add: demo_paths)
  from RecvPacket_Ok [OF this] show ?thesis
    by (simp add: ProxyRecvPacket_def demo_recv_def demo_packet_def demo_chan_of demo_chan_def
        demo_conn_of demo_proxy_fact demo_commitment_path_def)
qed

lemma demo_path_new:
  "proxyStore (demo_store s t) demo_commitment_path = None"
  by (simp add: demo_store_def demo_ctx_def demo_commitment_path_def demo_slot_neq ics24_pathsD [OF demo_paths])

text \<open>C2. Every entry that appears or changes in the module's store during any run of the
  chain (messages in any order, with anything happening outside the module in between) is
  the encoding of a statement about an upstream chain, at the path of that statement. It was
  written by one message of the run, handled in the state that the run had then reached; and
  during that handling, in the context the handler had reached by its own earlier
  verifications, the proxy's light client of that upstream chain accepted the statement with a
  proof, at the proof height and below the prefix that this very message carries, and the
  entry was written right then.\<close>

theorem stored_entry_verified:
  assumes "ics24_paths (cdc K)" and "(module_step K D ok)\<^sup>*\<^sup>* c c'"
    and "proxyStore c' key = Some b" and "proxyStore c key \<noteq> Some b"
  shows "\<exists>c1 m r c2 c3 c4 u p d h pr f.
    (module_step K D ok)\<^sup>*\<^sup>* c c1 \<and> ok m \<and> handle K D m c1 = (r, c2) \<and> (module_step K D ok)\<^sup>*\<^sup>* c2 c' \<and>
    proxyStore c1 key \<noteq> Some b \<and> proxyStore c2 key = Some b \<and>
    mirrors K D (carried (cdc K) m) c1 c3 \<and> carried (cdc K) m u p h pr \<and>
    check_fact K D u p d h pr f c3 = (Ok (), c4) \<and> mirrors K D (carried (cdc K) m) (ctx_put c4 key b) c2 \<and>
    key = slot_path (cdc K) p u (fact_slot f) \<and> fact_value (cdc K) f = Ok b"
proof -
  obtain c1 m r c2 u p f where run: "(module_step K D ok)\<^sup>*\<^sup>* c c1" "ok m" "handle K D m c1 = (r, c2)"
      "(module_step K D ok)\<^sup>*\<^sup>* c2 c'" "proxyStore c1 key \<noteq> Some b" "proxyStore c2 key = Some b"
    and rec: "records K D (carried (cdc K) m) c1 c2 u p f"
    and key: "key = slot_path (cdc K) p u (fact_slot f)" "fact_value (cdc K) f = Ok b"
    by (rule run_entry [OF assms])
  from rec obtain c3 c4 d h pr where "mirrors K D (carried (cdc K) m) c1 c3" "carried (cdc K) m u p h pr"
      "check_fact K D u p d h pr f c3 = (Ok (), c4)" "mirrors K D (carried (cdc K) m) (ctx_put c4 key b) c2"
    unfolding records_def using key by auto
  with run key show ?thesis by blast
qed

lemma stored_entry_verified_witness:
  "\<exists>m c1 c3 c4 u p d h pr f. carried demo_lib m u p h pr \<and>
     mirrors demo_keeper demo_ops (carried demo_lib m) c1 c3 \<and>
     check_fact demo_keeper demo_ops u p d h pr f c3 = (Ok (), c4) \<and>
     demo_commitment_path = slot_path demo_lib p u (fact_slot f) \<and>
     fact_value demo_lib f = Ok (CommitPacket demo_lib demo_packet)"
proof -
  have "(module_step demo_keeper demo_ops (\<lambda>_. True))\<^sup>*\<^sup>* (demo_store CONN_OPEN CHAN_OPEN)
      (ctx_put (demo_store CONN_OPEN CHAN_OPEN) demo_commitment_path (CommitPacket demo_lib demo_packet))"
    by (rule r_into_rtranclp, rule message [OF _ demo_recv_run]) simp
  from stored_entry_verified [OF _ this, of demo_commitment_path "CommitPacket demo_lib demo_packet"]
  show ?thesis by (simp add: demo_paths demo_path_new ctx_put_def) blast
qed

text \<open>C3. Over any run whose messages name slash-free upstream prefixes, a recorded
  connection end is never removed and never replaced: it stays, or it is opened (from INIT
  with the counterparty's connection identifier filled in, or from TRYOPEN), and an open one
  is final.\<close>

theorem connections_only_open:
  assumes "ics24_paths (cdc K)" and "client_ids_ok (clientKeeper K)" and "codec_ok (cdc K)"
    and "(module_step K D (plain_prefix K))\<^sup>*\<^sup>* c c'"
    and "no_slash u" and "no_slash (PrefixBytes (cdc K) p)"
    and "GetProxyConnection K p u i c = (Ok (Some a), c)"
  shows "\<exists>b. GetProxyConnection K p u i c' = (Ok (Some b), c') \<and> (b = a \<or> opened a b)"
proof -
  have "conn_le K c c'" by (rule conn_le_run [OF assms(1-4)])
  moreover have "conn_of K c p u i = Ok (Some a)" using assms(7) by (simp add: conn_of_run)
  moreover have "root_ok K p u" using assms(5,6) by (simp add: root_ok_def)
  ultimately show ?thesis unfolding conn_le_def by (simp add: conn_of_run)
qed

lemma demo_recv_steps:
  "(module_step demo_keeper demo_ops (plain_prefix demo_keeper))\<^sup>*\<^sup>* (demo_store CONN_OPEN CHAN_OPEN)
     (ctx_put (demo_store CONN_OPEN CHAN_OPEN) demo_commitment_path (CommitPacket demo_lib demo_packet))"
  by (rule r_into_rtranclp, rule message [OF _ demo_recv_run])
    (simp add: plain_prefix_def demo_recv_def demo_simps)

lemma connections_only_open_witness:
  "\<exists>b c'. GetProxyConnection demo_keeper demo_pfx ''up'' ''c0'' c' = (Ok (Some b), c') \<and>
     (b = demo_conn CONN_OPEN \<or> opened (demo_conn CONN_OPEN) b)"
  using connections_only_open [OF _ _ _ demo_recv_steps, of "''up''" demo_pfx "''c0''" "demo_conn CONN_OPEN"]
  by (auto simp: demo_ok demo_simps conn_of_run)

text \<open>C4. The eight verify-and-record operations of the keeper are one operation of the
  abstract specification: check the statement with the upstream client (with block delay
  zero), and only then put its encoding at the path of its slot.\<close>

theorem VerifyAndProxy_refines:
  assumes "ics24_paths (cdc k)"
  shows "VerifyAndProxyClientState k D u p i h pr c = proxy_fact k D u p 0 h pr (ClientStateFact i c) \<and>
    VerifyAndProxyClientConsensusState k D u p i h ch pr s =
      proxy_fact k D u p 0 h pr (ConsensusStateFact i ch s) \<and>
    VerifyAndProxyConnectionState k D u p cn h pr j = proxy_fact k D u p 0 h pr (ConnectionFact j cn) \<and>
    VerifyAndProxyChannelState k D u p h pr po cc chn = proxy_fact k D u p 0 h pr (ChannelFact po cc chn) \<and>
    VerifyAndProxyPacketCommitment k D u p cn h pr po cc n b =
      proxy_fact k D u p (DelayPeriod cn) h pr (PacketCommitmentFact po cc n b) \<and>
    VerifyAndProxyPacketAcknowledgement k D u p cn h pr po cc n a =
      proxy_fact k D u p (DelayPeriod cn) h pr (PacketAckFact po cc n a) \<and>
    VerifyAndProxyPacketReceiptAbsence k D u p cn h pr po cc n =
      proxy_fact k D u p (DelayPeriod cn) h pr (ReceiptAbsenceFact po cc n) \<and>
    VerifyAndProxyNextSequenceRecv k D u p cn h pr po cc n =
      proxy_fact k D u p (DelayPeriod cn) h pr (NextSequenceRecvFact po cc n)"
  by (intro conjI VerifyAndProxy_as_fact assms)

lemma VerifyAndProxy_refines_witness:
  "VerifyAndProxyChannelState demo_keeper demo_ops ''up'' demo_pfx demo_height [1] ''pa'' ''ch''
     (demo_chan CHAN_INIT) (demo_ctx []) =
   (Ok (), ctx_put (demo_ctx []) (slot_path demo_lib demo_pfx ''up'' (ChannelSlot ''pa'' ''ch''))
      (enc_Channel (demo_chan CHAN_INIT)))"
proof -
  have "ics24_paths (cdc demo_keeper)" by (simp add: demo_paths)
  from VerifyAndProxy_refines [OF this]
  have "VerifyAndProxyChannelState demo_keeper demo_ops ''up'' demo_pfx demo_height [1] ''pa'' ''ch'' (demo_chan CHAN_INIT) =
      proxy_fact demo_keeper demo_ops ''up'' demo_pfx 0 demo_height [1] (ChannelFact ''pa'' ''ch'' (demo_chan CHAN_INIT))"
    by blast
  then show ?thesis by (simp add: demo_proxy_fact demo_simps)
qed

text \<open>C9. A message changes only entries below the path of an upstream chain it speaks for
  and of the prefix it names: whatever it returns, any changed key is the path of some slot
  of that chain.\<close>

theorem message_writes_own_chain:
  assumes "ics24_paths (cdc K)" and "handle K D m c = (r, c')"
    and "proxyStore c' key \<noteq> proxyStore c key"
  shows "\<exists>u x. speaks_for (cdc K) m u \<and>
    key = slot_path (cdc K) (MerklePfx (upstream_prefix m)) u x"
  using keepsD [OF below_handle [OF assms(1)] assms(2)] assms(3) unfolding below_def by blast

lemma message_writes_own_chain_witness:
  "\<exists>u x. speaks_for demo_lib (RecvPacket_msg demo_recv) u \<and>
     demo_commitment_path = slot_path demo_lib (MerklePfx (upstream_prefix (RecvPacket_msg demo_recv))) u x"
proof -
  have "proxyStore (ctx_put (demo_store CONN_OPEN CHAN_OPEN) demo_commitment_path (CommitPacket demo_lib demo_packet))
      demo_commitment_path \<noteq> proxyStore (demo_store CONN_OPEN CHAN_OPEN) demo_commitment_path"
    by (simp add: demo_path_new ctx_put_def)
  from message_writes_own_chain [OF _ demo_recv_run this] show ?thesis by (simp add: demo_paths)
qed

section \<open>The connection handshake\<close>


definition demo_handshake :: "int32 \<Rightarrow> demo_world ctx" where
  "demo_handshake s = fold (\<lambda>(x, b) c. ctx_put c (slot_path demo_lib demo_pfx ''up'' x) b)
     [(ClientStateSlot ''cl'', enc_client (ExternalClient 3)),
      (ConsensusStateSlot ''cl'' demo_height, enc_consensus (ExternalConsensus 4)),
      (ConnectionSlot ''c0'', enc_ConnectionEnd (demo_conn s))] (demo_ctx [])"

lemma demo_produce [demo_simps]:
  "produceVerificationArgs demo_keeper demo_ops w (ProxyClient demo_self) h =
     Ok (demo_self, \<lparr>ProxyConsensusStateAny = Some (any_of (enc_consensus (ExternalConsensus (unat (RevisionHeight h)))))\<rparr>,
         ''up'')"
  by (simp add: produceVerificationArgs_def demo_validate_self demo_self_consensus) (simp add: demo_self_def)

lemma demo_try_run:
  "ConnOpenTry demo_keeper demo_ops ''c0'' demo_pfx (demo_conn CONN_INIT) (ExternalClient 3) (ExternalConsensus 4)
     (ProxyClient demo_self) [1] [1] [1] demo_height demo_height [1] [1] demo_height demo_height (demo_ctx []) =
   (Ok (), demo_handshake CONN_INIT)"
proof -
  have L: "ics24_paths (cdc demo_keeper)" by (simp add: demo_paths)
  show ?thesis
    unfolding ConnOpenTry_def as_fact [OF L]
    by (simp add: demo_produce conn_bind mbind_step [OF demo_proxy_fact] demo_proxy_fact demo_downstream demo_simps demo_handshake_def demo_conn_def)
qed

lemma demo_ack_run:
  "ConnOpenAck demo_keeper demo_ops ''c0'' demo_pfx (demo_conn CONN_TRYOPEN) (ExternalClient 3) (ExternalConsensus 4)
     (ProxyClient demo_self) [1] [1] [1] demo_height demo_height [1] [1] demo_height demo_height (demo_ctx []) =
   (Ok (), demo_handshake CONN_TRYOPEN)"
proof -
  have L: "ics24_paths (cdc demo_keeper)" by (simp add: demo_paths)
  show ?thesis
    unfolding ConnOpenAck_def as_fact [OF L]
    by (simp add: demo_produce conn_bind mbind_step [OF demo_proxy_fact] demo_proxy_fact demo_downstream demo_simps demo_handshake_def demo_conn_def)
qed


text \<open>C11. \<open>ConnOpenConfirm\<close> succeeds exactly when the recorded end is in state INIT and the
  upstream client accepts a proof that upstream now has that end OPEN with the counterparty's
  connection identifier; it then records exactly that end, and nothing else.\<close>

theorem ConnOpenConfirm_correct:
  assumes "ics24_paths (cdc K)"
  shows "ConnOpenConfirm K D i u p j proofAck proofHeight c = (Ok (), c') \<longleftrightarrow>
    (\<exists>a b c1. conn_of K c p u i = Ok (Some a) \<and> ConnState a = CONN_INIT \<and>
       b = a\<lparr>ConnState := CONN_OPEN, ConnCp := (ConnCp a)\<lparr>CpConnectionId := j\<rparr>\<rparr> \<and>
       check_fact K D u p 0 proofHeight proofAck (ConnectionFact i b) c = (Ok (), c1) \<and>
       c' = ctx_put c1 (slot_path (cdc K) p u (ConnectionSlot i)) (MarshalConnectionEnd (cdc K) b))"
  by (simp add: ConnOpenConfirm_Ok [OF assms] proxy_fact_Ok_iff)

lemma ConnOpenConfirm_correct_witness:
  "\<exists>c'. ConnOpenConfirm demo_keeper demo_ops ''c0'' ''up'' demo_pfx ''j'' [1] demo_height
     (demo_store CONN_INIT CHAN_INIT) = (Ok (), c')"
  unfolding ConnOpenConfirm_correct [of demo_keeper, unfolded demo_cdc, OF demo_paths]
  by (auto simp: demo_conn_of demo_conn_def demo_check_fact)

text \<open>C12. \<open>ConnOpenFinalize\<close> succeeds exactly when the recorded end is in state TRYOPEN and the
  upstream client accepts a proof that upstream has that very end OPEN, which it records.\<close>

theorem ConnOpenFinalize_correct:
  assumes "ics24_paths (cdc K)"
  shows "ConnOpenFinalize K D i u p proofConfirm proofHeight c = (Ok (), c') \<longleftrightarrow>
    (\<exists>a b c1. conn_of K c p u i = Ok (Some a) \<and> ConnState a = CONN_TRYOPEN \<and>
       b = a\<lparr>ConnState := CONN_OPEN\<rparr> \<and>
       check_fact K D u p 0 proofHeight proofConfirm (ConnectionFact i b) c = (Ok (), c1) \<and>
       c' = ctx_put c1 (slot_path (cdc K) p u (ConnectionSlot i)) (MarshalConnectionEnd (cdc K) b))"
  by (simp add: ConnOpenFinalize_Ok [OF assms] proxy_fact_Ok_iff)

lemma ConnOpenFinalize_correct_witness:
  "\<exists>c'. ConnOpenFinalize demo_keeper demo_ops ''c0'' ''up'' demo_pfx [1] demo_height
     (demo_store CONN_TRYOPEN CHAN_INIT) = (Ok (), c')"
  unfolding ConnOpenFinalize_correct [of demo_keeper, unfolded demo_cdc, OF demo_paths]
  by (auto simp: demo_conn_of demo_conn_def demo_check_fact)

section \<open>Channels and packets\<close>

text \<open>C13. \<open>ChanOpenTry\<close> succeeds exactly when one hop is given, a connection is recorded for it
  whose single version supports the ordering, and the upstream client accepts a proof of the
  channel in state INIT with an empty counterparty channel; it records exactly that channel,
  whatever was recorded for that channel before.\<close>

theorem ChanOpenTry_correct:
  assumes "ics24_paths (cdc K)"
  shows "ChanOpenTry K D u p order hops port chan port' ver proofInit proofHeight c = (Ok (), c') \<longleftrightarrow>
    (\<exists>j cn ch c1. hops = [j] \<and> conn_of K c p u j = Ok (Some cn) \<and> validateChannelOrder K order cn = Ok () \<and>
       ch = new_channel CHAN_INIT order hops port' [] ver \<and>
       check_fact K D u p 0 proofHeight proofInit (ChannelFact port chan ch) c = (Ok (), c1) \<and>
       c' = ctx_put c1 (slot_path (cdc K) p u (ChannelSlot port chan)) (MarshalChannel (cdc K) ch))"
  by (simp add: ChanOpenTry_Ok [OF assms] proxy_fact_Ok_iff)

lemma ChanOpenTry_correct_witness:
  "\<exists>c'. ChanOpenTry demo_keeper demo_ops ''up'' demo_pfx 1 [''c0''] ''pa'' ''ch'' ''pb'' ''v'' [1] demo_height
     (demo_store CONN_INIT CHAN_OPEN) = (Ok (), c')"
  unfolding ChanOpenTry_correct [of demo_keeper, unfolded demo_cdc, OF demo_paths]
  by (auto simp: demo_conn_of demo_order demo_check_fact)

text \<open>C14. \<open>ChanOpenAck\<close> succeeds exactly when one hop is given, its connection is recorded OPEN
  with a single version that supports the ordering, and the upstream client accepts a proof
  of the channel in state TRYOPEN with the given counterparty; it records that channel.\<close>

theorem ChanOpenAck_correct:
  assumes "ics24_paths (cdc K)"
  shows "ChanOpenAck K D u p order hops port chan port' chan' ver proofTry proofHeight c = (Ok (), c') \<longleftrightarrow>
    (\<exists>j cn ch c1. hops = [j] \<and> conn_of K c p u j = Ok (Some cn) \<and> ConnState cn = CONN_OPEN \<and>
       validateChannelOrder K order cn = Ok () \<and> ch = new_channel CHAN_TRYOPEN order hops port' chan' ver \<and>
       check_fact K D u p 0 proofHeight proofTry (ChannelFact port chan ch) c = (Ok (), c1) \<and>
       c' = ctx_put c1 (slot_path (cdc K) p u (ChannelSlot port chan)) (MarshalChannel (cdc K) ch))"
  by (simp add: ChanOpenAck_Ok [OF assms] proxy_fact_Ok_iff)

lemma ChanOpenAck_correct_witness:
  "\<exists>c'. ChanOpenAck demo_keeper demo_ops ''up'' demo_pfx 1 [''c0''] ''pa'' ''ch'' ''pb'' ''cb'' ''v'' [1] demo_height
     (demo_store CONN_OPEN CHAN_INIT) = (Ok (), c')"
  unfolding ChanOpenAck_correct [of demo_keeper, unfolded demo_cdc, OF demo_paths]
  by (auto simp: demo_conn_of demo_order demo_check_fact) (simp add: demo_conn_def)

text \<open>C15. \<open>ChanOpenConfirm\<close> succeeds exactly when the recorded channel is in state INIT without a
  counterparty channel, its first hop is a connection recorded OPEN, and the upstream client
  accepts a proof of the channel OPEN with the counterparty channel filled in.\<close>

theorem ChanOpenConfirm_correct:
  assumes "ics24_paths (cdc K)"
  shows "ChanOpenConfirm K D u p port chan chan' proofAck proofHeight c = (Ok (), c') \<longleftrightarrow>
    (\<exists>ch j js cn ch' c1. chan_of K c p u port chan = Ok (Some ch) \<and> CpChannelId (ChanCp ch) = [] \<and>
       ChanState ch = CHAN_INIT \<and> ConnectionHops ch = j # js \<and>
       conn_of K c p u j = Ok (Some cn) \<and> ConnState cn = CONN_OPEN \<and>
       ch' = ch\<lparr>ChanCp := (ChanCp ch)\<lparr>CpChannelId := chan'\<rparr>, ChanState := CHAN_OPEN\<rparr> \<and>
       check_fact K D u p 0 proofHeight proofAck (ChannelFact port chan ch') c = (Ok (), c1) \<and>
       c' = ctx_put c1 (slot_path (cdc K) p u (ChannelSlot port chan)) (MarshalChannel (cdc K) ch'))"
  by (simp add: ChanOpenConfirm_Ok [OF assms] proxy_fact_Ok_iff)

lemma ChanOpenConfirm_correct_witness:
  "\<exists>c'. ChanOpenConfirm demo_keeper demo_ops ''up'' demo_pfx ''pa'' ''ch'' ''cb'' [1] demo_height
     (demo_store CONN_OPEN CHAN_INIT) = (Ok (), c')"
  unfolding ChanOpenConfirm_correct [of demo_keeper, unfolded demo_cdc, OF demo_paths]
  by (auto simp: demo_chan_of demo_chan_def demo_conn_of demo_check_fact) (simp add: demo_conn_def)

text \<open>C16. \<open>ChanOpenFinalize\<close> succeeds exactly when the recorded channel is in state TRYOPEN, its
  first hop is a connection recorded OPEN, and the upstream client accepts a proof of that
  very channel OPEN.\<close>

theorem ChanOpenFinalize_correct:
  assumes "ics24_paths (cdc K)"
  shows "ChanOpenFinalize K D u p port chan proofConfirm proofHeight c = (Ok (), c') \<longleftrightarrow>
    (\<exists>ch j js cn ch' c1. chan_of K c p u port chan = Ok (Some ch) \<and> ChanState ch = CHAN_TRYOPEN \<and>
       ConnectionHops ch = j # js \<and> conn_of K c p u j = Ok (Some cn) \<and> ConnState cn = CONN_OPEN \<and>
       ch' = ch\<lparr>ChanState := CHAN_OPEN\<rparr> \<and>
       check_fact K D u p 0 proofHeight proofConfirm (ChannelFact port chan ch') c = (Ok (), c1) \<and>
       c' = ctx_put c1 (slot_path (cdc K) p u (ChannelSlot port chan)) (MarshalChannel (cdc K) ch'))"
  by (simp add: ChanOpenFinalize_Ok [OF assms] proxy_fact_Ok_iff)

lemma ChanOpenFinalize_correct_witness:
  "\<exists>c'. ChanOpenFinalize demo_keeper demo_ops ''up'' demo_pfx ''pa'' ''ch'' [1] demo_height
     (demo_store CONN_OPEN CHAN_TRYOPEN) = (Ok (), c')"
  unfolding ChanOpenFinalize_correct [of demo_keeper, unfolded demo_cdc, OF demo_paths]
  by (auto simp: demo_chan_of demo_chan_def demo_conn_of demo_check_fact) (simp add: demo_conn_def)

text \<open>C17. \<open>RecvPacket\<close> succeeds exactly when the source channel is recorded, the packet is
  addressed to its counterparty, the first hop of the channel is a recorded connection (in
  any state), and the upstream client accepts a proof of the packet's commitment under the
  connection's delay period; it records exactly the commitment.\<close>

theorem RecvPacket_correct:
  assumes "ics24_paths (cdc K)"
  shows "RecvPacket K D u p pkt proof h c = (Ok (), c') \<longleftrightarrow>
    (\<exists>ch j js cn c1. chan_of K c p u (SourcePort pkt) (SourceChannel pkt) = Ok (Some ch) \<and>
       ChanCp ch = \<lparr>CpPortId = DestinationPort pkt, CpChannelId = DestinationChannel pkt\<rparr> \<and>
       ConnectionHops ch = j # js \<and> conn_of K c p u j = Ok (Some cn) \<and>
       check_fact K D u p (DelayPeriod cn) h proof (PacketCommitmentFact (SourcePort pkt) (SourceChannel pkt)
         (Sequence pkt) (CommitPacket (cdc K) pkt)) c = (Ok (), c1) \<and>
       c' = ctx_put c1 (slot_path (cdc K) p u
         (PacketCommitmentSlot (SourcePort pkt) (SourceChannel pkt) (Sequence pkt))) (CommitPacket (cdc K) pkt))"
  by (simp add: RecvPacket_Ok [OF assms] proxy_fact_Ok_iff)

lemma RecvPacket_correct_witness:
  "\<exists>c'. RecvPacket demo_keeper demo_ops ''up'' demo_pfx demo_packet [1] demo_height
     (demo_store CONN_INIT CHAN_OPEN) = (Ok (), c')"
  unfolding RecvPacket_correct [of demo_keeper, unfolded demo_cdc, OF demo_paths]
  by (auto simp: demo_packet_def demo_chan_of demo_chan_def demo_conn_of demo_check_fact)

text \<open>C18. \<open>AcknowledgePacket\<close> succeeds exactly when the destination channel is recorded (in any
  state), its first hop is a recorded connection (in any state), and the upstream client accepts a
  proof of the acknowledgement; it records the commitment of the acknowledgement. The comment
  in the function says that the connection and the channel must be OPEN: neither is checked.\<close>

theorem AcknowledgePacket_correct:
  assumes "ics24_paths (cdc K)"
  shows "AcknowledgePacket K D u p pkt ack proof h c = (Ok (), c') \<longleftrightarrow>
    (\<exists>ch j js cn c1. chan_of K c p u (DestinationPort pkt) (DestinationChannel pkt) = Ok (Some ch) \<and>
       ConnectionHops ch = j # js \<and> conn_of K c p u j = Ok (Some cn) \<and>
       check_fact K D u p (DelayPeriod cn) h proof (PacketAckFact (DestinationPort pkt) (DestinationChannel pkt)
         (Sequence pkt) ack) c = (Ok (), c1) \<and>
       c' = ctx_put c1 (slot_path (cdc K) p u
         (PacketAckSlot (DestinationPort pkt) (DestinationChannel pkt) (Sequence pkt)))
         (CommitAcknowledgement (cdc K) ack))"
  by (simp add: AcknowledgePacket_Ok [OF assms] proxy_fact_Ok_iff)

lemma AcknowledgePacket_correct_witness:
  "\<exists>c'. AcknowledgePacket demo_keeper demo_ops ''up'' demo_pfx
     (demo_packet\<lparr>DestinationPort := ''pa'', DestinationChannel := ''ch''\<rparr>) [9] [1] demo_height
     (demo_store CONN_INIT CHAN_OPEN) = (Ok (), c')"
  unfolding AcknowledgePacket_correct [of demo_keeper, unfolded demo_cdc, OF demo_paths]
  by (auto simp: demo_packet_def demo_chan_of demo_chan_def demo_conn_of demo_check_fact)

text \<open>C19. \<open>ChanOpenTry\<close> does not look at the recorded channel: when the connection of the one hop is
  recorded and admits the ordering, and the upstream client accepts a proof of the initial
  channel, then it succeeds although the channel is already recorded OPEN, and the channel is
  back in INIT, without a counterparty channel.\<close>

theorem ChanOpenTry_resets_open_channel:
  assumes "ics24_paths (cdc K)" and "codec_ok (cdc K)"
    and "chan_of K c p u port chan = Ok (Some old)" and "ChanState old = CHAN_OPEN"
    and "conn_of K c p u j = Ok (Some cn)" and "validateChannelOrder K order cn = Ok ()"
    and "check_fact K D u p 0 h proofInit (ChannelFact port chan (new_channel CHAN_INIT order [j] port' [] ver)) c = (Ok (), c1)"
  shows "\<exists>c'. ChanOpenTry K D u p order [j] port chan port' ver proofInit h c = (Ok (), c') \<and>
    chan_of K c' p u port chan = Ok (Some (new_channel CHAN_INIT order [j] port' [] ver))"
proof -
  obtain c' where "proxy_fact K D u p 0 h proofInit (ChannelFact port chan (new_channel CHAN_INIT order [j] port' [] ver)) c =
      (Ok (), c')"
    using assms(7) by (simp add: proxy_fact_Ok_iff)
  with assms(5,6) chan_recorded [OF assms(1,2) this] show ?thesis by (auto simp: ChanOpenTry_Ok [OF assms(1)])
qed

lemma ChanOpenTry_resets_open_channel_witness:
  "chan_of demo_keeper (demo_store CONN_OPEN CHAN_OPEN) demo_pfx ''up'' ''pa'' ''ch'' = Ok (Some (demo_chan CHAN_OPEN)) \<and>
   (\<exists>c'. ChanOpenTry demo_keeper demo_ops ''up'' demo_pfx 1 [''c0''] ''pa'' ''ch'' ''pb'' ''v'' [1] demo_height
      (demo_store CONN_OPEN CHAN_OPEN) = (Ok (), c') \<and>
     chan_of demo_keeper c' demo_pfx ''up'' ''pa'' ''ch'' = Ok (Some (new_channel CHAN_INIT 1 [''c0''] ''pb'' [] ''v'')))"
proof -
  have L: "ics24_paths (cdc demo_keeper)" and cod: "codec_ok (cdc demo_keeper)"
    by (simp_all add: demo_paths demo_codec)
  have open_chan: "ChanState (demo_chan CHAN_OPEN) = CHAN_OPEN" by (simp add: demo_chan_def)
  show ?thesis
    using ChanOpenTry_resets_open_channel [OF L cod demo_chan_of open_chan demo_conn_of(1) demo_order demo_check_fact]
    by (simp add: demo_chan_of)
qed

section \<open>The proxy's view of itself, and errors\<close>

text \<open>C20. The proxy accepts a client state as its own exactly when it names the proxy's IBC and
  proxy stores as prefixes and wraps a client state that the client keeper validates. Otherwise,
  in the order of the checks: a nil IBC prefix panics, a different one is an error (whatever
  the proxy prefix); then a nil proxy prefix panics and a different one is an error; then a
  wrapped client state that does not unpack panics, and else the client keeper's verdict is
  the result.\<close>

theorem validateSelfClient_correct:
  assumes "helpers_ok (cdc K)"
  shows "(validateSelfClient K w cs = Ok () \<longleftrightarrow>
       IbcPrefix cs = Some (GetIBCCommitmentPrefix K) \<and> ProxyPrefix cs = Some (GetProxyCommitmentPrefix K) \<and>
       (\<exists>inner. UnpackClientState (cdc K) (ProxyClientStateAny cs) = Ok inner \<and>
          ValidateSelfClient (clientKeeper K) w inner = Ok ())) \<and>
    (IbcPrefix cs = None \<longrightarrow> validateSelfClient K w cs = Panic) \<and>
    (IbcPrefix cs = Some a \<and> a \<noteq> GetIBCCommitmentPrefix K \<longrightarrow>
       validateSelfClient K w cs = Err (Errorf ''IBC commitment prefix mismatch: %X != %X'')) \<and>
    (IbcPrefix cs = Some (GetIBCCommitmentPrefix K) \<longrightarrow>
       (ProxyPrefix cs = None \<longrightarrow> validateSelfClient K w cs = Panic) \<and>
       (ProxyPrefix cs = Some b \<and> b \<noteq> GetProxyCommitmentPrefix K \<longrightarrow>
          validateSelfClient K w cs = Err (Errorf ''Proxy commitment prefix mismatch: %X != %X'')) \<and>
       (ProxyPrefix cs = Some (GetProxyCommitmentPrefix K) \<longrightarrow>
          (UnpackClientState (cdc K) (ProxyClientStateAny cs) = Err e \<longrightarrow> validateSelfClient K w cs = Panic) \<and>
          (UnpackClientState (cdc K) (ProxyClientStateAny cs) = Ok inner \<longrightarrow>
             validateSelfClient K w cs = ValidateSelfClient (clientKeeper K) w inner)))"
proof (intro conjI impI)
  show "validateSelfClient K w cs = Ok () \<longleftrightarrow>
       IbcPrefix cs = Some (GetIBCCommitmentPrefix K) \<and> ProxyPrefix cs = Some (GetProxyCommitmentPrefix K) \<and>
       (\<exists>inner. UnpackClientState (cdc K) (ProxyClientStateAny cs) = Ok inner \<and>
          ValidateSelfClient (clientKeeper K) w inner = Ok ())"
    by (simp add: validateSelfClient_Ok [OF assms] GetIBCCommitmentPrefix_def GetProxyCommitmentPrefix_def)
qed (use assms in \<open>auto simp: validateSelfClient_def Prefix_Bytes_def prefix_ptr_def helpers_ok_def GetProxyClientState_def\<close>)

lemma validateSelfClient_correct_witness:
  "validateSelfClient demo_keeper demo_world demo_self = Ok () \<and>
   validateSelfClient demo_keeper demo_world (demo_self\<lparr>ProxyPrefix := None\<rparr>) = Panic \<and>
   validateSelfClient demo_keeper demo_world (demo_self\<lparr>IbcPrefix := Some ''x'', ProxyPrefix := None\<rparr>) =
     Err (Errorf ''IBC commitment prefix mismatch: %X != %X'')"
proof -
  note spec = validateSelfClient_correct [of demo_keeper, unfolded demo_cdc, OF demo_helpers]
  have ibc: "IbcPrefix demo_self = Some (GetIBCCommitmentPrefix demo_keeper)"
    using spec demo_validate_self by blast
  have "GetIBCCommitmentPrefix demo_keeper = ''ibc''" using ibc by (simp add: demo_self_def)
  then show ?thesis
    using ibc demo_validate_self spec [of demo_world "demo_self\<lparr>ProxyPrefix := None\<rparr>"]
      spec [of demo_world "demo_self\<lparr>IbcPrefix := Some ''x'', ProxyPrefix := None\<rparr>" "''x''"]
    by simp
qed

text \<open>C21. A message with a packed client or consensus state that cannot be unpacked fails and
  leaves the whole state, light client stores included, as it was.\<close>

theorem undecodable_message_rejected:
  assumes "\<not> unpacks (cdc K) m"
  shows "snd (handle K D m c) = c \<and> \<not> is_ok (fst (handle K D m c))"
  using handle_unpack_fails [OF assms] by (simp add: fails_still_def)

definition demo_bad :: MsgProxyClientState where
  "demo_bad = \<lparr>pcs_UpstreamClientId = ''up'', pcs_UpstreamPrefix = ''ibc'', pcs_CounterpartyClientId = ''cl'',
     pcs_ClientState = None, pcs_ConsensusState = None, pcs_ProofClient = [1], pcs_ProofConsensus = [1],
     pcs_ProofHeight = demo_height, pcs_ConsensusHeight = demo_height, pcs_Signer = ''s''\<rparr>"

lemma undecodable_message_rejected_witness:
  "snd (handle demo_keeper demo_ops (ClientState_msg demo_bad) (demo_ctx [])) = demo_ctx []"
  using undecodable_message_rejected [of demo_keeper "ClientState_msg demo_bad" demo_ops "demo_ctx []"]
  by (simp add: demo_bad_def demo_lib_def)

text \<open>C22. Recording a verified absence of a packet receipt puts the byte 1 at the path of the
  receipt: afterwards the path is present in the module's store.\<close>

theorem receipt_absence_recorded_as_presence:
  assumes "ics24_paths (cdc K)"
    and "VerifyAndProxyPacketReceiptAbsence K D u p cn h proof port chan n c = (Ok (), c')"
  shows "upstream_verifies K D c u p (ReceiptAbsenceFact port chan n) \<and>
    proxyStore c' = (proxyStore c)(slot_path (cdc K) p u (PacketReceiptSlot port chan n) \<mapsto> [1])"
  using assms(2) proxy_fact_OkD [of K D u p _ h "proof" "ReceiptAbsenceFact port chan n"]
  by (simp add: as_fact [OF assms(1)])

lemma receipt_absence_recorded_as_presence_witness:
  "\<exists>c' :: demo_world ctx. proxyStore c' (slot_path demo_lib demo_pfx ''up'' (PacketReceiptSlot ''pa'' ''ch'' 3)) = Some [1]"
proof -
  have L: "ics24_paths (cdc demo_keeper)" by (simp add: demo_paths)
  obtain c' where "VerifyAndProxyPacketReceiptAbsence demo_keeper demo_ops ''up'' demo_pfx (demo_conn CONN_OPEN)
      demo_height [1] ''pa'' ''ch'' 3 (demo_ctx []) = (Ok (), c')"
    by (simp add: as_fact [OF L] demo_proxy_fact)
  from receipt_absence_recorded_as_presence [OF L this]
  have "proxyStore c' (slot_path demo_lib demo_pfx ''up'' (PacketReceiptSlot ''pa'' ''ch'' 3)) = Some [1]" by simp
  then show ?thesis by blast
qed

text \<open>C23. A \<open>MsgProxyClientState\<close> that comes from its constructor never names the client it is
  about: when it is handled successfully, the upstream client accepted the given client and
  consensus state under the empty client identifier, and they are recorded under it.\<close>

theorem NewMsgProxyClientState_handled:
  assumes L: "ics24_paths (cdc K)" and cod: "codec_ok (cdc K)"
    and new: "NewMsgProxyClientState (cdc K) u p (Some cs) (Some k) pc pk h ch s = Ok m"
    and run: "handle K D (ClientState_msg m) c = (Ok (), c')"
  shows "upstream_verifies K D c u (MerklePfx p) (ClientStateFact [] cs) \<and>
    (\<exists>b b'. MarshalClientState (cdc K) cs = Ok b \<and> MarshalConsensusState (cdc K) k = Ok b' \<and>
      proxyStore c' = (proxyStore c)
        (slot_path (cdc K) (MerklePfx p) u (ClientStateSlot []) \<mapsto> b,
         slot_path (cdc K) (MerklePfx p) u (ConsensusStateSlot [] ch) \<mapsto> b'))"
proof -
  obtain a a' where a: "PackClientState (cdc K) (Some cs) = Ok a" "PackConsensusState (cdc K) (Some k) = Ok a'"
    using new by (auto simp: NewMsgProxyClientState_def outcome_simps)
  from run new codec_okD(9) [OF cod a(1)] codec_okD(10) [OF cod a(2)] a
  obtain x c1 where 1: "proxy_fact K D u (MerklePfx p) 0 h pc (ClientStateFact [] cs) c = (Ok x, c1)"
    and 2: "proxy_fact K D u (MerklePfx p) 0 h pk (ConsensusStateFact [] ch k) c1 = (Ok (), c')"
    by (auto simp: NewMsgProxyClientState_def Server_ProxyClientState_def Keeper_ClientState_def as_fact [OF L]
        outcome_simps)
  from proxy_fact_OkD [OF 1] proxy_fact_OkD [OF 2] show ?thesis by auto
qed

lemma NewMsgProxyClientState_handled_witness:
  "\<exists>c'. proxyStore (c' :: demo_world ctx) (slot_path demo_lib demo_pfx ''up'' (ConsensusStateSlot [] demo_height)) =
     Some (enc_consensus (ExternalConsensus 4))"
proof -
  have L: "ics24_paths (cdc demo_keeper)" and cod: "codec_ok (cdc demo_keeper)"
    by (simp_all add: demo_paths demo_codec)
  obtain m where new: "NewMsgProxyClientState (cdc demo_keeper) ''up'' ''ibc'' (Some (ExternalClient 3))
      (Some (ExternalConsensus 4)) [1] [1] demo_height demo_height ''s'' = Ok m"
    by (simp add: NewMsgProxyClientState_def demo_simps del: enc_client.simps enc_consensus.simps)
  have "\<exists>c'. handle demo_keeper demo_ops (ClientState_msg m) (demo_ctx []) = (Ok (), c')"
    using new by (auto simp: NewMsgProxyClientState_def Server_ProxyClientState_def Keeper_ClientState_def as_fact [OF L]
        demo_simps mbind_step [OF demo_proxy_fact] demo_proxy_fact simp del: enc_client.simps enc_consensus.simps)
  then obtain c' where "handle demo_keeper demo_ops (ClientState_msg m) (demo_ctx []) = (Ok (), c')" ..
  from NewMsgProxyClientState_handled [OF L cod new this] show ?thesis
    by (intro exI [of _ c']) (auto simp: demo_simps simp del: enc_consensus.simps)
qed

end
