(* ===== verification/Store_Typing.thy ===== *)
theory Store_Typing
  imports Msg_Server
begin

text \<open>
  The type of the module's store: every entry decodes as the object its path stands for, and
  a recorded channel names exactly one connection. Every message keeps this, also one that
  fails half way, and from it follows that no read of the keeper panics.
\<close>

section \<open>Well-typed stores\<close>

text \<open>The bytes at the path of a slot are an object of the slot's type.\<close>

fun decodes :: "'x lib \<Rightarrow> slot \<Rightarrow> bytes \<Rightarrow> bool" where
  "decodes L (ClientStateSlot i) b \<longleftrightarrow> b \<noteq> [] \<and> is_ok (UnmarshalClientState L b)"
| "decodes L (ConsensusStateSlot i h) b \<longleftrightarrow> b \<noteq> [] \<and> is_ok (UnmarshalConsensusState L b)"
| "decodes L (ConnectionSlot i) b \<longleftrightarrow> b \<noteq> [] \<and> is_ok (UnmarshalConnectionEnd L b)"
| "decodes L (ChannelSlot p c) b \<longleftrightarrow>
     (case UnmarshalChannel L b of Ok ch \<Rightarrow> b \<noteq> [] \<and> length (ConnectionHops ch) = 1 | _ \<Rightarrow> False)"
| "decodes L x b \<longleftrightarrow> True"

definition store_typed :: "('x, 'i) Keeper \<Rightarrow> 'i ctx \<Rightarrow> bool" where
  "store_typed K c \<longleftrightarrow>
     (\<forall>p u x b. root_ok K p u \<longrightarrow> proxyStore c (slot_path (cdc K) p u x) = Some b \<longrightarrow> decodes (cdc K) x b)"

lemma store_typedD:
  "store_typed K c \<Longrightarrow> root_ok K p u \<Longrightarrow> proxyStore c (slot_path (cdc K) p u x) = Some b \<Longrightarrow> decodes (cdc K) x b"
  by (simp add: store_typed_def)

lemma store_typed_local: "proxyStore c' = proxyStore c \<Longrightarrow> store_typed K c' = store_typed K c"
  by (simp add: store_typed_def)

lemma store_typed_empty: "proxyStore c = Map.empty \<Longrightarrow> store_typed K c"
  by (simp add: store_typed_def)

text \<open>
  Two slots with one key have one type, whatever their identifiers are: the first segment of
  the key separates the kinds, and the last character client states from consensus states.
\<close>

lemma last_height_string: "is_digit (last (height_string h))"
  using decimal_digits [of "unat (RevisionHeight h)"] by (simp add: height_string_def)

lemma client_state_key_ends:
  "i @ ''/clientState'' \<noteq> j @ ''/consensusStates/'' @ height_string h"
proof
  assume "i @ ''/clientState'' = j @ ''/consensusStates/'' @ height_string h"
  then have "last (i @ ''/clientState'') = last (j @ ''/consensusStates/'' @ height_string h)" by (simp only:)
  moreover have "last (j @ ''/consensusStates/'' @ height_string h) = last (height_string h)"
    unfolding append_assoc [symmetric] by (rule last_appendR) (simp add: height_string_def)
  ultimately have "is_digit (CHR ''e'')" using last_height_string [of h] by simp
  then show False by (simp add: is_digit_def)
qed

lemmas client_state_keys = client_state_key_ends [simplified] client_state_key_ends [symmetric, simplified]

lemma same_key_same_type:
  assumes L: "ics24_paths L" and eq: "slot_key L x = slot_key L y"
  shows "decodes L x b \<longleftrightarrow> decodes L y b"
proof -
  have "slot_kind x = slot_kind y" using eq hd_segments_slot_key [OF L] by metis
  with eq show ?thesis
    by (cases x; cases y) (auto simp: ics24_pathsD [OF L] client_state_keys)
qed

text \<open>Statements that a handler may record: a channel has one hop.\<close>

fun recordable :: "'x fact \<Rightarrow> bool" where
  "recordable (ChannelFact p c ch) \<longleftrightarrow> length (ConnectionHops ch) = 1"
| "recordable f \<longleftrightarrow> True"

lemma fact_value_decodes:
  assumes "codec_ok L" and "recordable f" and "fact_value L f = Ok b"
  shows "decodes L (fact_slot f) b"
  using assms codec_okD [OF assms(1)] by (cases f) (auto simp: outcome_simps)

section \<open>Every call keeps the store well-typed\<close>

definition typing_kept :: "('x, 'i) Keeper \<Rightarrow> 'i ctx \<Rightarrow> 'i ctx \<Rightarrow> bool" where
  "typing_kept K c c' \<longleftrightarrow> (store_typed K c \<longrightarrow> store_typed K c')"

interpretation typing: state_frame "typing_kept K" for K :: "('x, 'i) Keeper"
  by unfold_locales (simp_all add: typing_kept_def)

text \<open>Writing a well-typed entry at the path of a slot.\<close>

lemma typed_put:
  assumes L: "ics24_paths (cdc K)" and typed: "store_typed K c" and root: "root_ok K p u"
    and b: "decodes (cdc K) y b"
  shows "store_typed K (ctx_put c (slot_path (cdc K) p u y) b)"
  unfolding store_typed_def
proof (intro allI impI)
  fix q w x v
  assume q: "root_ok K q w" and v: "proxyStore (ctx_put c (slot_path (cdc K) p u y) b) (slot_path (cdc K) q w x) = Some v"
  show "decodes (cdc K) x v"
  proof (cases "slot_path (cdc K) q w x = slot_path (cdc K) p u y")
    case True
    with slot_path_root [OF L _ _ _ _ True] q root have "slot_key (cdc K) x = slot_key (cdc K) y"
      by (simp add: root_ok_def)
    moreover have "v = b" using v True by (simp add: ctx_put_def)
    ultimately show ?thesis using b same_key_same_type [OF L] by blast
  next
    case False
    with v have "proxyStore c (slot_path (cdc K) q w x) = Some v" by (simp add: ctx_put_def)
    with typed q show ?thesis by (rule store_typedD)
  qed
qed

lemma typing_proxy_fact:
  assumes L: "ics24_paths (cdc K)" and cod: "codec_ok (cdc K)" and ids: "client_ids_ok (clientKeeper K)"
    and p: "no_slash (PrefixBytes (cdc K) p)" and f: "recordable f"
  shows "keeps (typing_kept K) (proxy_fact K D u p d h pr f)"
proof (rule keepsI)
  fix c
  obtain r c' where pf: "proxy_fact K D u p d h pr f c = (r, c')" by fastforce
  then have "typing_kept K c c'"
  proof (cases rule: proxy_fact_cases)
    case failed
    then show ?thesis by (simp add: typing_kept_def store_typed_local [of c' c])
  next
    case (recorded b)
    have "no_slash u" using recorded(2) ids by (rule verified_client)
    then have root: "root_ok K p u" using p by (simp add: root_ok_def)
    have "store_typed K c' = store_typed K (ctx_put c (slot_path (cdc K) p u (fact_slot f)) b)"
      using recorded(4) by (intro store_typed_local) (simp add: ctx_put_def)
    with typed_put [OF L _ root fact_value_decodes [OF cod f recorded(3)]] show ?thesis
      by (simp add: typing_kept_def)
  qed
  with pf show "typing_kept K c (snd (proxy_fact K D u p d h pr f c))" by simp
qed

text \<open>In a well-typed store a recorded channel has one hop.\<close>

lemma typed_channel:
  assumes "store_typed K c" and "root_ok K p u" and "chan_of K c p u a b = Ok (Some ch)"
  shows "length (ConnectionHops ch) = 1"
proof -
  let ?path = "slot_path (cdc K) p u (ChannelSlot a b)"
  obtain v where v: "proxyStore c ?path = Some v" "UnmarshalChannel (cdc K) v = Ok ch"
    using assms(3) by (cases "proxyStore c ?path")
      (auto simp: chan_of_def GetProxyChannel_def read_object_def substore_get_def slot_paths mbind_apply
        outcome_simps split: if_splits outcome.splits)
  with store_typedD [OF assms(1,2) v(1)] show ?thesis by simp
qed

text \<open>A handler's continuation after it has looked up a channel and its connection.\<close>

lemma typing_lookup:
  assumes "\<And>cn. typing_kept K c (snd (f cn c))"
  shows "typing_kept K c (snd (mbind (existing_connection K p u hops) f c))"
  using assms existing_connection_state [of K p u hops c]
  by (auto simp: mbind_apply typing.frame_refl split: outcome.splits)

lemma typing_record_channel:
  assumes "ics24_paths (cdc K)" and "codec_ok (cdc K)" and ids: "client_ids_ok (clientKeeper K)"
    and p: "no_slash (PrefixBytes (cdc K) p)" and ch: "chan_of K c p u a b = Ok (Some ch)"
    and same: "ConnectionHops ch' = ConnectionHops ch"
  shows "typing_kept K c (snd (proxy_fact K D u p d h pr (ChannelFact a b ch') c))"
proof (cases "store_typed K c \<and> no_slash u")
  case True
  then have "recordable (ChannelFact a b ch')"
    using typed_channel [OF _ _ ch] p same by (simp add: root_ok_def)
  then show ?thesis using typing_proxy_fact [OF assms(1-4)] by (simp add: keeps_def)
next
  case False
  obtain r c' where pf: "proxy_fact K D u p d h pr (ChannelFact a b ch') c = (r, c')" by fastforce
  show ?thesis
  proof (cases "store_typed K c")
    case True
    with False have "\<not> no_slash u" by simp
    with pf have "proxyStore c' = proxyStore c"
      by (cases rule: proxy_fact_cases) (auto dest: verified_client [OF _ ids])
    with pf show ?thesis by (simp add: typing_kept_def store_typed_local [of c' c])
  qed (simp add: typing_kept_def)
qed

lemma typing_ConnOpen:
  assumes L: "ics24_paths (cdc K)" and cod: "codec_ok (cdc K)" and ids: "client_ids_ok (clientKeeper K)"
    and p: "no_slash (PrefixBytes (cdc K) p)"
  shows "keeps (typing_kept K) (ConnOpenTry K D i p cn dc dk pc b1 b2 b3 h1 h2 b4 b5 h3 h4)"
    and "keeps (typing_kept K) (ConnOpenAck K D i p cn dc dk pc b1 b2 b3 h1 h2 b4 b5 h3 h4)"
    and "keeps (typing_kept K) (ConnOpenConfirm K D i u p j b1 h1)"
    and "keeps (typing_kept K) (ConnOpenFinalize K D i u p b1 h1)"
  unfolding ConnOpenTry_def ConnOpenAck_def ConnOpenConfirm_def ConnOpenFinalize_def as_fact [OF L]
  by (intro typing.keeps_rules typing_proxy_fact [OF L cod ids p] typing.keeps_pure [OF conn_obj.get_state]; simp)+

lemma typing_Chan_Packet:
  assumes L: "ics24_paths (cdc K)" and cod: "codec_ok (cdc K)" and ids: "client_ids_ok (clientKeeper K)"
    and p: "no_slash (PrefixBytes (cdc K) p)"
  shows "keeps (typing_kept K) (ChanOpenTry K D u p order hops a b a' ver pr h)"
    and "keeps (typing_kept K) (ChanOpenAck K D u p order hops a b a' b' ver pr h)"
    and "keeps (typing_kept K) (ChanOpenConfirm K D u p a b b' pr h)"
    and "keeps (typing_kept K) (ChanOpenFinalize K D u p a b pr h)"
    and "keeps (typing_kept K) (RecvPacket K D u p pkt pr h)"
    and "keeps (typing_kept K) (AcknowledgePacket K D u p pkt ack pr h)"
    and "keeps (typing_kept K) (Keeper_ClientState K D u p i dc dk pr1 pr2 h ch)"
proof -
  note rules = typing.keeps_rules typing_proxy_fact [OF L cod ids p] typing.keeps_pure [OF existing_connection_state]
    typing.keeps_pure [OF GetProxyChannel_state]
  show "keeps (typing_kept K) (ChanOpenTry K D u p order hops a b a' ver pr h)"
    and "keeps (typing_kept K) (ChanOpenAck K D u p order hops a b a' b' ver pr h)"
    and "keeps (typing_kept K) (RecvPacket K D u p pkt pr h)"
    and "keeps (typing_kept K) (AcknowledgePacket K D u p pkt ack pr h)"
    and "keeps (typing_kept K) (Keeper_ClientState K D u p i dc dk pr1 pr2 h ch)"
    unfolding handler_defs as_fact [OF L] by (intro rules; simp)+
  show "keeps (typing_kept K) (ChanOpenConfirm K D u p a b b' pr h)"
    unfolding ChanOpenConfirm_def as_fact [OF L]
    by (intro typing.keeps_mbind_state [OF typing.keeps_pure, OF GetProxyChannel_state])
      (auto simp: chan_of_run typing.frame_refl intro!: typing_lookup typing_record_channel [OF L cod ids p] split: option.splits)
  show "keeps (typing_kept K) (ChanOpenFinalize K D u p a b pr h)"
    unfolding ChanOpenFinalize_def as_fact [OF L]
    by (intro typing.keeps_mbind_state [OF typing.keeps_pure, OF GetProxyChannel_state])
      (auto simp: chan_of_run typing.frame_refl intro!: typing_lookup typing_record_channel [OF L cod ids p] split: option.splits)
qed

lemma typing_handle:
  assumes "ics24_paths (cdc K)" and "codec_ok (cdc K)" and "client_ids_ok (clientKeeper K)"
    and "plain_prefix K m"
  shows "keeps (typing_kept K) (handle K D m)"
  using assms(4) [unfolded plain_prefix_def]
  by (cases m) (simp_all add: server_defs typing_ConnOpen [OF assms(1-3)]
      typing_Chan_Packet [OF assms(1-3)] typing.keeps_mlift_bind)

lemma typing_run:
  assumes "ics24_paths (cdc K)" and "codec_ok (cdc K)" and "client_ids_ok (clientKeeper K)"
    and "(module_step K D (plain_prefix K))\<^sup>*\<^sup>* c c'" and "store_typed K c"
  shows "store_typed K c'"
proof -
  have "typing_kept K c c'"
  proof (rule runs_keep [OF _ _ _ _ assms(4)])
    show "keeps (typing_kept K) (handle K D m)" if "plain_prefix K m" for m
      using that by (rule typing_handle [OF assms(1-3)])
    show "typing_kept K c c'" if "proxyStore c' = proxyStore c" for c c'
      by (simp add: typing_kept_def store_typed_local [OF that])
  qed (auto simp: typing_kept_def intro!: reflpI transpI)
  with assms(5) show ?thesis by (simp add: typing_kept_def)
qed

section \<open>Reads and checks of a well-typed store settle\<close>

text \<open>A call settles when it succeeds or returns an error.\<close>

definition settles :: "'a outcome \<Rightarrow> bool" where
  "settles r \<longleftrightarrow> r \<noteq> Panic \<and> r \<noteq> Diverge"

lemma settles_simps [simp]:
  "settles (Ok x)" "settles (Err e)" "\<not> settles Panic" "\<not> settles Diverge"
  by (simp_all add: settles_def)

definition settles_at :: "('s, 'a) prog \<Rightarrow> 's \<Rightarrow> bool" where
  "settles_at m c \<longleftrightarrow> settles (fst (m c))"

lemma settles_at_mlift: "settles r \<Longrightarrow> settles_at (mlift r) c"
  by (simp add: settles_at_def)

lemma settles_at_bind:
  "settles_at m c \<Longrightarrow> (\<And>x c'. m c = (Ok x, c') \<Longrightarrow> settles_at (f x) c') \<Longrightarrow> settles_at (mbind m f) c"
  by (cases "m c"; cases "fst (m c)") (simp_all add: settles_at_def mbind_apply)

lemma settles_at_if:
  "(b \<Longrightarrow> settles_at m c) \<Longrightarrow> (\<not> b \<Longrightarrow> settles_at n c) \<Longrightarrow> settles_at (if b then m else n) c"
  by simp

lemma settles_at_option:
  "(v = None \<Longrightarrow> settles_at m c) \<Longrightarrow> (\<And>x. v = Some x \<Longrightarrow> settles_at (f x) c) \<Longrightarrow>
    settles_at (case v of None \<Rightarrow> m | Some x \<Rightarrow> f x) c"
  by (simp split: option.splits)

lemmas settles_rules = settles_at_bind settles_at_if settles_at_option settles_at_mlift

text \<open>The typed reads.\<close>

lemma typed_reads:
  assumes L: "ics24_paths (cdc K)" and typed: "store_typed K c" and root: "root_ok K p u"
  shows "\<exists>v. conn_of K c p u i = Ok v" and "\<exists>v. chan_of K c p u a b = Ok v"
    and "\<exists>v. Keeper_GetProxyClientState K p i u c = (Ok v, c)"
    and "\<exists>v. GetProxyClientConsensusState K p i u h c = (Ok v, c)"
proof -
  note slot = store_typedD [OF typed root]
  show "\<exists>v. conn_of K c p u i = Ok v"
    using slot [of "ConnectionSlot i"]
    by (cases "proxyStore c (slot_path (cdc K) p u (ConnectionSlot i))")
      (auto simp: conn_of_def GetProxyConnection_def read_object_def substore_get_def slot_paths outcome_simps)
  show "\<exists>v. chan_of K c p u a b = Ok v"
    using slot [of "ChannelSlot a b"]
    by (cases "proxyStore c (slot_path (cdc K) p u (ChannelSlot a b))")
      (auto simp: chan_of_def GetProxyChannel_def read_object_def substore_get_def slot_paths outcome_simps
        split: outcome.splits)
  show "\<exists>v. Keeper_GetProxyClientState K p i u c = (Ok v, c)"
    using slot [of "ClientStateSlot i"]
    by (cases "proxyStore c (slot_path (cdc K) p u (ClientStateSlot i))")
      (auto simp: Keeper_GetProxyClientState_def read_object_def substore_get_def store_paths [OF L] outcome_simps)
  show "\<exists>v. GetProxyClientConsensusState K p i u h c = (Ok v, c)"
    using slot [of "ConsensusStateSlot i h"]
    by (cases "proxyStore c (slot_path (cdc K) p u (ConsensusStateSlot i h))")
      (auto simp: GetProxyClientConsensusState_def read_object_def substore_get_def store_paths [OF L] outcome_simps)
qed

text \<open>A light client whose verifications settle.\<close>

definition client_settles :: "('x, 'i) client_ops \<Rightarrow> bool" where
  "client_settles D \<longleftrightarrow> (\<forall>t w h d p pr f s. settles (fst (verify_fact D t w h d p pr f s)))"

lemma settles_check_fact: "client_settles D \<Longrightarrow> settles_at (check_fact K D u p d h pr f) c"
  by (simp add: settles_at_def client_settles_def check_fact_apply split: option.splits)

lemma settles_proxy_fact:
  assumes "client_settles D" and "is_ok (fact_value (cdc K) f)"
  shows "settles_at (proxy_fact K D u p d h pr f) c"
  unfolding proxy_fact_def record_fact_def
  using assms by (intro settles_at_bind settles_check_fact) (auto simp: settles_at_def outcome_simps)

lemma settles_conn: 
  assumes "ics24_paths (cdc K)" and "store_typed K c" and "root_ok K p u"
    and "\<And>v. conn_of K c p u i = Ok v \<Longrightarrow> settles_at (f v) c"
  shows "settles_at (mbind (GetProxyConnection K p u i) f) c"
  using typed_reads(1) [OF assms(1-3), of i] assms(4) by (auto simp: settles_at_def conn_bind)

lemma settles_chan: 
  assumes "ics24_paths (cdc K)" and "store_typed K c" and "root_ok K p u"
    and "\<And>v. chan_of K c p u a b = Ok v \<Longrightarrow> settles_at (f v) c"
  shows "settles_at (mbind (GetProxyChannel K p u a b) f) c"
  using typed_reads(2) [OF assms(1-3), of a b] assms(4) by (auto simp: settles_at_def chan_bind)

lemma settles_hop:
  assumes "ics24_paths (cdc K)" and "store_typed K c" and "root_ok K p u" and "length hops = 1"
    and "\<And>cn. settles_at (f cn) c"
  shows "settles_at (mbind (existing_connection K p u hops) f) c"
proof -
  obtain j where "hops = [j]" using assms(4) by (auto simp: length_Suc_conv)
  obtain v where v: "conn_of K c p u j = Ok v" using typed_reads(1) [OF assms(1-3)] by blast
  have "existing_connection K p u hops c = (from_option ErrConnectionNotFound v, c)"
    using v by (simp add: existing_connection_def first_hop_def \<open>hops = [j]\<close> conn_bind)
  then show ?thesis
    using assms(5) by (cases v) (simp_all add: settles_at_def mbind_apply)
qed

lemma settles_validateChannelOrder: "settles (validateChannelOrder k order cn)"
  by (simp add: validateChannelOrder_def split: list.splits)

lemma handlers_settle:
  assumes L: "ics24_paths (cdc K)" and typed: "store_typed K c" and root: "root_ok K p u" and D: "client_settles D"
  shows "settles_at (ConnOpenConfirm K D i u p j b1 h1) c"
    and "settles_at (ConnOpenFinalize K D i u p b1 h1) c"
    and "settles_at (ChanOpenTry K D u p order hops a b a' ver pr h) c"
    and "settles_at (ChanOpenAck K D u p order hops a b a' b' ver pr h) c"
    and "settles_at (ChanOpenConfirm K D u p a b b' pr h) c"
    and "settles_at (ChanOpenFinalize K D u p a b pr h) c"
    and "settles_at (RecvPacket K D u p pkt pr h) c"
    and "settles_at (AcknowledgePacket K D u p pkt ack pr h) c"
  unfolding handler_defs ConnOpenConfirm_def ConnOpenFinalize_def as_fact [OF L]
  by (intro settles_conn settles_chan settles_hop L typed root settles_at_if settles_at_option settles_at_mlift
      settles_proxy_fact D settles_at_bind settles_validateChannelOrder;
      auto simp: typed_channel [OF typed root] settles_validateChannelOrder)+

end
