(* ===== verification/Store_Growth.thy ===== *)
theory Store_Growth
  imports Msg_Server
begin

text \<open>
  How much a message writes: \<open>touches n m\<close> says that the call \<open>m\<close> sets at most \<open>n\<close> entries of the
  module's store, whatever it returns. The bound of a handler is the sum over its calls.
\<close>

definition touches :: "nat \<Rightarrow> ('i ctx, 'a) prog \<Rightarrow> bool" where
  "touches n m \<longleftrightarrow> (\<forall>c. \<exists>ks. length ks \<le> n \<and>
     (\<forall>key. key \<notin> set ks \<longrightarrow> proxyStore (snd (m c)) key = proxyStore c key))"

lemma touches_mono: "touches n m \<Longrightarrow> n \<le> k \<Longrightarrow> touches k m"
  unfolding touches_def by (meson le_trans)

lemma touches_pure: "(\<And>c. snd (m c) = c) \<Longrightarrow> touches n m"
  by (auto simp: touches_def intro!: exI [of _ "[]"])

lemma touches_mlift: "touches n (mlift r)"
  by (rule touches_pure) simp

lemma touches_bind:
  assumes "touches n m" and "\<And>x. touches k (f x)"
  shows "touches (n + k) (mbind m f)"
  unfolding touches_def
proof
  fix c
  obtain ks where ks: "length ks \<le> n" "\<And>key. key \<notin> set ks \<Longrightarrow> proxyStore (snd (m c)) key = proxyStore c key"
    using assms(1) unfolding touches_def by blast
  show "\<exists>ks. length ks \<le> n + k \<and> (\<forall>key. key \<notin> set ks \<longrightarrow> proxyStore (snd (mbind m f c)) key = proxyStore c key)"
  proof (cases "fst (m c)")
    case (Ok x)
    obtain js where "length js \<le> k" "\<And>key. key \<notin> set js \<Longrightarrow> proxyStore (snd (f x (snd (m c)))) key = proxyStore (snd (m c)) key"
      using assms(2) unfolding touches_def by blast
    with ks Ok show ?thesis by (intro exI [of _ "ks @ js"]) (simp add: mbind_apply)
  qed (use ks in \<open>auto simp: mbind_apply intro!: exI [of _ ks]\<close>)
qed

lemma touches_pure_bind:
  assumes "\<And>c. snd (m c) = c" and "\<And>x. touches n (f x)"
  shows "touches n (mbind m f)"
  using touches_bind [OF touches_pure [OF assms(1)] assms(2), of 0] by simp

lemma touches_lift_bind: "(\<And>x. touches n (f x)) \<Longrightarrow> touches n (mbind (mlift r) f)"
  by (rule touches_pure_bind) simp_all

lemma touches_mget_bind: "(\<And>x. touches n (f x)) \<Longrightarrow> touches n (mbind (mget g) f)"
  by (rule touches_pure_bind) simp_all

lemma touches_if: "touches n m \<Longrightarrow> touches n k \<Longrightarrow> touches n (if b then m else k)"
  by simp

lemma touches_option: "touches n m \<Longrightarrow> (\<And>x. touches n (f x)) \<Longrightarrow> touches n (case v of None \<Rightarrow> m | Some x \<Rightarrow> f x)"
  by (simp split: option.splits)

lemma touches_pair: "(\<And>x y. touches n (f x y)) \<Longrightarrow> touches n (case v of (x, y) \<Rightarrow> f x y)"
  by (simp split: prod.splits)

lemma touches_proxy_fact: "touches 1 (proxy_fact K D u p d h pr f)"
  unfolding touches_def
proof
  fix c
  obtain r c' where pf: "proxy_fact K D u p d h pr f c = (r, c')" by fastforce
  then have "\<exists>ks. length ks \<le> 1 \<and> (\<forall>key. key \<notin> set ks \<longrightarrow> proxyStore c' key = proxyStore c key)"
    by (cases rule: proxy_fact_cases) (auto intro!: exI [of _ "[slot_path (cdc K) p u (fact_slot f)]"])
  with pf show "\<exists>ks. length ks \<le> 1 \<and>
      (\<forall>key. key \<notin> set ks \<longrightarrow> proxyStore (snd (proxy_fact K D u p d h pr f c)) key = proxyStore c key)"
    by simp
qed

lemma touches_two: "touches 1 m \<Longrightarrow> touches 1 k \<Longrightarrow> touches 2 (mthen m k)"
  using touches_bind [of 1 m 1 "\<lambda>_. k"] by (simp add: numeral_2_eq_2)

lemma touches_three: "touches 1 m \<Longrightarrow> touches 2 k \<Longrightarrow> touches 3 (mthen m k)"
  using touches_bind [of 1 m 2 "\<lambda>_. k"] by (simp add: numeral_3_eq_3)

lemmas touches_rules = touches_mlift touches_lift_bind touches_mget_bind touches_if touches_option touches_pair
  touches_proxy_fact touches_pure_bind [OF conn_obj.get_state] touches_pure_bind [OF existing_connection_state]
  touches_pure_bind [OF GetProxyChannel_state]

lemma touches_ConnOpen:
  assumes L: "ics24_paths (cdc K)"
  shows "touches 3 (ConnOpenTry K D i p cn dc dk pc b1 b2 b3 h1 h2 b4 b5 h3 h4)"
    and "touches 3 (ConnOpenAck K D i p cn dc dk pc b1 b2 b3 h1 h2 b4 b5 h3 h4)"
    and "touches 1 (ConnOpenConfirm K D i u p j b1 h1)"
    and "touches 1 (ConnOpenFinalize K D i u p b1 h1)"
  unfolding ConnOpenTry_def ConnOpenAck_def ConnOpenConfirm_def ConnOpenFinalize_def as_fact [OF L]
  by (intro touches_rules touches_three touches_two)+

lemma touches_Chan_Packet:
  assumes L: "ics24_paths (cdc K)"
  shows "touches 1 (ChanOpenTry K D u p order hops a b a' ver pr h)"
    and "touches 1 (ChanOpenAck K D u p order hops a b a' b' ver pr h)"
    and "touches 1 (ChanOpenConfirm K D u p a b b' pr h)"
    and "touches 1 (ChanOpenFinalize K D u p a b pr h)"
    and "touches 1 (RecvPacket K D u p pkt pr h)"
    and "touches 1 (AcknowledgePacket K D u p pkt ack pr h)"
    and "touches 2 (Keeper_ClientState K D u p i dc dk pr1 pr2 h ch)"
  unfolding handler_defs as_fact [OF L] by (intro touches_rules touches_two)+

text \<open>How many entries a message may set.\<close>

fun entries_written :: "msg \<Rightarrow> nat" where
  "entries_written (ClientState_msg m) = 2"
| "entries_written (ConnectionOpenTry_msg m) = 3"
| "entries_written (ConnectionOpenAck_msg m) = 3"
| "entries_written m = 1"

lemma entries_written_le: "entries_written m \<le> 3"
  by (cases m) simp_all

lemma touches_handle:
  assumes "ics24_paths (cdc K)"
  shows "touches (entries_written m) (handle K D m)"
  by (cases m) (simp_all add: server_defs touches_ConnOpen [OF assms] touches_Chan_Packet [OF assms]
      touches_lift_bind del: One_nat_def)

lemma touches_dom:
  assumes "touches n m" and "finite (dom (proxyStore c))"
  shows "finite (dom (proxyStore (snd (m c))))"
    and "card (dom (proxyStore (snd (m c)))) \<le> card (dom (proxyStore c)) + n"
proof -
  obtain ks where ks: "length ks \<le> n" "\<And>key. key \<notin> set ks \<Longrightarrow> proxyStore (snd (m c)) key = proxyStore c key"
    using assms(1) unfolding touches_def by blast
  then have sub: "dom (proxyStore (snd (m c))) \<subseteq> dom (proxyStore c) \<union> set ks" by (auto simp: dom_def)
  with assms(2) show "finite (dom (proxyStore (snd (m c))))" by (meson finite_Un finite_set finite_subset)
  have "card (dom (proxyStore (snd (m c)))) \<le> card (dom (proxyStore c) \<union> set ks)"
    using sub assms(2) by (intro card_mono) auto
  also have "\<dots> \<le> card (dom (proxyStore c)) + card (set ks)" by (rule card_Un_le)
  also have "\<dots> \<le> card (dom (proxyStore c)) + n" using card_length [of ks] ks(1) by simp
  finally show "card (dom (proxyStore (snd (m c)))) \<le> card (dom (proxyStore c)) + n" .
qed

text \<open>Handling messages one after the other, each keeping what it wrote.\<close>

definition handle_all :: "('x, 'i) Keeper \<Rightarrow> ('x, 'i) client_ops \<Rightarrow> msg list \<Rightarrow> 'i ctx \<Rightarrow> 'i ctx" where
  "handle_all K D ms c = fold (\<lambda>m c. snd (handle K D m c)) ms c"

lemma handle_all_dom:
  assumes L: "ics24_paths (cdc K)" and "finite (dom (proxyStore c))"
  shows "finite (dom (proxyStore (handle_all K D ms c))) \<and>
    card (dom (proxyStore (handle_all K D ms c))) \<le> card (dom (proxyStore c)) + sum_list (map entries_written ms)"
  using assms(2)
proof (induction ms arbitrary: c)
  case Nil
  then show ?case by (simp add: handle_all_def)
next
  case (Cons m ms)
  note step = touches_dom [OF touches_handle [OF L, of m D] Cons.prems]
  show ?case using Cons.IH [OF step(1)] step(2) by (simp add: handle_all_def)
qed

end
