(* ===== verification/Store_Properties.thy ===== *)
theory Store_Properties
  imports Keeper_Properties Store_Typing Store_Growth
begin

text \<open>
  The properties of the module's store as a whole: its type, which makes every read and most
  messages safe; its growth; and what becomes of it at a genesis export.
\<close>

section \<open>Type safety of runs\<close>

text \<open>The messages that only move recorded objects on, with the upstream client they name.\<close>

fun moves_recorded :: "msg \<Rightarrow> string option" where
  "moves_recorded (ConnectionOpenConfirm_msg m) = Some (coc_UpstreamClientId m)"
| "moves_recorded (ConnectionOpenFinalize_msg m) = Some (cof_UpstreamClientId m)"
| "moves_recorded (ChannelOpenTry_msg m) = Some (hot_UpstreamClientId m)"
| "moves_recorded (ChannelOpenAck_msg m) = Some (hoa_UpstreamClientId m)"
| "moves_recorded (ChannelOpenConfirm_msg m) = Some (hoc_UpstreamClientId m)"
| "moves_recorded (ChannelOpenFinalize_msg m) = Some (hof_UpstreamClientId m)"
| "moves_recorded (RecvPacket_msg m) = Some (prp_UpstreamClientId m)"
| "moves_recorded (AcknowledgePacket_msg m) = Some (pap_UpstreamClientId m)"
| "moves_recorded m = None"

lemma handle_settles:
  assumes "ics24_paths (cdc K)" and "store_typed K c" and "client_settles D"
    and "moves_recorded m = Some u" and "no_slash u" and "plain_prefix K m"
  shows "settles (fst (handle K D m c))"
proof -
  have "root_ok K (MerklePfx (upstream_prefix m)) u"
    using assms(5,6) by (simp add: root_ok_def plain_prefix_def)
  from handlers_settle [OF assms(1,2) this assms(3)] assms(4) show ?thesis
    by (cases m) (auto simp: server_defs settles_at_def)
qed

text \<open>C8. Type preservation and progress. From a well-typed store (an empty one is), any run
  whose messages name slash-free upstream prefixes, failed messages included, leaves a
  well-typed store: every entry decodes as the object its path stands for, and recorded
  channels have one hop. Hence every read of a client state, consensus state, connection or
  channel below a slash-free client and prefix returns, none of them panics; and every
  message that only moves recorded objects on returns a success or an error, and never
  panics, when the light clients' verifications do.\<close>

theorem typed_run_safe:
  assumes "ics24_paths (cdc K)" and "codec_ok (cdc K)" and "client_ids_ok (clientKeeper K)"
    and "client_settles D" and "store_typed K c" and "(module_step K D (plain_prefix K))\<^sup>*\<^sup>* c c'"
  shows "store_typed K c' \<and>
    (\<forall>p u i a b h. root_ok K p u \<longrightarrow>
      (\<exists>v. Keeper_GetProxyClientState K p i u c' = (Ok v, c')) \<and>
      (\<exists>v. GetProxyClientConsensusState K p i u h c' = (Ok v, c')) \<and>
      (\<exists>v. GetProxyConnection K p u i c' = (Ok v, c')) \<and>
      (\<exists>v. GetProxyChannel K p u a b c' = (Ok v, c'))) \<and>
    (\<forall>m u. moves_recorded m = Some u \<longrightarrow> no_slash u \<longrightarrow> plain_prefix K m \<longrightarrow>
      settles (fst (handle K D m c')))"
proof -
  have typed: "store_typed K c'" by (rule typing_run [OF assms(1,2,3,6,5)])
  note reads = typed_reads [OF assms(1) typed]
  show ?thesis
    by (intro conjI allI impI typed reads(3,4) handle_settles [OF assms(1) typed assms(4)])
      (use reads(1,2) in \<open>auto simp: conn_of_run chan_of_run\<close>)
qed

lemma demo_settles: "client_settles demo_ops"
  by (simp add: client_settles_def demo_verify_fact accepts_def check_def)

lemma demo_channel_decodes:
  "decodes demo_lib (ChannelSlot a b) (enc_Channel (demo_chan t))"
  "decodes demo_lib (ConnectionSlot i) (enc_ConnectionEnd (demo_conn s))"
  by (simp_all add: demo_simps) (simp add: demo_chan_def)

lemma demo_store_typed: "store_typed demo_keeper (demo_store s t)"
proof -
  have root: "root_ok demo_keeper demo_pfx ''up''" by (simp add: root_ok_def demo_simps)
  note put = typed_put [where K = demo_keeper, unfolded demo_cdc, OF demo_paths _ root]
  have eq: "proxyStore (demo_store s t) = proxyStore (ctx_put (ctx_put (demo_ctx [])
      (slot_path demo_lib demo_pfx ''up'' (ChannelSlot ''pa'' ''ch'')) (enc_Channel (demo_chan t)))
      (slot_path demo_lib demo_pfx ''up'' (ConnectionSlot ''c0'')) (enc_ConnectionEnd (demo_conn s)))"
    by (simp add: demo_store_def demo_ctx_def ctx_put_def)
  have "store_typed demo_keeper (demo_ctx [])" by (rule store_typed_empty) (simp add: demo_ctx_def)
  then show ?thesis unfolding store_typed_local [OF eq] by (intro put demo_channel_decodes)
qed

lemma typed_run_safe_witness:
  "\<exists>v. GetProxyChannel demo_keeper demo_pfx ''up'' ''pa'' ''ch''
     (ctx_put (demo_store CONN_OPEN CHAN_OPEN) demo_commitment_path (CommitPacket demo_lib demo_packet)) =
   (Ok v, ctx_put (demo_store CONN_OPEN CHAN_OPEN) demo_commitment_path (CommitPacket demo_lib demo_packet))"
proof -
  have "root_ok demo_keeper demo_pfx ''up''" by (simp add: root_ok_def demo_simps)
  with typed_run_safe [of demo_keeper, unfolded demo_cdc, OF demo_paths demo_codec demo_client_ids demo_settles
      demo_store_typed demo_recv_steps]
  show ?thesis by blast
qed

section \<open>Growth of the store\<close>

text \<open>C24. The store grows by at most three entries a message. Handling a list of messages on a
  finite store, whatever each of them returns, leaves a finite store with at most as many more
  entries as the messages may record: three for Try and Ack of the connection handshake, two
  for a client state, one for any other.\<close>

theorem store_growth:
  assumes "ics24_paths (cdc K)" and "finite (dom (proxyStore c))"
  shows "finite (dom (proxyStore (handle_all K D ms c))) \<and>
    card (dom (proxyStore (handle_all K D ms c))) \<le> card (dom (proxyStore c)) + sum_list (map entries_written ms) \<and>
    sum_list (map entries_written ms) \<le> 3 * length ms"
proof -
  have "sum_list (map entries_written ms) \<le> 3 * length ms"
    by (induction ms) (use entries_written_le in \<open>auto simp: add_mono intro: order_trans [OF add_mono]\<close>)
  with handle_all_dom [OF assms, of D ms] show ?thesis by blast
qed

lemma store_growth_witness:
  "card (dom (proxyStore (handle_all demo_keeper demo_ops [RecvPacket_msg demo_recv, RecvPacket_msg demo_recv]
     (demo_store CONN_OPEN CHAN_OPEN)))) \<le> card (dom (proxyStore (demo_store CONN_OPEN CHAN_OPEN))) + 2"
  using store_growth [of demo_keeper "demo_store CONN_OPEN CHAN_OPEN" demo_ops "[RecvPacket_msg demo_recv, RecvPacket_msg demo_recv]"]
  by (simp add: demo_paths demo_store_def demo_ctx_def)

end
