(* ===== verification/Module_Glue.thy ===== *)
theory Module_Glue
  imports Msg_Server
begin

text \<open>
  The module as the application sees it: the names of \<open>types/keys.go\<close>, \<open>types/genesis.go\<close> and
  \<open>params.go\<close>, the commands of \<open>client/cli/cli.go\<close>, the registration of concrete types
  (\<open>types/codec.go\<close> of the module and of the multi-stage client), the gRPC service of \<open>tx.pb.go\<close>
  and the methods of \<open>module.go\<close>. The interface registry, the JSON codec and the server that
  routes messages belong to the SDK and are parameters.
\<close>

section \<open>Names (\<open>keys.go\<close>)\<close>

definition ModuleName :: string where
  "ModuleName = ''proxy''"

definition ModuleVersion :: string where
  "ModuleVersion = ''proxy-1''"

definition PortID :: string where
  "PortID = ''proxy''"

definition StoreKey :: string where
  "StoreKey = ModuleName"

definition RouterKey :: string where
  "RouterKey = ModuleName"

definition QuerierRoute :: string where
  "QuerierRoute = ModuleName"

section \<open>Genesis state and parameters\<close>

datatype Params = Params

definition DefaultParams :: Params where
  "DefaultParams = Params"

definition DefaultGenesisState :: GenesisState where
  "DefaultGenesisState = GenesisState"

definition GenesisState_Validate :: "GenesisState \<Rightarrow> unit outcome" where
  "GenesisState_Validate gs = Ok ()"

section \<open>Commands (\<open>cli.go\<close>)\<close>

text \<open>The fields of \<open>cobra.Command\<close> that are set; the others are zero.\<close>

record 'run Command =
  Use :: string
  Short :: string
  DisableFlagParsing :: bool
  SuggestionsMinimumDistance :: int
  RunE :: "'run option"

definition cli_GetQueryCmd :: "'run Command" where
  "cli_GetQueryCmd =
     \<lparr>Use = ''ibc-proxy'', Short = ''IBC proxy query subcommands'', DisableFlagParsing = True,
      SuggestionsMinimumDistance = 2, RunE = None\<rparr>"

definition cli_NewTxCmd :: "'run \<Rightarrow> 'run Command" where
  "cli_NewTxCmd ValidateCmd =
     \<lparr>Use = ''ibc-proxy'', Short = ''IBC proxy transaction subcommands'', DisableFlagParsing = True,
      SuggestionsMinimumDistance = 2, RunE = Some ValidateCmd\<rparr>"

section \<open>Concrete types behind interfaces (\<open>codec.go\<close>)\<close>

text \<open>
  The interfaces and message types that are registered. A type is named by its protobuf name,
  from which the type URL of an \<open>Any\<close> is made.
\<close>

datatype go_interface = sdk_Msg | exported_ClientState | exported_ConsensusState | exported_Proof

text \<open>The registry: registering implementations, and whether a type resolves to an interface.\<close>

record 'r registry_ops =
  RegisterImplementations :: "go_interface \<Rightarrow> string list \<Rightarrow> 'r \<Rightarrow> 'r"
  resolves :: "'r \<Rightarrow> go_interface \<Rightarrow> string \<Rightarrow> bool"

definition multiv_RegisterInterfaces :: "'r registry_ops \<Rightarrow> 'r \<Rightarrow> 'r" where
  "multiv_RegisterInterfaces R registry =
     (let registry = RegisterImplementations R exported_ClientState [''ibc.lightclients.multiv.v1.ClientState''] registry
      in RegisterImplementations R exported_Proof [''ibc.lightclients.multiv.v1.MultiProof''] registry)"

definition RegisterInterfaces :: "'r registry_ops \<Rightarrow> 'r \<Rightarrow> 'r" where
  "RegisterInterfaces R registry =
     (let registry = RegisterImplementations R sdk_Msg
            [''ibc.proxy.v1.MsgProxyClientState'',
             ''ibc.proxy.v1.MsgProxyConnectionOpenTry'',
             ''ibc.proxy.v1.MsgProxyConnectionOpenAck'',
             ''ibc.proxy.v1.MsgProxyConnectionOpenConfirm'',
             ''ibc.proxy.v1.MsgProxyConnectionOpenFinalize'',
             ''ibc.proxy.v1.MsgProxyChannelOpenTry'',
             ''ibc.proxy.v1.MsgProxyChannelOpenAck'',
             ''ibc.proxy.v1.MsgProxyChannelOpenConfirm'',
             ''ibc.proxy.v1.MsgProxyChannelOpenFinalize'',
             ''ibc.proxy.v1.MsgProxyRecvPacket'',
             ''ibc.proxy.v1.MsgProxyAcknowledgePacket''] registry;
          registry = RegisterImplementations R exported_ClientState [''ibc.lightclients.proxy.v1.ClientState''] registry;
          registry = RegisterImplementations R exported_ConsensusState [''ibc.lightclients.proxy.v1.ConsensusState''] registry
      in multiv_RegisterInterfaces R registry)"

text \<open>Documented behaviour of the registry: registering adds exactly the given implementations.\<close>

definition registry_ok :: "'r registry_ops \<Rightarrow> bool" where
  "registry_ok R \<longleftrightarrow> (\<forall>r i ts j t.
     resolves R (RegisterImplementations R i ts r) j t \<longleftrightarrow> resolves R r j t \<or> (j = i \<and> t \<in> set ts))"

lemma registry_okD:
  "registry_ok R \<Longrightarrow> resolves R (RegisterImplementations R i ts r) j t \<longleftrightarrow> resolves R r j t \<or> (j = i \<and> t \<in> set ts)"
  by (simp add: registry_ok_def)

section \<open>The message service (\<open>tx.pb.go\<close>)\<close>

text \<open>The interface \<open>MsgServer\<close>: one method per message. The responses have no fields.\<close>

record 's MsgServer =
  srv_ClientState :: "MsgProxyClientState \<Rightarrow> ('s, unit) prog"
  srv_ConnectionOpenTry :: "MsgProxyConnectionOpenTry \<Rightarrow> ('s, unit) prog"
  srv_ConnectionOpenAck :: "MsgProxyConnectionOpenAck \<Rightarrow> ('s, unit) prog"
  srv_ConnectionOpenConfirm :: "MsgProxyConnectionOpenConfirm \<Rightarrow> ('s, unit) prog"
  srv_ConnectionOpenFinalize :: "MsgProxyConnectionOpenFinalize \<Rightarrow> ('s, unit) prog"
  srv_ChannelOpenTry :: "MsgProxyChannelOpenTry \<Rightarrow> ('s, unit) prog"
  srv_ChannelOpenAck :: "MsgProxyChannelOpenAck \<Rightarrow> ('s, unit) prog"
  srv_ChannelOpenConfirm :: "MsgProxyChannelOpenConfirm \<Rightarrow> ('s, unit) prog"
  srv_ChannelOpenFinalize :: "MsgProxyChannelOpenFinalize \<Rightarrow> ('s, unit) prog"
  srv_RecvPacket :: "MsgProxyRecvPacket \<Rightarrow> ('s, unit) prog"
  srv_AcknowledgePacket :: "MsgProxyAcknowledgePacket \<Rightarrow> ('s, unit) prog"

text \<open>
  A handler decodes the request into a new message of its type and calls its method of the
  server, through the interceptor when there is one. The decoder the caller gives fills in the
  message of the named type; the interceptor gets the message, the full method name and
  the rest of the call, which asserts the type of the request.
\<close>

type_synonym 's interceptor = "msg \<Rightarrow> string \<Rightarrow> (msg \<Rightarrow> ('s, unit) prog) \<Rightarrow> ('s, unit) prog"
type_synonym 's method_handler = "'s MsgServer \<Rightarrow> (string \<Rightarrow> msg outcome) \<Rightarrow> 's interceptor option \<Rightarrow> ('s, unit) prog"

definition unary_call :: "string \<Rightarrow> string \<Rightarrow> (msg \<Rightarrow> ('s, unit) prog) \<Rightarrow>
    (string \<Rightarrow> msg outcome) \<Rightarrow> 's interceptor option \<Rightarrow> ('s, unit) prog" where
  "unary_call request FullMethod call dec interceptor =
     mbind (mlift (dec request)) (\<lambda>in_msg.
     case interceptor of None \<Rightarrow> call in_msg | Some f \<Rightarrow> f in_msg FullMethod call)"

definition Msg_ProxyClientState_Handler :: "'s method_handler" where
  "Msg_ProxyClientState_Handler srv = unary_call ''MsgProxyClientState'' ''/ibc.proxy.v1.Msg/ProxyClientState''
     (\<lambda>req. case req of ClientState_msg m \<Rightarrow> srv_ClientState srv m | _ \<Rightarrow> mlift Panic)"

definition Msg_ProxyConnectionOpenTry_Handler :: "'s method_handler" where
  "Msg_ProxyConnectionOpenTry_Handler srv = unary_call ''MsgProxyConnectionOpenTry'' ''/ibc.proxy.v1.Msg/ProxyConnectionOpenTry''
     (\<lambda>req. case req of ConnectionOpenTry_msg m \<Rightarrow> srv_ConnectionOpenTry srv m | _ \<Rightarrow> mlift Panic)"

definition Msg_ProxyConnectionOpenAck_Handler :: "'s method_handler" where
  "Msg_ProxyConnectionOpenAck_Handler srv = unary_call ''MsgProxyConnectionOpenAck'' ''/ibc.proxy.v1.Msg/ProxyConnectionOpenAck''
     (\<lambda>req. case req of ConnectionOpenAck_msg m \<Rightarrow> srv_ConnectionOpenAck srv m | _ \<Rightarrow> mlift Panic)"

definition Msg_ProxyConnectionOpenConfirm_Handler :: "'s method_handler" where
  "Msg_ProxyConnectionOpenConfirm_Handler srv = unary_call ''MsgProxyConnectionOpenConfirm'' ''/ibc.proxy.v1.Msg/ProxyConnectionOpenConfirm''
     (\<lambda>req. case req of ConnectionOpenConfirm_msg m \<Rightarrow> srv_ConnectionOpenConfirm srv m | _ \<Rightarrow> mlift Panic)"

definition Msg_ProxyConnectionOpenFinalize_Handler :: "'s method_handler" where
  "Msg_ProxyConnectionOpenFinalize_Handler srv = unary_call ''MsgProxyConnectionOpenFinalize'' ''/ibc.proxy.v1.Msg/ProxyConnectionOpenFinalize''
     (\<lambda>req. case req of ConnectionOpenFinalize_msg m \<Rightarrow> srv_ConnectionOpenFinalize srv m | _ \<Rightarrow> mlift Panic)"

definition Msg_ProxyChannelOpenTry_Handler :: "'s method_handler" where
  "Msg_ProxyChannelOpenTry_Handler srv = unary_call ''MsgProxyChannelOpenTry'' ''/ibc.proxy.v1.Msg/ProxyChannelOpenTry''
     (\<lambda>req. case req of ChannelOpenTry_msg m \<Rightarrow> srv_ChannelOpenTry srv m | _ \<Rightarrow> mlift Panic)"

definition Msg_ProxyChannelOpenAck_Handler :: "'s method_handler" where
  "Msg_ProxyChannelOpenAck_Handler srv = unary_call ''MsgProxyChannelOpenAck'' ''/ibc.proxy.v1.Msg/ProxyChannelOpenAck''
     (\<lambda>req. case req of ChannelOpenAck_msg m \<Rightarrow> srv_ChannelOpenAck srv m | _ \<Rightarrow> mlift Panic)"

definition Msg_ProxyChannelOpenConfirm_Handler :: "'s method_handler" where
  "Msg_ProxyChannelOpenConfirm_Handler srv = unary_call ''MsgProxyChannelOpenConfirm'' ''/ibc.proxy.v1.Msg/ProxyChannelOpenConfirm''
     (\<lambda>req. case req of ChannelOpenConfirm_msg m \<Rightarrow> srv_ChannelOpenConfirm srv m | _ \<Rightarrow> mlift Panic)"

definition Msg_ProxyChannelOpenFinalize_Handler :: "'s method_handler" where
  "Msg_ProxyChannelOpenFinalize_Handler srv = unary_call ''MsgProxyChannelOpenFinalize'' ''/ibc.proxy.v1.Msg/ProxyChannelOpenFinalize''
     (\<lambda>req. case req of ChannelOpenFinalize_msg m \<Rightarrow> srv_ChannelOpenFinalize srv m | _ \<Rightarrow> mlift Panic)"

definition Msg_ProxyRecvPacket_Handler :: "'s method_handler" where
  "Msg_ProxyRecvPacket_Handler srv = unary_call ''MsgProxyRecvPacket'' ''/ibc.proxy.v1.Msg/ProxyRecvPacket''
     (\<lambda>req. case req of RecvPacket_msg m \<Rightarrow> srv_RecvPacket srv m | _ \<Rightarrow> mlift Panic)"

definition Msg_ProxyAcknowledgePacket_Handler :: "'s method_handler" where
  "Msg_ProxyAcknowledgePacket_Handler srv = unary_call ''MsgProxyAcknowledgePacket'' ''/ibc.proxy.v1.Msg/ProxyAcknowledgePacket''
     (\<lambda>req. case req of AcknowledgePacket_msg m \<Rightarrow> srv_AcknowledgePacket srv m | _ \<Rightarrow> mlift Panic)"

record 's ServiceDesc =
  ServiceName :: string
  Methods :: "(string \<times> 's method_handler) list"
  Metadata :: string

definition Msg_serviceDesc :: "'s ServiceDesc" where
  "Msg_serviceDesc =
     \<lparr>ServiceName = ''ibc.proxy.v1.Msg'',
      Methods =
        [(''ProxyClientState'', Msg_ProxyClientState_Handler),
         (''ProxyConnectionOpenTry'', Msg_ProxyConnectionOpenTry_Handler),
         (''ProxyConnectionOpenAck'', Msg_ProxyConnectionOpenAck_Handler),
         (''ProxyConnectionOpenConfirm'', Msg_ProxyConnectionOpenConfirm_Handler),
         (''ProxyConnectionOpenFinalize'', Msg_ProxyConnectionOpenFinalize_Handler),
         (''ProxyChannelOpenTry'', Msg_ProxyChannelOpenTry_Handler),
         (''ProxyChannelOpenAck'', Msg_ProxyChannelOpenAck_Handler),
         (''ProxyChannelOpenConfirm'', Msg_ProxyChannelOpenConfirm_Handler),
         (''ProxyChannelOpenFinalize'', Msg_ProxyChannelOpenFinalize_Handler),
         (''ProxyRecvPacket'', Msg_ProxyRecvPacket_Handler),
         (''ProxyAcknowledgePacket'', Msg_ProxyAcknowledgePacket_Handler)],
      Metadata = ''ibc/modules/proxy/tx.proto''\<rparr>"

definition RegisterMsgServer ::
  "('s ServiceDesc \<Rightarrow> 's MsgServer \<Rightarrow> 'g \<Rightarrow> 'g) \<Rightarrow> 's MsgServer \<Rightarrow> 'g \<Rightarrow> 'g" where
  "RegisterMsgServer RegisterService srv s = RegisterService Msg_serviceDesc srv s"

text \<open>The keeper implements the interface with the methods of \<open>msg_server.go\<close>.\<close>

definition Keeper_MsgServer :: "('x, 'i) Keeper \<Rightarrow> ('x, 'i) client_ops \<Rightarrow> 'i ctx MsgServer" where
  "Keeper_MsgServer k D =
     \<lparr>srv_ClientState = Server_ProxyClientState k D,
      srv_ConnectionOpenTry = ProxyConnectionOpenTry k D,
      srv_ConnectionOpenAck = ProxyConnectionOpenAck k D,
      srv_ConnectionOpenConfirm = ProxyConnectionOpenConfirm k D,
      srv_ConnectionOpenFinalize = ProxyConnectionOpenFinalize k D,
      srv_ChannelOpenTry = ProxyChannelOpenTry k D,
      srv_ChannelOpenAck = ProxyChannelOpenAck k D,
      srv_ChannelOpenConfirm = ProxyChannelOpenConfirm k D,
      srv_ChannelOpenFinalize = ProxyChannelOpenFinalize k D,
      srv_RecvPacket = ProxyRecvPacket k D,
      srv_AcknowledgePacket = ProxyAcknowledgePacket k D\<rparr>"

section \<open>The module (\<open>module.go\<close>)\<close>

text \<open>The codec for JSON, as the module uses it.\<close>

record json_codec =
  MarshalJSON :: "GenesisState \<Rightarrow> bytes outcome"
  UnmarshalJSON :: "bytes \<Rightarrow> GenesisState outcome"

definition MustMarshalJSON :: "json_codec \<Rightarrow> GenesisState \<Rightarrow> bytes outcome" where
  "MustMarshalJSON J gs = must (MarshalJSON J gs)"

definition MustUnmarshalJSON :: "json_codec \<Rightarrow> bytes \<Rightarrow> GenesisState outcome" where
  "MustUnmarshalJSON J bz = must (UnmarshalJSON J bz)"

subsection \<open>Basic methods\<close>

definition Basic_Name :: string where
  "Basic_Name = ModuleName"

definition Basic_RegisterLegacyAminoCodec :: "'a \<Rightarrow> 'a" where
  "Basic_RegisterLegacyAminoCodec amino = amino"

definition Basic_RegisterInterfaces :: "'r registry_ops \<Rightarrow> 'r \<Rightarrow> 'r" where
  "Basic_RegisterInterfaces R registry = RegisterInterfaces R registry"

definition Basic_DefaultGenesis :: "json_codec \<Rightarrow> bytes outcome" where
  "Basic_DefaultGenesis J = MustMarshalJSON J DefaultGenesisState"

definition Basic_ValidateGenesis :: "json_codec \<Rightarrow> bytes \<Rightarrow> unit outcome" where
  "Basic_ValidateGenesis J bz =
     (case UnmarshalJSON J bz of
        Ok gs \<Rightarrow> GenesisState_Validate gs
      | Err e \<Rightarrow> Err (Errorf ''failed to unmarshal %s genesis state: %w'')
      | Panic \<Rightarrow> Panic
      | Diverge \<Rightarrow> Diverge)"

definition Basic_RegisterRESTRoutes :: "'m \<Rightarrow> 'm" where
  "Basic_RegisterRESTRoutes rtr = rtr"

definition Basic_RegisterGRPCGatewayRoutes :: "'m \<Rightarrow> 'm" where
  "Basic_RegisterGRPCGatewayRoutes mux = mux"

definition Basic_GetTxCmd :: "'run \<Rightarrow> 'run Command" where
  "Basic_GetTxCmd ValidateCmd = cli_NewTxCmd ValidateCmd"

definition Basic_GetQueryCmd :: "'run Command" where
  "Basic_GetQueryCmd = cli_GetQueryCmd"

subsection \<open>Methods of the module with its keeper\<close>

record ('x, 'i) AppModule =
  am_keeper :: "('x, 'i) Keeper"

definition NewAppModule :: "('x, 'i) Keeper \<Rightarrow> ('x, 'i) AppModule" where
  "NewAppModule k = \<lparr>am_keeper = k\<rparr>"

definition AppModule_InitGenesis :: "('x, 'i) AppModule \<Rightarrow> json_codec \<Rightarrow> bytes \<Rightarrow> ('i ctx, 'v list) prog" where
  "AppModule_InitGenesis am J data =
     mbind (mlift (MustUnmarshalJSON J data)) (\<lambda>genesisState.
     mthen (InitGenesis (am_keeper am) genesisState) (mret []))"

definition AppModule_ExportGenesis :: "('x, 'i) AppModule \<Rightarrow> json_codec \<Rightarrow> ('i ctx, bytes) prog" where
  "AppModule_ExportGenesis am J =
     mbind (ExportGenesis (am_keeper am)) (\<lambda>gs. mlift (MustMarshalJSON J gs))"

definition AppModule_RegisterInvariants :: "'n \<Rightarrow> 'n" where
  "AppModule_RegisterInvariants registry = registry"

text \<open>The zero route has an empty path and no handler.\<close>

definition AppModule_Route :: "('x, 'i) AppModule \<Rightarrow> string \<times> 'h option" where
  "AppModule_Route am = ([], None)"

definition AppModule_QuerierRoute :: "('x, 'i) AppModule \<Rightarrow> string" where
  "AppModule_QuerierRoute am = QuerierRoute"

definition AppModule_LegacyQuerierHandler :: "('x, 'i) AppModule \<Rightarrow> 'q option" where
  "AppModule_LegacyQuerierHandler am = None"

definition AppModule_RegisterServices ::
  "('i ctx ServiceDesc \<Rightarrow> 'i ctx MsgServer \<Rightarrow> 'g \<Rightarrow> 'g) \<Rightarrow> ('x, 'i) AppModule \<Rightarrow> ('x, 'i) client_ops \<Rightarrow> 'g \<Rightarrow> 'g" where
  "AppModule_RegisterServices RegisterService am D s = RegisterMsgServer RegisterService (Keeper_MsgServer (am_keeper am) D) s"

definition AppModule_ConsensusVersion :: "('x, 'i) AppModule \<Rightarrow> u64" where
  "AppModule_ConsensusVersion am = 1"

definition AppModule_BeginBlock :: "('x, 'i) AppModule \<Rightarrow> ('i ctx, unit) prog" where
  "AppModule_BeginBlock am = mret ()"

definition AppModule_EndBlock :: "('x, 'i) AppModule \<Rightarrow> ('i ctx, 'v list) prog" where
  "AppModule_EndBlock am = mret []"

lemmas module_defs = NewAppModule_def AppModule_InitGenesis_def AppModule_ExportGenesis_def InitGenesis_def
  ExportGenesis_def MustMarshalJSON_def MustUnmarshalJSON_def Basic_ValidateGenesis_def GenesisState_Validate_def

section \<open>What is registered and routed\<close>

text \<open>The method of the message service that takes a message.\<close>

fun method_of :: "msg \<Rightarrow> string" where
  "method_of (ClientState_msg m) = ''ProxyClientState''"
| "method_of (ConnectionOpenTry_msg m) = ''ProxyConnectionOpenTry''"
| "method_of (ConnectionOpenAck_msg m) = ''ProxyConnectionOpenAck''"
| "method_of (ConnectionOpenConfirm_msg m) = ''ProxyConnectionOpenConfirm''"
| "method_of (ConnectionOpenFinalize_msg m) = ''ProxyConnectionOpenFinalize''"
| "method_of (ChannelOpenTry_msg m) = ''ProxyChannelOpenTry''"
| "method_of (ChannelOpenAck_msg m) = ''ProxyChannelOpenAck''"
| "method_of (ChannelOpenConfirm_msg m) = ''ProxyChannelOpenConfirm''"
| "method_of (ChannelOpenFinalize_msg m) = ''ProxyChannelOpenFinalize''"
| "method_of (RecvPacket_msg m) = ''ProxyRecvPacket''"
| "method_of (AcknowledgePacket_msg m) = ''ProxyAcknowledgePacket''"

lemmas Msg_Handler_defs = Msg_ProxyClientState_Handler_def
  Msg_ProxyConnectionOpenTry_Handler_def
  Msg_ProxyConnectionOpenAck_Handler_def
  Msg_ProxyConnectionOpenConfirm_Handler_def
  Msg_ProxyConnectionOpenFinalize_Handler_def
  Msg_ProxyChannelOpenTry_Handler_def
  Msg_ProxyChannelOpenAck_Handler_def
  Msg_ProxyChannelOpenConfirm_Handler_def
  Msg_ProxyChannelOpenFinalize_Handler_def
  Msg_ProxyRecvPacket_Handler_def
  Msg_ProxyAcknowledgePacket_Handler_def

lemma method_names: "distinct (map fst (Methods Msg_serviceDesc))"
  by (simp add: Msg_serviceDesc_def)

lemma unary_call_runs:
  "dec request = Ok m \<Longrightarrow> ic = None \<or> ic = Some (\<lambda>req name call. call req) \<Longrightarrow>
    unary_call request name call dec ic = call m"
  by (auto simp: unary_call_def)

text \<open>The handler of a message's method runs the keeper's handler of that message.\<close>

lemma method_handles:
  "\<exists>h. (method_of m, h) \<in> set (Methods Msg_serviceDesc) \<and>
     (\<forall>dec ic. dec (''Msg'' @ method_of m) = Ok m \<longrightarrow> ic = None \<or> ic = Some (\<lambda>req name call. call req) \<longrightarrow>
        h (Keeper_MsgServer K D) dec ic = handle K D m)"
  by (cases m) (simp_all add: Msg_serviceDesc_def Msg_Handler_defs unary_call_runs Keeper_MsgServer_def)

lemma registered_types:
  assumes "registry_ok R"
  shows "resolves R (Basic_RegisterInterfaces R r) sdk_Msg t \<longleftrightarrow>
    resolves R r sdk_Msg t \<or> t \<in> (\<lambda>n. ''ibc.proxy.v1.Msg'' @ n) ` fst ` set (Methods Msg_serviceDesc)"
  by (simp add: Basic_RegisterInterfaces_def RegisterInterfaces_def multiv_RegisterInterfaces_def
      registry_okD [OF assms] Msg_serviceDesc_def)

lemma registered_clients:
  assumes "registry_ok R"
  shows "resolves R (Basic_RegisterInterfaces R r) exported_ClientState t \<longleftrightarrow>
      resolves R r exported_ClientState t \<or>
      t = ''ibc.lightclients.proxy.v1.ClientState'' \<or> t = ''ibc.lightclients.multiv.v1.ClientState''"
    and "resolves R (Basic_RegisterInterfaces R r) exported_ConsensusState t \<longleftrightarrow>
      resolves R r exported_ConsensusState t \<or> t = ''ibc.lightclients.proxy.v1.ConsensusState''"
    and "resolves R (Basic_RegisterInterfaces R r) exported_Proof t \<longleftrightarrow>
      resolves R r exported_Proof t \<or> t = ''ibc.lightclients.multiv.v1.MultiProof''"
  by (auto simp: Basic_RegisterInterfaces_def RegisterInterfaces_def multiv_RegisterInterfaces_def registry_okD [OF assms])

end
