(* ===== verification/Module_Properties.thy ===== *)
theory Module_Properties
  imports Module_Glue Keeper_Properties
begin

text \<open>
  The properties of the module as the application wires it up: what it registers is what it
  handles, and what its genesis keeps.
\<close>

section \<open>Registration and routing\<close>

text \<open>
  Documented behaviour of the server that routes messages: after a service with distinct
  method names is registered, the full name of each method leads to its handler on the
  registered implementation.
\<close>

definition server_ok ::
  "('s ServiceDesc \<Rightarrow> 's MsgServer \<Rightarrow> 'g \<Rightarrow> 'g) \<Rightarrow>
   ('g \<Rightarrow> string \<Rightarrow> ((string \<Rightarrow> msg outcome) \<Rightarrow> 's interceptor option \<Rightarrow> ('s, unit) prog) option) \<Rightarrow> bool" where
  "server_ok RegisterService route \<longleftrightarrow> (\<forall>desc srv s name h.
     distinct (map fst (Methods desc)) \<longrightarrow> (name, h) \<in> set (Methods desc) \<longrightarrow>
     route (RegisterService desc srv s) (''/'' @ ServiceName desc @ ''/'' @ name) = Some (h srv))"

text \<open>C25. What the module registers is what it handles. The message types it registers with the
  interface registry are exactly the request types of its service's methods. Once its services
  are registered, the method of each message leads to a handler that decodes the request and
  runs the keeper's handler of that message, with or without an interceptor that passes the
  call on. Both light clients, the proxy's consensus state and the multi-proof resolve too.\<close>

theorem registered_messages_are_routed:
  fixes K :: "('x, 'i) Keeper"
  assumes "registry_ok R" and "server_ok RegisterService route"
  shows "(\<forall>t. resolves R (Basic_RegisterInterfaces R r) sdk_Msg t \<longleftrightarrow>
      resolves R r sdk_Msg t \<or> t \<in> (\<lambda>n. ''ibc.proxy.v1.Msg'' @ n) ` fst ` set (Methods (Msg_serviceDesc :: 'i ctx ServiceDesc))) \<and>
    (\<forall>m. method_of m \<in> fst ` set (Methods (Msg_serviceDesc :: 'i ctx ServiceDesc)) \<and>
      (\<exists>f. route (AppModule_RegisterServices RegisterService (NewAppModule K) D s) (''/ibc.proxy.v1.Msg/'' @ method_of m) = Some f \<and>
        (\<forall>dec ic. dec (''Msg'' @ method_of m) = Ok m \<longrightarrow> ic = None \<or> ic = Some (\<lambda>req name call. call req) \<longrightarrow>
          f dec ic = handle K D m))) \<and>
    resolves R (Basic_RegisterInterfaces R r) exported_ClientState ''ibc.lightclients.proxy.v1.ClientState'' \<and>
    resolves R (Basic_RegisterInterfaces R r) exported_ClientState ''ibc.lightclients.multiv.v1.ClientState'' \<and>
    resolves R (Basic_RegisterInterfaces R r) exported_ConsensusState ''ibc.lightclients.proxy.v1.ConsensusState'' \<and>
    resolves R (Basic_RegisterInterfaces R r) exported_Proof ''ibc.lightclients.multiv.v1.MultiProof''"
proof -
  have routed: "method_of m \<in> fst ` set (Methods (Msg_serviceDesc :: 'i ctx ServiceDesc)) \<and>
      (\<exists>f. route (AppModule_RegisterServices RegisterService (NewAppModule K) D s) (''/ibc.proxy.v1.Msg/'' @ method_of m) = Some f \<and>
        (\<forall>dec ic. dec (''Msg'' @ method_of m) = Ok m \<longrightarrow> ic = None \<or> ic = Some (\<lambda>req name call. call req) \<longrightarrow>
          f dec ic = handle K D m))" for m
  proof -
    obtain h where h: "(method_of m, h) \<in> set (Methods Msg_serviceDesc)"
      "\<And>dec ic. dec (''Msg'' @ method_of m) = Ok m \<Longrightarrow> ic = None \<or> ic = Some (\<lambda>req name call. call req) \<Longrightarrow>
        h (Keeper_MsgServer K D) dec ic = handle K D m"
      using method_handles [of m K D] by blast
    have "route (RegisterService Msg_serviceDesc (Keeper_MsgServer K D) s) (''/ibc.proxy.v1.Msg/'' @ method_of m) =
        Some (h (Keeper_MsgServer K D))"
      using assms(2) [unfolded server_ok_def, rule_format, OF method_names h(1)] by (simp add: Msg_serviceDesc_def)
    with h show ?thesis
      by (force simp: AppModule_RegisterServices_def RegisterMsgServer_def NewAppModule_def)
  qed
  show ?thesis
    by (intro conjI allI routed [THEN conjunct1] routed [THEN conjunct2] registered_types [OF assms(1)])
      (simp_all add: registered_clients [OF assms(1)])
qed

definition demo_registry :: "(go_interface \<times> string) list registry_ops" where
  "demo_registry = \<lparr>RegisterImplementations = (\<lambda>i ts r. map (Pair i) ts @ r), resolves = (\<lambda>r i t. (i, t) \<in> set r)\<rparr>"

definition demo_server ::
  "'s ServiceDesc \<Rightarrow> 's MsgServer \<Rightarrow> (string \<times> ((string \<Rightarrow> msg outcome) \<Rightarrow> 's interceptor option \<Rightarrow> ('s, unit) prog)) list \<Rightarrow>
   (string \<times> ((string \<Rightarrow> msg outcome) \<Rightarrow> 's interceptor option \<Rightarrow> ('s, unit) prog)) list" where
  "demo_server desc srv s = map (\<lambda>(n, h). (''/'' @ ServiceName desc @ ''/'' @ n, h srv)) (Methods desc) @ s"

lemma demo_server_ok: "server_ok demo_server map_of"
proof -
  have routes: "map_of (map (\<lambda>(n, h). (x @ n, h srv)) ms @ s) (x @ name) = Some (h srv)"
    if "distinct (map fst ms)" "(name, h) \<in> set ms"
    for ms s and x name :: string and h :: "'a method_handler" and srv
    using that by (induction ms) (auto simp: split_beta rev_image_eqI)
  show ?thesis
    unfolding server_ok_def demo_server_def
  proof (intro allI impI)
    fix desc :: "'a ServiceDesc" and srv s name h
    assume "distinct (map fst (Methods desc))" and "(name, h) \<in> set (Methods desc)"
    from routes [OF this, of "''/'' @ ServiceName desc @ ''/''" srv s]
    show "map_of (map (\<lambda>(n, h). (''/'' @ ServiceName desc @ ''/'' @ n, h srv)) (Methods desc) @ s)
        (''/'' @ ServiceName desc @ ''/'' @ name) = Some (h srv)" by simp
  qed
qed

lemma registered_messages_are_routed_witness:
  "\<exists>f. map_of (AppModule_RegisterServices demo_server (NewAppModule demo_keeper) demo_ops []) ''/ibc.proxy.v1.Msg/ProxyRecvPacket'' = Some f \<and>
     f (\<lambda>_. Ok (RecvPacket_msg demo_recv)) None = handle demo_keeper demo_ops (RecvPacket_msg demo_recv)"
proof -
  have reg: "registry_ok demo_registry" by (auto simp: registry_ok_def demo_registry_def)
  show ?thesis
    using registered_messages_are_routed [OF reg demo_server_ok, of "[]" demo_keeper demo_ops "[]",
        THEN conjunct2, THEN conjunct1, rule_format, of "RecvPacket_msg demo_recv"] by auto
qed

section \<open>Genesis\<close>

text \<open>C26. Genesis keeps nothing of the store. Whatever the module has recorded, its export is the
  default genesis; that validates, and importing it on a chain whose module store is empty
  leaves the store empty, so no recorded connection or channel can be read there. Bytes that
  do not decode are refused by the validation and stop the import with a panic.\<close>

theorem genesis_forgets_store:
  assumes "MarshalJSON J GenesisState = Ok bz" and "UnmarshalJSON J bz = Ok GenesisState"
    and "proxyStore c0 = Map.empty" and "UnmarshalJSON J bad = Err e"
  shows "AppModule_ExportGenesis (NewAppModule K) J c = (Ok bz, c) \<and> Basic_DefaultGenesis J = Ok bz \<and>
    Basic_ValidateGenesis J bz = Ok () \<and> AppModule_InitGenesis (NewAppModule K) J bz c0 = (Ok [], c0) \<and>
    GetProxyConnection K p u i c0 = (Ok None, c0) \<and> GetProxyChannel K p u a b c0 = (Ok None, c0) \<and>
    Basic_ValidateGenesis J bad = Err (Errorf ''failed to unmarshal %s genesis state: %w'') \<and>
    AppModule_InitGenesis (NewAppModule K) J bad c0 = (Panic, c0)"
  using assms by (simp add: module_defs Basic_DefaultGenesis_def DefaultGenesisState_def GetProxyConnection_def
      GetProxyChannel_def read_object_def substore_get_def)

definition demo_json :: json_codec where
  "demo_json = \<lparr>MarshalJSON = (\<lambda>_. Ok [1]), UnmarshalJSON = (\<lambda>b. if b = [1] then Ok GenesisState else Err (ErrLib ''json''))\<rparr>"

lemma genesis_forgets_store_witness:
  "conn_of demo_keeper (demo_store CONN_OPEN CHAN_OPEN) demo_pfx ''up'' ''c0'' = Ok (Some (demo_conn CONN_OPEN)) \<and>
   (\<exists>bz. AppModule_ExportGenesis (NewAppModule demo_keeper) demo_json (demo_store CONN_OPEN CHAN_OPEN) =
       (Ok bz, demo_store CONN_OPEN CHAN_OPEN) \<and>
     AppModule_InitGenesis (NewAppModule demo_keeper) demo_json bz (demo_ctx []) = (Ok [], demo_ctx []) \<and>
     GetProxyConnection demo_keeper demo_pfx ''up'' ''c0'' (demo_ctx []) = (Ok None, demo_ctx []))"
proof -
  have "MarshalJSON demo_json GenesisState = Ok [1]" "UnmarshalJSON demo_json [1] = Ok GenesisState"
    "proxyStore (demo_ctx []) = Map.empty" "UnmarshalJSON demo_json [] = Err (ErrLib ''json'')"
    by (simp_all add: demo_json_def demo_ctx_def)
  from genesis_forgets_store [OF this] show ?thesis
    by (intro conjI demo_conn_of exI [of _ "[1]"]) blast+
qed

end
