(* ===== verification/Client_Properties.thy ===== *)
theory Client_Properties
  imports Scenario
begin

text \<open>
  The properties of the store paths, of the two light clients and of their dispatch, each
  with an application to the concrete codec and light client of \<open>Fixtures\<close>.
\<close>

section \<open>The multi-stage client\<close>

text \<open>C27. The multi-stage client accepts a client state exactly when the proof bytes decode to
  a multi-proof with as many branches as its depth, the wrapped client accepts the first
  proxy's client and consensus state, the branches form a chain of proxies each of which
  verified the next one's client and consensus state against the consensus state known for
  it, and the last proxy's client accepts the leaf. The same chain of trust decides about a
  consensus state; only the leaf differs.\<close>

theorem multiv_chain_of_trust:
  "(Multiv_VerifyClientState L D cs height pfx cid proofBytes clientState s = (Ok (), s') \<longleftrightarrow>
     (\<exists>mp underlying c k c' k' store.
        UnmarshalProof L proofBytes = Ok (Some (MultiProofVal mp)) \<and>
        length (Branches mp) = unat (Depth cs) \<and>
        UnpackClientState L (UnderlyingClientState cs) = Ok underlying \<and>
        head_ok L D underlying height pfx cid (Head mp) c k s s' \<and>
        trust_chain L D (c, k) (Branches mp) (c', k') \<and>
        makeMemStore L (ProxyConsensus k') (LfProofHeight (Leaf mp)) = Ok store \<and>
        fst (Proxy_IBCVerifyClientState L D c' (LfProofHeight (Leaf mp)) (prefix_ptr (IbcPrefix c'))
          (UpstreamClientId c') (LfProof (Leaf mp)) clientState store) = Ok ())) \<and>
   (Multiv_VerifyClientConsensusState L D cs height cid consHeight pfx proofBytes consState s = (Ok (), s') \<longleftrightarrow>
     (\<exists>mp underlying c k c' k' store.
        UnmarshalProof L proofBytes = Ok (Some (MultiProofVal mp)) \<and>
        length (Branches mp) = unat (Depth cs) \<and>
        UnpackClientState L (UnderlyingClientState cs) = Ok underlying \<and>
        head_ok L D underlying height pfx cid (Head mp) c k s s' \<and>
        trust_chain L D (c, k) (Branches mp) (c', k') \<and>
        makeMemStore L (ProxyConsensus k') (LfProofHeight (Leaf mp)) = Ok store \<and>
        fst (Proxy_IBCVerifyClientConsensusState L D c' (LfProofHeight (Leaf mp)) (UpstreamClientId c')
          consHeight (prefix_ptr (IbcPrefix c')) (LfProof (Leaf mp)) consState store) = Ok ()))"
  by (rule conjI [OF Multiv_VerifyClientState_iff Multiv_VerifyClientConsensusState_iff])

text \<open>C28. A multi-proof with the wrong number of branches is rejected before any client is
  asked: the call fails and the store is untouched.\<close>

theorem multiv_wrong_depth_rejected:
  assumes "UnmarshalProof L proofBytes = Ok (Some (MultiProofVal mp))"
    and "length (Branches mp) \<noteq> unat (Depth cs)"
  shows "\<exists>e. Multiv_VerifyClientState L D cs height pfx cid proofBytes clientState s = (Err e, s) \<and>
    Multiv_VerifyClientConsensusState L D cs height cid consHeight pfx proofBytes consState s = (Err e, s)"
  using assms by (simp add: Multiv_VerifyClientState_def Multiv_VerifyClientConsensusState_def
      unmarshalProof_def verifyProxyState_def validateProof_def mbind_apply)

definition demo_leaf_proof :: MultiProof where
  "demo_leaf_proof = \<lparr>Head = \<lparr>ClientProof = [1], ClientState = None, ConsensusProof = [1], ConsensusState = None,
     ProofHeight = demo_height, ConsensusHeight = demo_height\<rparr>, Branches = [],
     Leaf = \<lparr>LfProof = [1], LfProofHeight = demo_height\<rparr>\<rparr>"

lemma multiv_wrong_depth_rejected_witness:
  "\<exists>e. Multiv_VerifyClientState demo_lib demo_ops \<lparr>UnderlyingClientState = None, Depth = 1\<rparr> demo_height demo_pfx
     ''cl'' (enc_MultiProof demo_leaf_proof) (ExternalClient 3) (MapStore Map.empty) =
     (Err e, MapStore Map.empty)"
  using multiv_wrong_depth_rejected [OF demo_decode(9) [of demo_leaf_proof],
      of "\<lparr>UnderlyingClientState = None, Depth = 1\<rparr>" demo_ops demo_height demo_pfx "''cl''" "ExternalClient 3"
        "MapStore Map.empty"]
  by (auto simp: demo_leaf_proof_def)

section \<open>Dispatch\<close>


lemma demo_self_size: "any_size (ProxyClientStateAny demo_self) = 4"
  by (simp add: demo_self_def any_size_def any_of_def enc_nat_def)


text \<open>The keeper's client keeper validates a multi-stage client by the client it wraps, at
  any other client as before; a multi-stage client whose wrapped client cannot be unpacked
  panics.\<close>

lemma ValidateSelfClient_override:
  "ValidateSelfClient (NewClientKeeper L k) w (MultivClient m) =
     (case UnpackClientState L (UnderlyingClientState m) of
        Ok inner \<Rightarrow> ValidateSelfClient k w inner
      | Diverge \<Rightarrow> Diverge
      | _ \<Rightarrow> Panic) \<and>
   ValidateSelfClient (NewClientKeeper L k) w (ExternalClient x) = ValidateSelfClient k w (ExternalClient x) \<and>
   ValidateSelfClient (NewClientKeeper L k) w (ProxyClient p) = ValidateSelfClient k w (ProxyClient p)"
  by (simp add: NewClientKeeper_def ClientKeeper_ValidateSelfClient_def GetUnderlyingClientState_def
      split: outcome.splits)

section \<open>Paths\<close>

text \<open>C30. Without slashes in the identifiers, the path of a commitment determines the upstream
  client, the upstream prefix and the object it is about.\<close>

theorem commitment_path_injective:
  assumes "ics24_paths L" and "no_slash u" and "no_slash v"
    and "no_slash (PrefixBytes L p)" and "no_slash (PrefixBytes L q)" and "slot_ok x" and "slot_ok y"
  shows "slot_path L p u x = slot_path L q v y \<longleftrightarrow>
    u = v \<and> PrefixBytes L p = PrefixBytes L q \<and> x = y"
proof
  assume "slot_path L p u x = slot_path L q v y"
  then show "u = v \<and> PrefixBytes L p = PrefixBytes L q \<and> x = y"
    using slot_path_root [OF assms(1-5)] slot_key_inject [OF assms(1,6,7)] by blast
qed (simp add: slot_path_def ProxyKey_def)

lemma commitment_path_injective_witness:
  "slot_path demo_lib demo_pfx ''up'' (ConnectionSlot ''a'') \<noteq> slot_path demo_lib demo_pfx ''up'' (ChannelSlot ''a'' ''b'')"
  using commitment_path_injective [OF demo_paths, of "''up''" "''up''" demo_pfx demo_pfx "ConnectionSlot ''a''"
      "ChannelSlot ''a'' ''b''"]
  by (simp add: demo_simps)

text \<open>With slashes it does not: below the prefix \<open>ibc/connections\<close> a client state has the
  path of a connection below \<open>ibc\<close>, and a slash can move between the name of the upstream
  client and its prefix.\<close>

lemma commitment_path_collision:
  assumes "ics24_paths L" and "helpers_ok L"
  shows "slot_path L (MerklePfx ''ibc/connections'') u (ClientStateSlot i) =
      slot_path L (MerklePfx ''ibc'') u (ConnectionSlot (''clients/'' @ i @ ''/clientState'')) \<and>
    slot_path L (MerklePfx (a @ ''/'' @ b)) u x = slot_path L (MerklePfx b) (u @ ''/'' @ a) x"
  using assms(2) by (simp add: slot_path_def ProxyKey_def helpers_ok_def ics24_pathsD [OF assms(1)])

text \<open>What is read at a path, as the keeper decodes it.\<close>

definition read_at :: "(bytes \<Rightarrow> 'a outcome) \<Rightarrow> bytes option \<Rightarrow> 'a option outcome" where
  "read_at unmarshal v = (case v of
     None \<Rightarrow> Ok None
   | Some b \<Rightarrow> if b = [] then Ok None else obind (must (unmarshal b)) (\<lambda>x. Ok (Some x)))"

lemma read_object_at: "fst (read_object s k unmarshal c) = read_at unmarshal (proxyStore c (s @ k))"
  by (auto simp: read_object_def read_at_def substore_get_def mbind_apply split: option.splits outcome.splits)

lemma keys_as_slots:
  assumes "ics24_paths L"
  shows "slot_path L p u (ClientStateSlot i) = ProxyClientStateKey L p u i"
    and "slot_path L p u (ConsensusStateSlot i h) = ProxyConsensusStateKey L p u i h"
    and "slot_path L p u (ConnectionSlot j) = ProxyConnectionKey L p u j"
    and "slot_path L p u (ChannelSlot po cc) = ProxyChannelKey L p u po cc"
    and "slot_path L p u (PacketCommitmentSlot po cc n) = ProxyPacketCommitmentKey L p u po cc n"
    and "slot_path L p u (PacketAckSlot po cc n) = ProxyAcknowledgementKey L p u po cc n"
    and "slot_path L p u (PacketReceiptSlot po cc n) = ProxyKey L p u (PacketReceiptKey L po cc n)"
    and "slot_path L p u (NextSequenceRecvSlot po cc) = ProxyKey L p u (NextSequenceRecvKey L po cc)"
  by (simp_all add: slot_path_def ProxyClientStateKey_def ProxyConsensusStateKey_def ProxyConnectionKey_def
      ProxyChannelKey_def ProxyPacketCommitmentKey_def ProxyAcknowledgementKey_def)

text \<open>C31. The keeper's stores and \<open>keys.go\<close> agree. Each setter writes the encoding of its object at
  the key that the key function of \<open>keys.go\<close> returns for it (\<open>ProxyKey\<close> of the ICS-24 key for
  receipts and sequence numbers, which have no function of their own), and changes nothing
  else; each getter decodes what is at that key. And a proxy client looks for the commitments about
  its upstream chain there: the extended prefix it hands to the wrapped client, followed by the
  ICS-24 key of an object, is the object's path in the proxy's store.\<close>

theorem stores_match_keys:
  assumes "ics24_paths (cdc K)" and "p \<noteq> NilMerklePfx"
  shows "(MarshalClientState (cdc K) cs = Ok b \<longrightarrow>
      SetProxyClientState K p i u cs c = (Ok (), ctx_put c (ProxyClientStateKey (cdc K) p u i) b)) \<and>
    (MarshalConsensusState (cdc K) ks = Ok b \<longrightarrow>
      SetProxyClientConsensusState K p i u h ks c = (Ok (), ctx_put c (ProxyConsensusStateKey (cdc K) p u i h) b)) \<and>
    SetProxyConnection K p u j cn c =
      (Ok (), ctx_put c (ProxyConnectionKey (cdc K) p u j) (MarshalConnectionEnd (cdc K) cn)) \<and>
    SetProxyChannel K p u po cc chn c =
      (Ok (), ctx_put c (ProxyChannelKey (cdc K) p u po cc) (MarshalChannel (cdc K) chn)) \<and>
    SetProxyPacketCommitment K p u po cc n b c = (Ok (), ctx_put c (ProxyPacketCommitmentKey (cdc K) p u po cc n) b) \<and>
    SetProxyPacketAcknowledgement K p u po cc n ack c =
      (Ok (), ctx_put c (ProxyAcknowledgementKey (cdc K) p u po cc n) (CommitAcknowledgement (cdc K) ack)) \<and>
    SetProxyPacketReceiptAbsence K p u po cc n c =
      (Ok (), ctx_put c (ProxyKey (cdc K) p u (PacketReceiptKey (cdc K) po cc n)) [1]) \<and>
    SetProxyNextSequenceRecv K p u po cc n c =
      (Ok (), ctx_put c (ProxyKey (cdc K) p u (NextSequenceRecvKey (cdc K) po cc)) (Uint64ToBigEndian (cdc K) n)) \<and>
    fst (Keeper_GetProxyClientState K p i u c) =
      read_at (UnmarshalClientState (cdc K)) (proxyStore c (ProxyClientStateKey (cdc K) p u i)) \<and>
    fst (GetProxyClientConsensusState K p i u h c) =
      read_at (UnmarshalConsensusState (cdc K)) (proxyStore c (ProxyConsensusStateKey (cdc K) p u i h)) \<and>
    fst (GetProxyConnection K p u j c) =
      read_at (UnmarshalConnectionEnd (cdc K)) (proxyStore c (ProxyConnectionKey (cdc K) p u j)) \<and>
    fst (GetProxyChannel K p u po cc c) =
      read_at (UnmarshalChannel (cdc K)) (proxyStore c (ProxyChannelKey (cdc K) p u po cc)) \<and>
    (\<exists>q. newPrefix (cdc K) (Some pp) p u = Ok (MultiPrefix (MerklePfx pp) q) \<and>
      (\<forall>x. q @ ''/'' @ slot_key (cdc K) x = slot_path (cdc K) p u x))"
proof -
  have "\<exists>q. newPrefix (cdc K) (Some pp) p u = Ok (MultiPrefix (MerklePfx pp) q) \<and>
      (\<forall>x. q @ ''/'' @ slot_key (cdc K) x = slot_path (cdc K) p u x)"
    using assms(2) by (simp add: newPrefix_def Prefix_Bytes_def prefix_ptr_def slot_path_def ProxyKey_def)
  then show ?thesis
    unfolding Set_as_fact [OF assms(1)] record_fact_def Keeper_GetProxyClientState_def GetProxyClientConsensusState_def
      GetProxyConnection_def GetProxyChannel_def read_object_at
    by (simp add: store_paths(1,2) [OF assms(1)] slot_paths keys_as_slots [OF assms(1)])
qed

lemma stores_match_keys_witness:
  "proxyStore (snd (SetProxyConnection demo_keeper demo_pfx ''up'' ''c0'' (demo_conn CONN_OPEN) (demo_ctx [])))
     ''up/ibc/connections/c0'' = Some (enc_ConnectionEnd (demo_conn CONN_OPEN)) \<and>
   (\<exists>q. newPrefix demo_lib (Some ''proxy'') demo_pfx ''up'' = Ok (MultiPrefix (MerklePfx ''proxy'') q) \<and>
     q @ ''/'' @ slot_key demo_lib (ConnectionSlot ''c0'') = slot_path demo_lib demo_pfx ''up'' (ConnectionSlot ''c0''))"
proof -
  have p: "demo_pfx \<noteq> NilMerklePfx" and L: "ics24_paths (cdc demo_keeper)" by (simp_all add: demo_paths)
  note agree = stores_match_keys [OF L p, where u = "''up''" and c = "demo_ctx []" and j = "''c0''" and cn = "demo_conn CONN_OPEN"
      and pp = "''proxy''", unfolded demo_cdc]
  have "SetProxyConnection demo_keeper demo_pfx ''up'' ''c0'' (demo_conn CONN_OPEN) (demo_ctx []) =
      (Ok (), ctx_put (demo_ctx []) (ProxyConnectionKey demo_lib demo_pfx ''up'' ''c0'') (enc_ConnectionEnd (demo_conn CONN_OPEN)))"
    using agree unfolding demo_lib_simps by blast
  moreover have "ProxyConnectionKey demo_lib demo_pfx ''up'' ''c0'' = ''up/ibc/connections/c0''"
    by (simp add: ProxyConnectionKey_def ProxyKey_def ics24_pathsD [OF demo_paths] demo_simps)
  moreover have "\<exists>q. newPrefix demo_lib (Some ''proxy'') demo_pfx ''up'' = Ok (MultiPrefix (MerklePfx ''proxy'') q) \<and>
      (\<forall>x. q @ ''/'' @ slot_key demo_lib x = slot_path demo_lib demo_pfx ''up'' x)"
    using agree by blast
  ultimately show ?thesis by (auto simp: ctx_put_def simp del: slot_key.simps)
qed

section \<open>The proxy client\<close>

text \<open>C32. The extractor store matches exactly the keys \<open>consensusStates/<digits>-<digits>\<close>. Through it
  the wrapped client reads its own consensus state where the store holds the wrapping one,
  and every key that does not match as it is, present or absent; among these are the client
  state and the keys below a consensus state such as processed times. Writes go through to
  the store unchanged.\<close>

theorem extractor_correct:
  assumes "ics24_paths L" and "codec_ok L"
    and "store_Get L s (ConsensusStateKey L h) = Ok (Some b)"
    and "MarshalConsensusState L (ProxyConsensus p) = Ok b"
    and "UnpackConsensusState L (ProxyConsensusStateAny p) = Ok inner"
    and "MarshalConsensusState L inner = Ok b'"
  shows "(consensusStateKeyRegexp L key \<longleftrightarrow>
      (\<exists>a b. a \<noteq> [] \<and> b \<noteq> [] \<and> list_all is_digit a \<and> list_all is_digit b \<and>
        key = KeyConsensusStatePrefix L @ ''/'' @ a @ ''-'' @ b)) \<and>
    store_Get L (NewProxyExtractorStore s) (ConsensusStateKey L h) = Ok (Some b') \<and>
    (\<forall>k. \<not> consensusStateKeyRegexp L k \<longrightarrow> store_Get L (NewProxyExtractorStore s) k = store_Get L s k) \<and>
    store_Get L (NewProxyExtractorStore s) (ClientStateKey L) = store_Get L s (ClientStateKey L) \<and>
    store_Get L (NewProxyExtractorStore s) (ConsensusStateKey L h @ ''/'' @ k) =
      store_Get L s (ConsensusStateKey L h @ ''/'' @ k) \<and>
    (\<forall>k v. embedded (store_Set (NewProxyExtractorStore s) k v) = store_Set s k v)"
  unfolding NewProxyExtractorStore_def
  using regexp_iff [of L key] extractor_reads_inner [OF assms] extractor_transparent [of L _ s]
    extractor_transparent [OF regexp_ClientStateKey [OF assms(1)]] extractor_transparent [OF regexp_subkey [OF assms(1)]]
  by (intro conjI allI impI) simp_all

definition demo_wrapping :: ProxyConsensusState where
  "demo_wrapping = \<lparr>ProxyConsensusStateAny = Some (any_of (enc_consensus (ExternalConsensus 4)))\<rparr>"

definition demo_client_store :: kvstore where
  "demo_client_store = MapStore [ConsensusStateKey demo_lib demo_height \<mapsto> enc_consensus (ProxyConsensus demo_wrapping)]"

lemma demo_client_store_get:
  "store_Get demo_lib demo_client_store (ConsensusStateKey demo_lib demo_height) =
     Ok (Some (enc_consensus (ProxyConsensus demo_wrapping)))"
  by (simp add: demo_client_store_def)

lemma demo_wrapping_inner:
  "UnpackConsensusState demo_lib (ProxyConsensusStateAny demo_wrapping) = Ok (ExternalConsensus 4)"
  by (simp add: demo_wrapping_def demo_simps del: enc_consensus.simps)

lemma extractor_correct_witness:
  "store_Get demo_lib (NewProxyExtractorStore demo_client_store) (ConsensusStateKey demo_lib demo_height) =
     Ok (Some (enc_consensus (ExternalConsensus 4)))"
  using extractor_correct [OF demo_paths demo_codec demo_client_store_get demo_lib_simps(5) demo_wrapping_inner
      demo_lib_simps(5)]
  by blast

lemma wrap_err_Ok: "wrap_err e r = Ok x \<longleftrightarrow> r = Ok x"
  by (cases r) (simp_all add: wrap_err_def)

text \<open>C33. \<open>Initialize\<close> of the proxy client accepts exactly the client states that carry a
  packed client state that unpacks and both prefixes, with a proxy consensus state whose
  inner state unpacks; it does not touch the store.\<close>

theorem Proxy_Initialize_correct:
  "Proxy_Initialize L cs w consState s = (Ok (), s') \<longleftrightarrow>
     s' = s \<and> ProxyClientStateAny cs \<noteq> None \<and> IbcPrefix cs \<noteq> None \<and> ProxyPrefix cs \<noteq> None \<and>
     (\<exists>inner p k. UnpackClientState L (ProxyClientStateAny cs) = Ok inner \<and>
        consState = Some (ProxyConsensus p) \<and> UnpackConsensusState L (ProxyConsensusStateAny p) = Ok k)"
  unfolding Proxy_Initialize_def
  by (cases consState; cases "the consState") (auto simp: outcome_simps wrap_err_Ok split: if_splits)

text \<open>C34. A header update runs the wrapped client on the extractor store and wraps both states
  it returns, keeping the upstream client identifier and the prefixes; a misbehaviour check
  runs the wrapped client on the store itself, where its consensus states are still wrapped.\<close>

theorem proxy_updates_correct:
  "(Proxy_CheckHeaderAndUpdateState L D cs w header s = (Ok (cs', k'), s') \<longleftrightarrow>
     (\<exists>inner c k s1 a b. UnpackClientState L (ProxyClientStateAny cs) = Ok inner \<and>
        op_CheckHeaderAndUpdateState D inner w header (NewProxyExtractorStore s) = (Ok (c, k), s1) \<and>
        PackClientState L c = Ok a \<and> PackConsensusState L k = Ok b \<and>
        cs' = cs\<lparr>ProxyClientStateAny := Some a\<rparr> \<and> k' = \<lparr>ProxyConsensusStateAny = Some b\<rparr> \<and>
        s' = embedded s1)) \<and>
   (Proxy_CheckMisbehaviourAndUpdateState L D cs w header s = (Ok cs', s') \<longleftrightarrow>
     (\<exists>inner c a. UnpackClientState L (ProxyClientStateAny cs) = Ok inner \<and>
        op_CheckMisbehaviourAndUpdateState D inner w header s = (Ok c, s') \<and>
        PackClientState L c = Ok a \<and> cs' = cs\<lparr>ProxyClientStateAny := Some a\<rparr>))"
  unfolding Proxy_CheckHeaderAndUpdateState_def Proxy_CheckMisbehaviourAndUpdateState_def
  by (auto simp: outcome_simps GetProxyClientState_def on_extractor_Ok; blast)

text \<open>C35. When the wrapped client refuses a substitute but returns a client state along with the
  error, both clients of the repository report success with that state.\<close>

theorem substitute_error_lost:
  assumes "UnpackClientState L (ProxyClientStateAny p) = Ok inner"
    and "UnpackClientState L (UnderlyingClientState m) = Ok inner"
    and "op_CheckSubstituteAndUpdateState D inner w sub ss = (Ok (Some c, Some e), ss')"
    and "PackClientState L (Some c) = Ok a"
  shows "Proxy_CheckSubstituteAndUpdateState L D p w sub ss = (Ok (p\<lparr>ProxyClientStateAny := Some a\<rparr>), ss') \<and>
    Multiv_CheckSubstituteAndUpdateState L D m w sub ss = (Ok (m\<lparr>UnderlyingClientState := Some a\<rparr>), ss')"
  using assms by (simp add: Proxy_CheckSubstituteAndUpdateState_def Multiv_CheckSubstituteAndUpdateState_def
      GetProxyClientState_def GetUnderlyingClientState_def mbind_def)

definition demo_multiv :: MultivClientState where
  "demo_multiv = \<lparr>UnderlyingClientState = Some (any_of (enc_client (ExternalClient 2))), Depth = 0\<rparr>"

lemma demo_unpack_inner:
  "UnpackClientState demo_lib (ProxyClientStateAny demo_self) = Ok (ExternalClient 2)"
  "UnpackClientState demo_lib (UnderlyingClientState demo_multiv) = Ok (ExternalClient 2)"
  by (simp_all add: demo_self_def demo_multiv_def demo_simps del: enc_client.simps)

lemma demo_substitute:
  "op_CheckSubstituteAndUpdateState demo_ops (ExternalClient 2) w sub ss = (Ok (Some sub, Some (ErrLib ''substitute'')), ss)"
  by (simp add: demo_ops_def)

lemma substitute_error_lost_witness:
  "\<exists>p'. Proxy_CheckSubstituteAndUpdateState demo_lib demo_ops demo_self demo_world (ExternalClient 9)
     (MapStore Map.empty, MapStore Map.empty) = (Ok p', (MapStore Map.empty, MapStore Map.empty))"
  using substitute_error_lost [OF demo_unpack_inner demo_substitute demo_lib_simps(2),
      of demo_world "ExternalClient 9" "(MapStore Map.empty, MapStore Map.empty)"]
  by blast

text \<open>After an upgrade of a proxy client or of a multi-stage client, the states handed back
  to the caller are those of the wrapped client, without the wrapper.\<close>

lemma upgrade_loses_wrapper:
  assumes "UnpackClientState L (ProxyClientStateAny p) = Ok inner"
    and "UnpackClientState L (UnderlyingClientState m) = Ok inner"
  shows "op_VerifyUpgradeAndUpdateState (method_table L E D) (ProxyClient p) w nc nk pc pk s =
      op_VerifyUpgradeAndUpdateState D inner w nc nk pc pk s \<and>
    op_VerifyUpgradeAndUpdateState (method_table L E D) (MultivClient m) w nc nk pc pk s =
      op_VerifyUpgradeAndUpdateState D inner w nc nk pc pk s"
  using assms by (simp add: method_table_def Proxy_VerifyUpgradeAndUpdateState_def
      Multiv_VerifyUpgradeAndUpdateState_def GetProxyClientState_def GetUnderlyingClientState_def)

end
