(* ===== verification/Wire.thy ===== *)
theory Wire
  imports Ibc_Types
begin

text \<open>
  The protobuf runtime that the generated files \<open>*.pb.go\<close> of the repository share (each has
  its own copy of these functions): varints, writing a message backwards into a buffer of
  its size, reading fields, skipping unknown fields.

  A buffer is a byte list with the index of the last byte written so far. A reader works on
  the bytes from the index to the end; \<open>l\<close> is the length of the whole slice, so the index is
  \<open>l\<close> minus what is left. Indices are Go's 64-bit \<open>int\<close>; the sums that can leave that range
  are tested against \<open>2 ^ 63\<close> where the code tests for a negative result.
\<close>

unbundle bit_operations_syntax

section \<open>Varints\<close>

fun bit_len :: "nat \<Rightarrow> nat" where
  "bit_len n = (if n = 0 then 0 else Suc (bit_len (n div 2)))"

declare bit_len.simps [simp del]

definition sov :: "u64 \<Rightarrow> nat" where
  "sov x = (bit_len (unat (x OR 1)) + 6) div 7"

lemma unat_drop_7: "unat (drop_bit 7 v :: u64) = unat v div 128"
  by (simp only: unat_drop_bit_eq) (simp add: drop_bit_eq_div)

function varint_bytes :: "u64 \<Rightarrow> bytes" where
  "varint_bytes v = (if v \<ge> 128 then ucast (v AND 0x7F OR 0x80) # varint_bytes (drop_bit 7 v) else [ucast v])"
  by auto
termination
proof (relation "measure unat")
  fix v :: u64
  assume "128 \<le> v"
  then show "(drop_bit 7 v, v) \<in> measure unat"
    by (simp add: unat_drop_7 word_le_nat_alt del: drop_bit_eq_div)
qed simp

declare varint_bytes.simps [simp del]

text \<open>The writing loop of \<open>encodeVarint\<close>.\<close>

function varint_loop :: "bytes \<Rightarrow> nat \<Rightarrow> u64 \<Rightarrow> bytes outcome" where
  "varint_loop dAtA offset v =
     (if length dAtA \<le> offset then Panic
      else if v \<ge> 128 then varint_loop (dAtA[offset := ucast (v AND 0x7F OR 0x80)]) (offset + 1) (drop_bit 7 v)
      else Ok (dAtA[offset := ucast v]))"
  by auto
termination by (relation "measure (\<lambda>(d, i, v). length d - i)") auto

declare varint_loop.simps [simp del]

definition encodeVarint :: "bytes \<Rightarrow> nat \<Rightarrow> u64 \<Rightarrow> (bytes \<times> nat) outcome" where
  "encodeVarint dAtA offset v =
     (if offset < sov v then Panic
      else obind (varint_loop dAtA (offset - sov v) v) (\<lambda>d. Ok (d, offset - sov v)))"

definition ErrIntOverflow :: err where "ErrIntOverflow = Errorf ''proto: integer overflow''"
definition ErrUnexpectedEOF :: err where "ErrUnexpectedEOF = Errorf ''unexpected EOF''"
definition ErrInvalidLength :: err where
  "ErrInvalidLength = Errorf ''proto: negative length found during unmarshaling''"
definition ErrUnexpectedEndOfGroup :: err where
  "ErrUnexpectedEndOfGroup = Errorf ''proto: unexpected end of group''"

text \<open>The reading loop: up to ten bytes, seven bits each, into an integer of any width.\<close>

fun read_varint :: "bytes \<Rightarrow> nat \<Rightarrow> 'a::len word \<Rightarrow> ('a word \<times> bytes) outcome" where
  "read_varint r shift acc =
     (if shift \<ge> 64 then Err ErrIntOverflow
      else case r of
        [] \<Rightarrow> Err ErrUnexpectedEOF
      | b # r \<Rightarrow>
          let acc = acc OR push_bit shift (ucast (b AND 0x7F)) in
          if b < 0x80 then Ok (acc, r) else read_varint r (shift + 7) acc)"

declare read_varint.simps [simp del]

lemma bit_len_le: "n < 2 ^ k \<Longrightarrow> bit_len n \<le> k"
proof (induction k arbitrary: n)
  case 0
  then show ?case by (simp add: bit_len.simps)
next
  case (Suc k)
  then have "n div 2 < 2 ^ k" by auto
  with Suc.IH show ?case by (subst bit_len.simps) auto
qed

lemma bit_len_div: "2 ^ k \<le> n \<Longrightarrow> bit_len n = k + bit_len (n div 2 ^ k)"
proof (induction k arbitrary: n)
  case (Suc k)
  then have "2 ^ k \<le> n div 2" by simp
  moreover have "0 < n" using Suc.prems by (cases n) simp_all
  ultimately show ?case
    using Suc.IH [of "n div 2"] by (subst bit_len.simps) (auto simp: div_mult2_eq)
qed simp

lemma bit_len_pos: "0 < n \<Longrightarrow> 0 < bit_len n"
  by (subst bit_len.simps) simp

lemma bit_len_or_1: "bit_len (unat (x OR 1 :: u64)) = max 1 (bit_len (unat x))"
proof -
  have "unat (x OR 1) = unat x + of_bool (even (unat x))"
    unfolding unsigned_or_eq unsigned_1 by (rule or_one_eq)
  then have "unat (x OR 1) div 2 = unat x div 2" and "unat (x OR 1) \<noteq> 0"
    by (auto simp: odd_pos)
  then have "bit_len (unat (x OR 1)) = Suc (bit_len (unat x div 2))"
    by (subst bit_len.simps) simp
  then show ?thesis by (subst (2) bit_len.simps) (auto simp: bit_len.simps [of 0])
qed

lemma length_varint_bytes: "length (varint_bytes v) = sov v"
proof (induction v rule: varint_bytes.induct)
  case (1 v)
  show ?case
  proof (cases "128 \<le> v")
    case True
    then have big: "2 ^ 7 \<le> unat v" by (simp add: word_le_nat_alt)
    have div: "unat (drop_bit 7 v) = unat v div 2 ^ 7"
      by (simp add: unat_drop_7 del: drop_bit_eq_div)
    have "0 < unat v div 2 ^ 7" using big by (simp add: div_greater_zero_iff)
    then have "0 < bit_len (unat v div 2 ^ 7)" by (rule bit_len_pos)
    with 1 [OF True] True show ?thesis
      by (subst varint_bytes.simps) (simp add: sov_def bit_len_or_1 div bit_len_div [OF big])
  next
    case False
    then have "unat v < 2 ^ 7" by (simp add: word_le_nat_alt)
    then have "bit_len (unat v) \<le> 7" by (rule bit_len_le)
    then have "(max 1 (bit_len (unat v)) + 6) div 7 = 1" by (simp add: max_def) presburger
    with False show ?thesis
      by (subst varint_bytes.simps) (simp add: sov_def bit_len_or_1)
  qed
qed

lemma sov_pos [simp]: "0 < sov v"
  using length_varint_bytes [of v] by (subst (asm) varint_bytes.simps) (auto split: if_splits)

section \<open>Varints round trip\<close>

lemma and_7F: "w AND 0x7F = take_bit 7 w" for w :: "'a::len word"
proof -
  have "(0x7F :: 'a word) = mask 7" by (simp add: mask_eq_exp_minus_1)
  then show ?thesis by (simp only: take_bit_eq_mask)
qed

lemma or_80: "w OR 0x80 = set_bit 7 w" for w :: "'a::len word"
proof -
  have "(0x80 :: 'a word) = push_bit 7 1" by (simp add: push_bit_eq_mult)
  then show ?thesis by (simp only: set_bit_eq_or)
qed

lemma byte_less_80: "b < 0x80 \<longleftrightarrow> \<not> bit b 7" for b :: byte
proof -
  have "unat b < 256" using unsigned_less [of b] by simp
  then have "unat b div 128 = 0 \<or> unat b div 128 = 1" by auto
  moreover have "bit b 7 \<longleftrightarrow> odd (unat b div 128)"
    using bit_unsigned_iff [where 'a = nat and 'b = 8, of b 7] by (simp add: bit_iff_odd)
  moreover have "b < 0x80 \<longleftrightarrow> unat b div 128 = 0"
    by (auto simp: word_less_nat_alt)
  ultimately show ?thesis by auto
qed

lemma varint_split:
  "push_bit s (ucast (v AND 0x7F)) OR push_bit (s + 7) (ucast (drop_bit 7 v)) =
    (push_bit s (ucast v) :: 'a::len word)" for v :: u64
  unfolding and_7F
proof (rule bit_word_eqI)
  fix n
  assume "n < LENGTH('a)"
  show "bit (push_bit s (ucast (take_bit 7 v)) OR push_bit (s + 7) (ucast (drop_bit 7 v)) :: 'a word) n =
      bit (push_bit s (ucast v) :: 'a word) n"
  proof (cases "s + 7 \<le> n")
    case True
    then have "7 + (n - (s + 7)) = n - s" by simp
    with True show ?thesis by (auto simp: bit_simps)
  qed (auto simp: bit_simps)
qed

lemma low_bits_cast:
  "ucast ((ucast (v AND 0x7F OR 0x80) :: byte) AND 0x7F) = (ucast (v AND 0x7F) :: 'a::len word)"
  "\<not> (ucast (v AND 0x7F OR 0x80 :: u64) :: byte) < 0x80"
proof -
  show "ucast ((ucast (v AND 0x7F OR 0x80) :: byte) AND 0x7F) = (ucast (v AND 0x7F) :: 'a::len word)"
    unfolding and_7F or_80 by (rule bit_word_eqI) (auto simp: bit_simps)
  show "\<not> (ucast (v AND 0x7F OR 0x80 :: u64) :: byte) < 0x80"
    unfolding or_80 by (simp add: byte_less_80 bit_simps)
qed

lemma last_byte_cast:
  assumes "\<not> 128 \<le> (v :: u64)"
  shows "ucast ((ucast v :: byte) AND 0x7F) = (ucast v :: 'a::len word)" and "(ucast v :: byte) < 0x80"
proof -
  have "unat v < 2 ^ 7" using assms by (simp add: word_le_nat_alt)
  then have "take_bit 7 v = v"
    by (simp add: word_unat_eq_iff unsigned_take_bit_eq take_bit_nat_eq_self)
  then have low: "bit v n \<Longrightarrow> n < 7" for n
    using bit_take_bit_iff [of 7 v n] by simp
  show "ucast ((ucast v :: byte) AND 0x7F) = (ucast v :: 'a::len word)"
    unfolding and_7F by (rule bit_word_eqI) (auto simp: bit_simps dest: low)
  show "(ucast v :: byte) < 0x80"
    using low [of 7] by (auto simp: byte_less_80 bit_simps)
qed

text \<open>Reading what was written gives the value back, truncated to the width of the target.\<close>

lemma read_varint_bytes:
  "shift < 64 \<Longrightarrow> unat v < 2 ^ (64 - shift) \<Longrightarrow>
    read_varint (varint_bytes v @ r) shift acc = Ok (acc OR push_bit shift (ucast v :: 'a::len word), r)"
proof (induction v arbitrary: shift acc rule: varint_bytes.induct)
  case (1 v)
  show ?case
  proof (cases "128 \<le> v")
    case True
    then have big: "128 \<le> unat v" by (simp add: word_le_nat_alt)
    have "shift + 7 < 64"
    proof (rule ccontr)
      assume "\<not> shift + 7 < 64"
      then have "(2 :: nat) ^ (64 - shift) \<le> 2 ^ 7" by (intro power_increasing) auto
      with big 1(3) show False by simp
    qed
    moreover have "unat (drop_bit 7 v) < 2 ^ (64 - (shift + 7))"
    proof -
      have "(2 :: nat) ^ (64 - shift) = 2 ^ (64 - (shift + 7)) * 2 ^ 7"
        unfolding power_add [symmetric] using \<open>shift + 7 < 64\<close> by simp
      with 1(3) show ?thesis
        unfolding unat_drop_7 by (simp add: less_mult_imp_div_less)
    qed
    ultimately show ?thesis
      using 1(1) [OF True, of "shift + 7"] 1(2) True
      by (subst varint_bytes.simps, subst read_varint.simps)
        (simp add: low_bits_cast Let_def varint_split or.assoc)
  next
    case False
    with 1(2) show ?thesis
      by (subst varint_bytes.simps, subst read_varint.simps) (simp add: last_byte_cast)
  qed
qed

lemma read_written [simp]:
  "read_varint (varint_bytes v @ r) 0 0 = Ok (ucast v :: 'a::len word, r)"
  using read_varint_bytes [of 0 v r 0] unsigned_less [of v] by simp

text \<open>Reading consumes at least one byte.\<close>

lemma read_varint_shorter: "read_varint r s a = Ok (v, r') \<Longrightarrow> length r' < length r"
proof (induction r s a rule: read_varint.induct)
  case (1 r shift acc)
  from 1(2) show ?case
    by (subst (asm) read_varint.simps)
      (auto simp: Let_def split: if_splits list.splits dest: 1(1) [rotated -1])
qed

section \<open>Writing backwards into a buffer\<close>

type_synonym buf = "bytes \<times> nat"

text \<open>\<open>i--; dAtA[i] = b\<close>\<close>

definition put_byte :: "byte \<Rightarrow> buf \<Rightarrow> buf outcome" where
  "put_byte b = (\<lambda>(dAtA, i). if i = 0 \<or> length dAtA < i then Panic else Ok (dAtA[i - 1 := b], i - 1))"

text \<open>\<open>i -= len(bs); copy(dAtA[i:], bs)\<close>\<close>

definition put_bytes :: "bytes \<Rightarrow> buf \<Rightarrow> buf outcome" where
  "put_bytes bs = (\<lambda>(dAtA, i). if i < length bs then Panic
     else Ok (take (i - length bs) dAtA @ bs @ drop i dAtA, i - length bs))"

definition put_varint :: "u64 \<Rightarrow> buf \<Rightarrow> buf outcome" where
  "put_varint v = (\<lambda>(dAtA, i). encodeVarint dAtA i v)"

definition put_bytes_field :: "byte \<Rightarrow> bytes \<Rightarrow> buf \<Rightarrow> buf outcome" where
  "put_bytes_field tag bs s =
     (if 0 < length bs
      then obind (put_bytes bs s) (\<lambda>s. obind (put_varint (word_of_nat (length bs)) s) (put_byte tag))
      else Ok s)"

text \<open>The \<open>Size\<close>, \<open>MarshalToSizedBuffer\<close> and \<open>Unmarshal\<close> of a message type.\<close>

record 'm pb =
  pb_Size :: "'m \<Rightarrow> nat"
  pb_MarshalToSizedBuffer :: "'m \<Rightarrow> bytes \<Rightarrow> (bytes \<times> nat) outcome"
  pb_Unmarshal :: "'m \<Rightarrow> bytes \<Rightarrow> 'm outcome"

definition put_message :: "'m pb \<Rightarrow> byte \<Rightarrow> 'm \<Rightarrow> buf \<Rightarrow> buf outcome" where
  "put_message S tag m = (\<lambda>(dAtA, i).
     obind (pb_MarshalToSizedBuffer S m (take i dAtA)) (\<lambda>(d, n).
     if i < n then Panic
     else obind (put_varint (word_of_nat n) (d @ drop i dAtA, i - n)) (put_byte tag)))"

definition put_option :: "'m pb \<Rightarrow> byte \<Rightarrow> 'm option \<Rightarrow> buf \<Rightarrow> buf outcome" where
  "put_option S tag v s = (case v of None \<Rightarrow> Ok s | Some m \<Rightarrow> put_message S tag m s)"

definition sized_buffer :: "(buf \<Rightarrow> buf outcome) \<Rightarrow> bytes \<Rightarrow> (bytes \<times> nat) outcome" where
  "sized_buffer w dAtA = obind (w (dAtA, length dAtA)) (\<lambda>(d, i). Ok (d, length d - i))"

definition pb_Marshal :: "'m pb \<Rightarrow> 'm \<Rightarrow> bytes outcome" where
  "pb_Marshal S m =
     obind (pb_MarshalToSizedBuffer S m (replicate (pb_Size S m) 0)) (\<lambda>(dAtA, n). Ok (take n dAtA))"

section \<open>Reading\<close>

text \<open>A length-delimited field: its bytes and what follows.\<close>

definition read_slice :: "nat \<Rightarrow> bytes \<Rightarrow> (bytes \<times> bytes) outcome" where
  "read_slice l r =
     obind (read_varint r 0 (0 :: u64)) (\<lambda>(n, r).
     if sint n < 0 then Err ErrInvalidLength
     else let postIndex = (l - length r) + unat n in
       if 2 ^ 63 \<le> postIndex then Err ErrInvalidLength
       else if l < postIndex then Err ErrUnexpectedEOF
       else Ok (take (unat n) r, drop (unat n) r))"

text \<open>The index after the value of an unknown field, and the group depth.\<close>

definition skip_field :: "nat \<Rightarrow> nat \<Rightarrow> bytes \<Rightarrow> nat \<Rightarrow> (nat \<times> nat) outcome" where
  "skip_field l wireType r depth =
     (if wireType = 0 then obind (read_varint r 0 (0 :: u64)) (\<lambda>(_, r). Ok (l - length r, depth))
      else if wireType = 1 then Ok (l - length r + 8, depth)
      else if wireType = 2 then
        obind (read_varint r 0 (0 :: u64)) (\<lambda>(n, r).
          if sint n < 0 then Err ErrInvalidLength else Ok (l - length r + unat n, depth))
      else if wireType = 3 then Ok (l - length r, depth + 1)
      else if wireType = 4 then (if depth = 0 then Err ErrUnexpectedEndOfGroup else Ok (l - length r, depth - 1))
      else if wireType = 5 then Ok (l - length r + 4, depth)
      else Err (Errorf ''proto: illegal wireType %d''))"

lemma obind_cong [fundef_cong]:
  "m = m' \<Longrightarrow> (\<And>x. m' = Ok x \<Longrightarrow> f x = g x) \<Longrightarrow> obind m f = obind m' g"
  by (cases m) auto

lemma skip_field_advances:
  assumes "skip_field l w r d = Ok (i, d')" and "length r \<le> l"
  shows "l - length r \<le> i"
  using assms read_varint_shorter
  by (auto simp: skip_field_def outcome_simps split: if_splits) (fastforce dest: read_varint_shorter)+

function skip_loop :: "bytes \<Rightarrow> nat \<Rightarrow> nat \<Rightarrow> nat outcome" where
  "skip_loop dAtA iNdEx depth =
     (if length dAtA \<le> iNdEx then Err ErrUnexpectedEOF
      else obind (read_varint (drop iNdEx dAtA) 0 (0 :: u64)) (\<lambda>x.
        obind (skip_field (length dAtA) (unat (fst x AND 7)) (snd x) depth) (\<lambda>y.
        if 2 ^ 63 \<le> fst y then Err ErrInvalidLength
        else if snd y = 0 then Ok (fst y)
        else skip_loop dAtA (fst y) (snd y))))"
  by auto
termination
proof (relation "measure (\<lambda>(d, i, n). length d - i)")
  fix dAtA :: bytes and iNdEx depth :: nat and x y
  assume lt: "\<not> length dAtA \<le> iNdEx"
    and x: "read_varint (drop iNdEx dAtA) 0 (0 :: u64) = Ok x"
    and y: "skip_field (length dAtA) (unat (fst x AND 7)) (snd x) depth = Ok y"
  have "length (snd x) < length (drop iNdEx dAtA)"
    using x by (cases x) (auto dest: read_varint_shorter)
  moreover have "length dAtA - length (snd x) \<le> fst y"
    using skip_field_advances [of "length dAtA" _ "snd x" depth "fst y" "snd y"] y calculation by auto
  ultimately show "((dAtA, fst y, snd y), dAtA, iNdEx, depth) \<in> measure (\<lambda>(d, i, n). length d - i)"
    using lt by (cases y) auto
qed simp

declare skip_loop.simps [simp del]

definition skip :: "bytes \<Rightarrow> nat outcome" where
  "skip dAtA = skip_loop dAtA 0 0"

text \<open>
  The loop of \<open>Unmarshal\<close>. A table \<open>table\<close> gives the case of the \<open>switch\<close> for a field number,
  wire type and the rest of the input; \<open>None\<close> is the default case. \<open>n\<close> bounds the iterations.
\<close>

type_synonym 'm field_table = "'m \<Rightarrow> nat \<Rightarrow> nat \<Rightarrow> nat \<Rightarrow> bytes \<Rightarrow> ('m \<times> bytes) outcome option"

primrec unmarshal_loop :: "'m field_table \<Rightarrow> nat \<Rightarrow> nat \<Rightarrow> bytes \<Rightarrow> 'm \<Rightarrow> 'm outcome" where
  "unmarshal_loop table l 0 r m = (if r = [] then Ok m else Diverge)"
| "unmarshal_loop table l (Suc n) r m =
     (if r = [] then Ok m
      else obind (read_varint r 0 (0 :: u64)) (\<lambda>(wire, r1).
        let fieldNum = (ucast (drop_bit 3 wire) :: 32 word); wireType = unat (wire AND 7) in
        if wireType = 4 then Err (Errorf ''proto: wiretype end group for non-group'')
        else if sint fieldNum \<le> 0 then Err (Errorf ''proto: illegal tag %d (wire type %d)'')
        else case table m (unat fieldNum) wireType l r1 of
          Some field \<Rightarrow> obind field (\<lambda>(m, r). unmarshal_loop table l n r m)
        | None \<Rightarrow>
            obind (skip r) (\<lambda>skippy.
              if 2 ^ 63 \<le> (l - length r) + skippy then Err ErrInvalidLength
              else if l < (l - length r) + skippy then Err ErrUnexpectedEOF
              else unmarshal_loop table l n (drop skippy r) m)))"

definition unmarshal_with :: "'m field_table \<Rightarrow> 'm \<Rightarrow> bytes \<Rightarrow> 'm outcome" where
  "unmarshal_with table m dAtA = unmarshal_loop table (length dAtA) (length dAtA) dAtA m"

text \<open>The cases of the switch, by kind of field.\<close>

definition wrong_wire :: err where
  "wrong_wire = Errorf ''proto: wrong wireType''"

definition get_bytes :: "(bytes \<Rightarrow> 'm \<Rightarrow> 'm) \<Rightarrow> 'm \<Rightarrow> nat \<Rightarrow> nat \<Rightarrow> bytes \<Rightarrow> ('m \<times> bytes) outcome" where
  "get_bytes upd m wireType l r =
     (if wireType \<noteq> 2 then Err wrong_wire
      else obind (read_slice l r) (\<lambda>(b, r). Ok (upd b m, r)))"

definition get_message ::
  "'a pb \<Rightarrow> ('m \<Rightarrow> 'a) \<Rightarrow> ('a \<Rightarrow> 'm \<Rightarrow> 'm) \<Rightarrow> 'm \<Rightarrow> nat \<Rightarrow> nat \<Rightarrow> bytes \<Rightarrow> ('m \<times> bytes) outcome" where
  "get_message S old upd m wireType l r =
     (if wireType \<noteq> 2 then Err wrong_wire
      else obind (read_slice l r) (\<lambda>(b, r). obind (pb_Unmarshal S (old m) b) (\<lambda>x. Ok (upd x m, r))))"

definition get_varint :: "('a::len word \<Rightarrow> 'm \<Rightarrow> 'm) \<Rightarrow> 'm \<Rightarrow> nat \<Rightarrow> nat \<Rightarrow> bytes \<Rightarrow> ('m \<times> bytes) outcome" where
  "get_varint upd m wireType l r =
     (if wireType \<noteq> 0 then Err wrong_wire
      else obind (read_varint r 0 (0 :: 'a word)) (\<lambda>(v, r). Ok (upd v m, r)))"

text \<open>\<open>if m.F == nil { m.F = &T{} }\<close>\<close>

definition or_zero :: "'a \<Rightarrow> 'a option \<Rightarrow> 'a" where
  "or_zero z v = (case v of None \<Rightarrow> z | Some x \<Rightarrow> x)"

section \<open>What the writers write\<close>

text \<open>
  \<open>writes w e\<close>: with room for \<open>e\<close>, the writer \<open>w\<close> puts exactly \<open>e\<close> in front of what is
  already in the buffer, and touches nothing else.
\<close>

definition writes :: "(buf \<Rightarrow> buf outcome) \<Rightarrow> bytes \<Rightarrow> bool" where
  "writes w e \<longleftrightarrow> (\<forall>d i. i \<le> length d \<longrightarrow> length e \<le> i \<longrightarrow>
     w (d, i) = Ok (take (i - length e) d @ e @ drop i d, i - length e))"

lemma writesD: "writes w e \<Longrightarrow> i \<le> length d \<Longrightarrow> length e \<le> i \<Longrightarrow>
    w (d, i) = Ok (take (i - length e) d @ e @ drop i d, i - length e)"
  by (simp add: writes_def)

named_theorems writes_intro \<open>what each writer writes\<close>

lemma writes_nothing [writes_intro]: "writes Ok []"
  by (simp add: writes_def)

lemma writes_then:
  assumes v: "writes v e" and w: "writes w f"
  shows "writes (\<lambda>s. obind (v s) w) (f @ e)"
  unfolding writes_def
proof (intro allI impI)
  fix d :: bytes and i
  assume i: "i \<le> length d" "length (f @ e) \<le> i"
  let ?d = "take (i - length e) d @ e @ drop i d" and ?j = "i - length e"
  have "v (d, i) = Ok (?d, ?j)" using i by (intro writesD [OF v]) auto
  moreover have "w (?d, ?j) = Ok (take (?j - length f) ?d @ f @ drop ?j ?d, ?j - length f)"
    using i by (intro writesD [OF w]) auto
  moreover have "take (?j - length f) ?d = take (i - length (f @ e)) d"
    using i by (simp add: min_def add.commute)
  moreover have "drop ?j ?d = e @ drop i d" using i by simp
  ultimately show "obind (v (d, i)) w = Ok (take (i - length (f @ e)) d @ (f @ e) @ drop i d, i - length (f @ e))"
    by (simp add: add.commute)
qed

lemma writes_byte: "writes (put_byte b) [b]"
proof -
  have "d[i - 1 := b] = take (i - 1) d @ b # drop i d" if "0 < i" "i \<le> length d" for d :: bytes and i
    using that upd_conv_take_nth_drop [of "i - 1" d b] by simp
  then show ?thesis by (auto simp: writes_def put_byte_def)
qed

lemma writes_bytes: "writes (put_bytes bs) bs"
  by (auto simp: writes_def put_bytes_def)

lemma varint_loop_writes:
  "j + length (varint_bytes v) \<le> length d \<Longrightarrow>
    varint_loop d j v = Ok (take j d @ varint_bytes v @ drop (j + length (varint_bytes v)) d)"
proof (induction d j v rule: varint_loop.induct)
  case (1 d j v)
  have j: "j < length d" using 1(2) length_varint_bytes [of v] sov_pos [of v] by linarith
  show ?case
  proof (cases "128 \<le> v")
    case True
    let ?b = "ucast (v AND 0x7F OR 0x80) :: byte"
    have vb: "varint_bytes v = ?b # varint_bytes (drop_bit 7 v)"
      using True by (subst varint_bytes.simps) simp
    have "varint_loop d j v = varint_loop (d[j := ?b]) (j + 1) (drop_bit 7 v)"
      using True j by (subst varint_loop.simps) simp
    also have "\<dots> = Ok (take (j + 1) (d[j := ?b]) @ varint_bytes (drop_bit 7 v) @
        drop (j + 1 + length (varint_bytes (drop_bit 7 v))) (d[j := ?b]))"
      using 1 True j vb by simp
    finally show ?thesis
      using j by (simp add: vb take_Suc_conv_app_nth)
  next
    case False
    then have vb: "varint_bytes v = [ucast v]" by (subst varint_bytes.simps) simp
    show ?thesis
      using False j by (subst varint_loop.simps) (simp add: vb upd_conv_take_nth_drop)
  qed
qed

lemma writes_varint: "writes (put_varint v) (varint_bytes v)"
  unfolding writes_def put_varint_def encodeVarint_def
  by (auto simp: varint_loop_writes length_varint_bytes [symmetric])

definition wire_slice :: "byte \<Rightarrow> bytes \<Rightarrow> bytes" where
  "wire_slice tag b = tag # varint_bytes (word_of_nat (length b)) @ b"

definition wire_bytes :: "byte \<Rightarrow> bytes \<Rightarrow> bytes" where
  "wire_bytes tag b = (if b = [] then [] else wire_slice tag b)"

definition wire_option :: "('m \<Rightarrow> bytes) \<Rightarrow> byte \<Rightarrow> 'm option \<Rightarrow> bytes" where
  "wire_option e tag v = (case v of None \<Rightarrow> [] | Some m \<Rightarrow> wire_slice tag (e m))"

lemma length_wire_slice: "length (wire_slice tag b) = 1 + length b + sov (word_of_nat (length b))"
  by (simp add: wire_slice_def length_varint_bytes)

lemma writes_tagged:
  assumes "writes w b"
  shows "writes (\<lambda>s. obind (w s) (\<lambda>s. obind (put_varint (word_of_nat (length b)) s) (put_byte tag))) (wire_slice tag b)"
  using writes_then [OF assms writes_then [OF writes_varint writes_byte]] by (simp add: wire_slice_def)

lemma writes_bytes_field [writes_intro]: "writes (put_bytes_field tag b) (wire_bytes tag b)"
proof (cases "b = []")
  case True
  then show ?thesis
    using writes_nothing by (simp add: put_bytes_field_def wire_bytes_def writes_def)
next
  case False
  then show ?thesis
    using writes_tagged [OF writes_bytes, of b tag]
    by (simp add: put_bytes_field_def [abs_def] wire_bytes_def)
qed

text \<open>A message type whose \<open>MarshalToSizedBuffer\<close> writes \<open>e\<close> at the end of its buffer.\<close>

definition marshals :: "'m pb \<Rightarrow> ('m \<Rightarrow> bytes) \<Rightarrow> bool" where
  "marshals S e \<longleftrightarrow> (\<forall>m d. length (e m) \<le> length d \<longrightarrow>
     pb_MarshalToSizedBuffer S m d = Ok (take (length d - length (e m)) d @ e m, length (e m)))"

lemma writes_message [writes_intro]:
  assumes "marshals S e"
  shows "writes (put_message S tag m) (wire_slice tag (e m))"
proof -
  let ?sub = "\<lambda>(dAtA, i). obind (pb_MarshalToSizedBuffer S m (take i dAtA)) (\<lambda>(d, n).
     if i < n then Panic else Ok (d @ drop i dAtA, i - n))"
  have sub: "writes ?sub (e m)"
    using assms by (auto simp: writes_def marshals_def min_def)
  have "put_message S tag m (d, i) = obind (?sub (d, i)) (\<lambda>s. obind (put_varint (word_of_nat (length (e m))) s) (put_byte tag))"
    if "i \<le> length d" "length (e m) \<le> i" for d i
    using assms that by (simp add: put_message_def marshals_def min_def)
  then show ?thesis
    using writes_tagged [OF sub, of tag] unfolding writes_def by (simp add: length_wire_slice)
qed

lemma writes_option [writes_intro]:
  "marshals S e \<Longrightarrow> writes (put_option S tag v) (wire_option e tag v)"
  by (cases v) (simp_all add: put_option_def [abs_def] wire_option_def writes_nothing writes_message)

lemma marshals_sized_buffer:
  "writes w e \<Longrightarrow> length e \<le> length d \<Longrightarrow>
    sized_buffer w d = Ok (take (length d - length e) d @ e, length e)"
  by (simp add: sized_buffer_def writesD)

section \<open>What the readers read\<close>

lemma read_slice_written:
  assumes "length (varint_bytes (word_of_nat (length b)) @ b @ r) \<le> l" and "l < 2 ^ 63"
  shows "read_slice l (varint_bytes (word_of_nat (length b)) @ b @ r) = Ok (b, r)"
proof -
  have small: "length b < 2 ^ 63" using assms by simp
  then have u: "unat (word_of_nat (length b) :: u64) = length b"
    by (simp add: unat_of_nat take_bit_nat_eq_self)
  have "sint (word_of_nat (length b) :: u64) = int (length b)"
    using small u by (simp add: sint_uint uint_nat signed_take_bit_int_eq_self del: of_nat_unat)
  then have s: "\<not> sint (word_of_nat (length b) :: u64) < 0" by simp
  have "l - length (b @ r) + length b \<le> l" using assms(1) by simp
  then show ?thesis using s assms by (simp add: read_slice_def Let_def u)
qed

text \<open>A tag byte with its field number and wire type.\<close>

definition is_tag :: "byte \<Rightarrow> nat \<Rightarrow> nat \<Rightarrow> bool" where
  "is_tag t num wt \<longleftrightarrow> t < 0x80 \<and> num = unat t div 8 \<and> wt = unat t mod 8 \<and> 0 < num \<and> wt \<noteq> 4"

lemma read_tag:
  assumes "is_tag t num wt"
  shows "\<exists>v :: u64. read_varint (t # r) 0 0 = Ok (v, r) \<and> unat (ucast (drop_bit 3 v) :: 32 word) = num \<and>
    0 < sint (ucast (drop_bit 3 v) :: 32 word) \<and> unat (v AND 7) = wt"
proof -
  let ?v = "ucast t :: u64"
  have t: "unat t < 128" using assms by (simp add: is_tag_def word_less_nat_alt)
  have v: "unat ?v = unat t" using t by (simp add: unsigned_ucast_eq take_bit_nat_eq_self)
  have "ucast ?v = t" by (rule bit_word_eqI) (simp add: bit_simps)
  then have "varint_bytes ?v = [t]"
    using t v by (subst varint_bytes.simps) (simp add: word_le_nat_alt)
  then have rd: "read_varint (t # r) 0 0 = Ok (?v, r)"
    using read_written [of ?v r, where 'a = 64] by simp
  have d: "unat (drop_bit 3 ?v) = unat t div 8"
    by (simp only: unat_drop_bit_eq v) (simp add: drop_bit_eq_div)
  have n: "unat (ucast (drop_bit 3 ?v) :: 32 word) = num"
    using assms t by (simp add: unsigned_ucast_eq d take_bit_nat_eq_self is_tag_def del: drop_bit_eq_div)
  have "num < 16" using assms t by (simp add: is_tag_def)
  then have "sint (ucast (drop_bit 3 ?v) :: 32 word) = int num"
    using n by (simp add: sint_uint uint_nat signed_take_bit_int_eq_self del: drop_bit_eq_div)
  moreover have "unat (?v AND 7) = wt"
  proof -
    have "?v AND 7 = take_bit 3 ?v"
      by (simp add: take_bit_eq_mask mask_eq_exp_minus_1)
    then have "unat (?v AND 7) = unat t mod 8"
      by (simp only: unsigned_take_bit_eq v) (simp add: take_bit_eq_mod)
    then show ?thesis using assms by (simp add: is_tag_def)
  qed
  ultimately show ?thesis using rd n assms by (intro exI [of _ ?v]) (simp add: is_tag_def)
qed

text \<open>
  \<open>reads table e m m'\<close>: consuming the encoded fields \<open>e\<close>, the loop goes from \<open>m\<close> to \<open>m'\<close>.
\<close>

definition parses :: "'m field_table \<Rightarrow> nat \<Rightarrow> bytes \<Rightarrow> 'm \<Rightarrow> 'm outcome \<Rightarrow> bool" where
  "parses table l r m x \<longleftrightarrow> (\<forall>n. length r \<le> n \<longrightarrow> unmarshal_loop table l n r m = x)"

definition reads :: "'m field_table \<Rightarrow> bytes \<Rightarrow> 'm \<Rightarrow> 'm \<Rightarrow> bool" where
  "reads table e m m' \<longleftrightarrow> (\<forall>l r x. l < 2 ^ 63 \<longrightarrow> length (e @ r) \<le> l \<longrightarrow>
     parses table l r m' x \<longrightarrow> parses table l (e @ r) m x)"

lemma reads_nothing: "reads table [] m m"
  by (simp add: reads_def)

lemma reads_append: "reads table e m m' \<Longrightarrow> reads table f m' m'' \<Longrightarrow> reads table (e @ f) m m''"
  by (simp add: reads_def)

lemma reads_unmarshal:
  assumes "reads table e m m'" and "length e < 2 ^ 63"
  shows "unmarshal_with table m e = Ok m'"
proof -
  have "parses table (length e) [] m' (Ok m')"
    by (simp add: parses_def) (metis unmarshal_loop.simps not0_implies_Suc)
  with assms have "parses table (length e) (e @ []) m (Ok m')"
    unfolding reads_def by (metis append_Nil2 order_refl)
  then show ?thesis by (simp add: unmarshal_with_def parses_def)
qed

lemma reads_field:
  assumes t: "is_tag t num wt"
    and f: "\<And>l r. l < 2 ^ 63 \<Longrightarrow> length (e @ r) < l \<Longrightarrow> table m num wt l (e @ r) = Some (Ok (m', r))"
  shows "reads table (t # e) m m'"
  unfolding reads_def parses_def
proof (intro allI impI)
  fix l r x n
  assume l: "l < 2 ^ 63" "length ((t # e) @ r) \<le> l" and rest: "\<forall>n. length r \<le> n \<longrightarrow> unmarshal_loop table l n r m' = x"
    and n: "length ((t # e) @ r) \<le> n"
  from n obtain k where k: "n = Suc k" and "length r \<le> k" by (cases n) auto
  obtain v :: u64 where v: "read_varint (t # (e @ r)) 0 0 = Ok (v, e @ r)" "unat (ucast (drop_bit 3 v) :: 32 word) = num"
    "0 < sint (ucast (drop_bit 3 v) :: 32 word)" "unat (v AND 7) = wt"
    using read_tag [OF t] by blast
  have "wt \<noteq> 4" using t by (simp add: is_tag_def)
  moreover have "table m num wt l (e @ r) = Some (Ok (m', r))" using l by (intro f) auto
  ultimately show "unmarshal_loop table l n ((t # e) @ r) m = x"
    using v rest \<open>length r \<le> k\<close> by (simp add: k Let_def)
qed

lemma get_bytes_written:
  assumes "l < 2 ^ 63" and "length (varint_bytes (word_of_nat (length b)) @ b @ r) < l"
  shows "get_bytes upd m 2 l ((varint_bytes (word_of_nat (length b)) @ b) @ r) = Ok (upd b m, r)"
  using assms by (simp add: get_bytes_def read_slice_written)

lemma get_message_written:
  assumes "l < 2 ^ 63" and "length (varint_bytes (word_of_nat (length b)) @ b @ r) < l"
    and "pb_Unmarshal S (old m) b = Ok x"
  shows "get_message S old upd m 2 l ((varint_bytes (word_of_nat (length b)) @ b) @ r) = Ok (upd x m, r)"
  using assms by (simp add: get_message_def read_slice_written)

lemma reads_bytes:
  assumes "is_tag t num 2" and "\<And>l r. table m num 2 l r = Some (get_bytes upd m 2 l r)" and "upd [] m = m"
  shows "reads table (wire_bytes t b) m (upd b m)"
proof (cases "b = []")
  case True
  then show ?thesis using assms(3) by (simp add: wire_bytes_def reads_nothing)
next
  case False
  then show ?thesis
    unfolding wire_bytes_def wire_slice_def
    by (auto intro!: reads_field [OF assms(1)] simp: assms(2) get_bytes_written [simplified])
qed

lemma reads_message:
  assumes "is_tag t num 2" and "\<And>l r. table m num 2 l r = Some (get_message S old upd m 2 l r)"
    and "length b < 2 ^ 63 \<Longrightarrow> pb_Unmarshal S (old m) b = Ok x"
  shows "reads table (wire_slice t b) m (upd x m)"
  unfolding wire_slice_def
  by (rule reads_field [OF assms(1)]) (use assms(3) in \<open>auto simp: assms(2) get_message_written [simplified]\<close>)

section \<open>The contract of a generated message type\<close>

text \<open>
  A message type with its encoding \<open>enc\<close> and zero value: \<open>Size\<close> is the length of the encoding,
  \<open>MarshalToSizedBuffer\<close> writes it at the end of a large enough buffer, \<open>Unmarshal\<close> of it
  (below the range of \<open>int\<close>) into a zero value gives the message back. \<open>good\<close> is the
  condition on the message types of other packages.
\<close>

locale pb_message =
  fixes good :: bool
    and S :: "'m pb"
    and zero :: 'm
    and enc :: "'m \<Rightarrow> bytes"
  assumes size_enc: "good \<Longrightarrow> pb_Size S m = length (enc m)"
    and marshal_enc: "good \<Longrightarrow> marshals S enc"
    and unmarshal_enc: "good \<Longrightarrow> length (enc m) < 2 ^ 63 \<Longrightarrow> pb_Unmarshal S zero (enc m) = Ok m"
begin

lemma Marshal_enc: "good \<Longrightarrow> pb_Marshal S m = Ok (enc m)"
  using marshal_enc by (simp add: pb_Marshal_def size_enc marshals_def)

lemma round_trip: "good \<Longrightarrow> pb_Marshal S m = Ok b \<Longrightarrow> length b < 2 ^ 63 \<Longrightarrow> pb_Unmarshal S zero b = Ok m"
  by (metis Marshal_enc outcome.inject(1) unmarshal_enc)

lemma marshal_round_trip:
  "good \<Longrightarrow> \<exists>b. pb_Marshal S m = Ok b \<and> length b = pb_Size S m \<and>
    (length b < 2 ^ 63 \<longrightarrow> pb_Unmarshal S zero b = Ok m)"
  by (simp add: Marshal_enc size_enc unmarshal_enc)

lemma enc_inject: "good \<Longrightarrow> length (enc m) < 2 ^ 63 \<Longrightarrow> enc m = enc m' \<longleftrightarrow> m = m'"
  by (metis outcome.inject(1) unmarshal_enc)

end

end
