(* ===== verification/Wire_Fields.thy ===== *)
theory Wire_Fields
  imports Wire
begin

text \<open>
  The kinds of field of the generated messages: for each its size, its writer, its
  encoding and the lemmas that writer and reader agree with the encoding. Then the loop of
  \<open>Unmarshal\<close>: it always returns.
\<close>

section \<open>Sizes\<close>

text \<open>\<open>n += 1 + l + sov(uint64(l))\<close>\<close>

definition size_slice :: "nat \<Rightarrow> nat" where
  "size_slice l = 1 + l + sov (word_of_nat l)"

definition size_bytes :: "bytes \<Rightarrow> nat" where
  "size_bytes b = (let l = length b in if 0 < l then size_slice l else 0)"

definition size_optional :: "'m pb \<Rightarrow> 'm option \<Rightarrow> nat" where
  "size_optional S v = (case v of None \<Rightarrow> 0 | Some m \<Rightarrow> size_slice (pb_Size S m))"

definition size_varint :: "'a::len word \<Rightarrow> nat" where
  "size_varint v = (if v \<noteq> 0 then 1 + sov (ucast v) else 0)"

text \<open>A repeated field: its elements are written from the last to the first.\<close>

primrec put_repeated :: "'m pb \<Rightarrow> byte \<Rightarrow> 'm list \<Rightarrow> buf \<Rightarrow> buf outcome" where
  "put_repeated S tag [] s = Ok s"
| "put_repeated S tag (m # ms) s = obind (put_repeated S tag ms s) (put_message S tag m)"

definition put_varint_field :: "byte \<Rightarrow> 'a::len word \<Rightarrow> buf \<Rightarrow> buf outcome" where
  "put_varint_field tag v s =
     (if v \<noteq> 0 then obind (put_varint (ucast v) s) (put_byte tag) else Ok s)"

section \<open>Encodings\<close>

definition wire_varint :: "byte \<Rightarrow> 'a::len word \<Rightarrow> bytes" where
  "wire_varint tag v = (if v = 0 then [] else tag # varint_bytes (ucast v))"

definition wire_repeated :: "('m \<Rightarrow> bytes) \<Rightarrow> byte \<Rightarrow> 'm list \<Rightarrow> bytes" where
  "wire_repeated e tag ms = concat (map (\<lambda>m. wire_slice tag (e m)) ms)"

lemma length_wire_bytes: "length (wire_bytes t b) = size_bytes b"
  by (simp add: wire_bytes_def size_bytes_def size_slice_def length_wire_slice)

lemma length_wire_message: "length (wire_slice t b) = size_slice (length b)"
  by (simp add: size_slice_def length_wire_slice)

lemma length_wire_option: "length (wire_option e t v) = (case v of None \<Rightarrow> 0 | Some m \<Rightarrow> size_slice (length (e m)))"
  by (simp add: wire_option_def length_wire_message split: option.splits)

lemma length_wire_varint: "length (wire_varint t v) = size_varint v"
  by (simp add: wire_varint_def size_varint_def length_varint_bytes)

lemma length_wire_repeated: "length (wire_repeated e t ms) = sum_list (map (\<lambda>m. size_slice (length (e m))) ms)"
  by (induction ms) (simp_all add: wire_repeated_def length_wire_message)

lemmas wire_lengths = length_wire_bytes length_wire_message length_wire_option length_wire_varint
  length_wire_repeated size_optional_def

section \<open>Writers\<close>

lemma writes_varint_field [writes_intro]: "writes (put_varint_field tag v) (wire_varint tag v)"
proof (cases "v = 0")
  case True
  then show ?thesis
    using writes_nothing by (simp add: put_varint_field_def [abs_def] wire_varint_def)
next
  case False
  then show ?thesis
    using writes_then [OF writes_varint writes_byte]
    by (simp add: put_varint_field_def [abs_def] wire_varint_def)
qed

lemma writes_repeated [writes_intro]:
  assumes "marshals S e"
  shows "writes (put_repeated S tag ms) (wire_repeated e tag ms)"
proof (induction ms)
  case Nil
  then show ?case
    using writes_nothing by (simp add: put_repeated_def [abs_def] wire_repeated_def)
next
  case (Cons m ms)
  from writes_then [OF this writes_message [OF assms]] show ?case
    by (simp add: wire_repeated_def)
qed

lemma marshals_by:
  "(\<And>m. writes (w m) (e m)) \<Longrightarrow>
    marshals \<lparr>pb_Size = s, pb_MarshalToSizedBuffer = \<lambda>m. sized_buffer (w m), pb_Unmarshal = u\<rparr> e"
  by (simp add: marshals_def marshals_sized_buffer)

section \<open>Readers\<close>

lemma ucast_up_down: "LENGTH('a) \<le> 64 \<Longrightarrow> ucast (ucast v :: u64) = (v :: 'a::len word)"
  by (rule bit_word_eqI) (simp add: bit_simps)

lemma reads_varint:
  fixes v :: "'a::len word"
  assumes "is_tag t num 0" and "\<And>l r. table m num 0 l r = Some (get_varint upd m 0 l r)"
    and "upd 0 m = m" and "LENGTH('a) \<le> 64"
  shows "reads table (wire_varint t v) m (upd v m)"
proof (cases "v = 0")
  case True
  then show ?thesis using assms(3) by (simp add: wire_varint_def reads_nothing)
next
  case False
  then show ?thesis
    unfolding wire_varint_def
    by (auto intro!: reads_field [OF assms(1)] simp: assms(2,4) get_varint_def ucast_up_down)
qed

definition upd_option :: "('a \<Rightarrow> 'm \<Rightarrow> 'm) \<Rightarrow> 'a option \<Rightarrow> 'm \<Rightarrow> 'm" where
  "upd_option upd v m = (case v of None \<Rightarrow> m | Some x \<Rightarrow> upd x m)"

lemma reads_option:
  assumes "is_tag t num 2" and "\<And>l r. table m num 2 l r = Some (get_message S old upd m 2 l r)"
    and "\<And>x. length (e x) < 2 ^ 63 \<Longrightarrow> pb_Unmarshal S (old m) (e x) = Ok x"
    and "upd_option upd v m = m'"
  shows "reads table (wire_option e t v) m m'"
proof (cases v)
  case (Some x)
  have "reads table (wire_slice t (e x)) m (upd x m)"
    using assms by (intro reads_message [where old = old and S = S])
  with Some assms(4) show ?thesis by (simp add: wire_option_def upd_option_def)
qed (use assms(4) in \<open>simp add: wire_option_def upd_option_def reads_nothing\<close>)

lemma reads_repeated:
  assumes "is_tag t num 2"
    and "\<And>m l r. table m num 2 l r = Some (get_message S (\<lambda>_. z) upd m 2 l r)"
    and "\<And>x. length (e x) < 2 ^ 63 \<Longrightarrow> pb_Unmarshal S z (e x) = Ok x"
    and "fold upd xs m = m'"
  shows "reads table (wire_repeated e t xs) m m'"
proof -
  have "reads table (wire_repeated e t xs) m (fold upd xs m)"
  proof (induction xs arbitrary: m)
    case (Cons x xs)
    have "reads table (wire_slice t (e x)) m (upd x m)"
      using assms by (intro reads_message)
    from reads_append [OF this Cons] show ?case by (simp add: wire_repeated_def)
  qed (simp add: wire_repeated_def reads_nothing)
  with assms(4) show ?thesis by simp
qed

section \<open>Unmarshal returns\<close>

lemma read_varint_returns [simp]: "read_varint r s a \<noteq> Diverge"
  by (induction r s a rule: read_varint.induct)
    (subst read_varint.simps, auto simp: Let_def split: list.splits)

lemma skip_field_returns [simp]: "skip_field l w r d \<noteq> Diverge"
  by (auto simp: skip_field_def obind_Diverge_iff split: if_splits)

lemma skip_loop_returns: "skip_loop dAtA i d \<noteq> Diverge"
proof (induction dAtA i d rule: skip_loop.induct)
  case (1 dAtA i d)
  have IH: "skip_loop dAtA j e \<noteq> Diverge"
    if "\<not> length dAtA \<le> i" "read_varint (drop i dAtA) 0 (0 :: u64) = Ok (a, b)"
      "skip_field (length dAtA) (unat (a AND 7)) b d = Ok (j, e)" "\<not> 2 ^ 63 \<le> j" "0 < e" for a b j e
    using 1 [of "(a, b)" "(j, e)"] that by simp
  show ?case
    by (subst skip_loop.simps) (auto simp: obind_Diverge_iff dest: IH split: if_splits)
qed

lemma skip_loop_advances: "skip_loop dAtA i d = Ok j \<Longrightarrow> i < j"
proof (induction dAtA i d rule: skip_loop.induct)
  case (1 dAtA i d)
  from 1(2) obtain x y where i: "i < length dAtA"
    and x: "read_varint (drop i dAtA) 0 (0 :: u64) = Ok x"
    and y: "skip_field (length dAtA) (unat (fst x AND 7)) (snd x) d = Ok y"
    and small: "\<not> 2 ^ 63 \<le> fst y"
    and j: "if snd y = 0 then fst y = j else skip_loop dAtA (fst y) (snd y) = Ok j"
    by (subst (asm) skip_loop.simps) (auto simp: obind_Ok_iff split: if_splits)
  have "length (snd x) < length (drop i dAtA)"
    using read_varint_shorter [of "drop i dAtA" 0 0 "fst x" "snd x"] x by simp
  moreover have "length dAtA - length (snd x) \<le> fst y"
    using skip_field_advances [of _ _ _ _ "fst y" "snd y"] y calculation by simp
  ultimately have "i < fst y" using i by simp
  moreover have "fst y \<le> j"
    using j 1(1) [OF _ x y] i small by (cases "snd y = 0") auto
  ultimately show "i < j" by simp
qed

text \<open>A case of the switch: it returns, and consumes from the front.\<close>

definition field_ok :: "('m \<times> bytes) outcome \<Rightarrow> bytes \<Rightarrow> bool" where
  "field_ok x r \<longleftrightarrow> x \<noteq> Diverge \<and> (\<forall>m' r'. x = Ok (m', r') \<longrightarrow> length r' \<le> length r)"

lemma read_slice_ok:
  "read_slice l r \<noteq> Diverge" "read_slice l r = Ok (b, r') \<Longrightarrow> length r' \<le> length r"
  by (auto simp: read_slice_def Let_def obind_Diverge_iff obind_Ok_iff split: if_splits
      dest!: read_varint_shorter)

lemma get_bytes_ok: "field_ok (get_bytes upd m w l r) r"
  by (auto simp: field_ok_def get_bytes_def obind_Diverge_iff obind_Ok_iff read_slice_ok)

lemma get_varint_ok: "field_ok (get_varint upd m w l r) r"
  by (auto simp: field_ok_def get_varint_def obind_Diverge_iff obind_Ok_iff dest: read_varint_shorter)

lemma get_message_ok:
  "(\<And>b. pb_Unmarshal S (old m) b \<noteq> Diverge) \<Longrightarrow> field_ok (get_message S old upd m w l r) r"
  by (auto simp: field_ok_def get_message_def obind_Diverge_iff obind_Ok_iff read_slice_ok)

lemmas fields_ok = get_bytes_ok get_varint_ok get_message_ok

theorem unmarshal_loop_returns:
  assumes "\<And>m num w l r x. table m num w l r = Some x \<Longrightarrow> field_ok x r"
  shows "length r \<le> n \<Longrightarrow> unmarshal_loop table l n r m \<noteq> Diverge"
proof (induction n arbitrary: r m)
  case (Suc n)
  show ?case
  proof (cases "read_varint r 0 (0 :: u64)")
    case (Ok x)
    then have r1: "length (snd x) < length r" by (cases x) (auto dest: read_varint_shorter)
    have field: "unmarshal_loop table l n r' m' \<noteq> Diverge" if "length r' \<le> length (snd x)" for r' m'
      using that r1 Suc.prems by (intro Suc.IH) simp
    have skip: "unmarshal_loop table l n (drop k r) m \<noteq> Diverge" if "skip r = Ok k" for k
      using that r1 Suc.prems skip_loop_advances by (intro Suc.IH) (fastforce simp: skip_def)
    show ?thesis
      using Ok field skip assms
      by (auto simp: Let_def obind_Diverge_iff skip_loop_returns skip_def field_ok_def
          split: option.splits prod.splits)
  qed auto
qed simp

lemma unmarshal_with_returns:
  "(\<And>m num w l r x. table m num w l r = Some x \<Longrightarrow> field_ok x r) \<Longrightarrow> unmarshal_with table m b \<noteq> Diverge"
  unfolding unmarshal_with_def by (rule unmarshal_loop_returns) auto

section \<open>Strings and the message types of other packages\<close>

definition string_bytes :: "string \<Rightarrow> bytes" where
  "string_bytes s = map (\<lambda>c. word_of_nat (of_char c)) s"

definition bytes_string :: "bytes \<Rightarrow> string" where
  "bytes_string b = map (\<lambda>w. char_of (unat w)) b"

lemma bytes_string_bytes [simp]: "bytes_string (string_bytes s) = s"
proof -
  have "unat (word_of_nat (of_char c) :: byte) = of_char c" for c
  proof -
    have "(of_char c :: nat) < 256" by simp
    then show ?thesis by (simp add: unat_of_nat take_bit_nat_eq_self del: of_char_of)
  qed
  then show ?thesis by (simp add: bytes_string_def string_bytes_def comp_def)
qed

lemma bytes_string_Nil [simp]: "bytes_string [] = []" "string_bytes s = [] \<longleftrightarrow> s = []"
  by (simp_all add: bytes_string_def string_bytes_def)

lemma reads_string:
  assumes "is_tag t num 2" and "\<And>l r. table m num 2 l r = Some (get_bytes (\<lambda>b. upd (bytes_string b)) m 2 l r)"
    and "upd [] m = m"
  shows "reads table (wire_bytes t (string_bytes s)) m (upd s m)"
  using reads_bytes [of t num table m "\<lambda>b. upd (bytes_string b)" "string_bytes s"] assms by simp

text \<open>
  What the generated code relies on in the message types it imports: their \<open>Size\<close> is the
  number of bytes written, the bytes go to the end of the buffer, and \<open>Unmarshal\<close> of them
  into a new value gives the message back.
\<close>

definition pb_laws :: "'m pb \<Rightarrow> 'm \<Rightarrow> ('m \<Rightarrow> bytes) \<Rightarrow> bool" where
  "pb_laws S z e \<longleftrightarrow> (\<forall>m. pb_Size S m = length (e m)) \<and> marshals S e \<and>
     (\<forall>m. length (e m) < 2 ^ 63 \<longrightarrow> pb_Unmarshal S z (e m) = Ok m)"

definition pb_returns :: "'m pb \<Rightarrow> bool" where
  "pb_returns S \<longleftrightarrow> (\<forall>m b. pb_Unmarshal S m b \<noteq> Diverge)"

lemma pb_lawsD:
  assumes "pb_laws S z e"
  shows "pb_Size S m = length (e m)" "marshals S e" "length (e m) < 2 ^ 63 \<Longrightarrow> pb_Unmarshal S z (e m) = Ok m"
  using assms by (auto simp: pb_laws_def)

end
