(* ===== verification/Light_Client_Wire.thy ===== *)
theory Light_Client_Wire
  imports Wire_Fields
begin

text \<open>
  \<open>xx-multiv/types/multiv.pb.go\<close> and \<open>xx-proxy/types/proxy.pb.go\<close>: \<open>Size\<close>,
  \<open>MarshalToSizedBuffer\<close> and \<open>Unmarshal\<close> of the client states, the consensus state and the
  multi-proofs. The message types of other packages (\<open>Any\<close>, \<open>Height\<close>, \<open>MerklePrefix\<close>) are
  the parameter \<open>L\<close>. Fields are written in descending order, so the encodings
  (\<open>wire_\<dots>\<close>) list them in ascending order. A nil and an empty byte slice are the same value.
\<close>

record pb_lib =
  AnyPb :: "Any pb"
  HeightPb :: "Height pb"
  PrefixPb :: "MerklePrefix pb"

record pb_encodings =
  any_enc :: "Any \<Rightarrow> bytes"
  height_enc :: "Height \<Rightarrow> bytes"
  prefix_enc :: "MerklePrefix \<Rightarrow> bytes"

abbreviation zero_Any :: Any where "zero_Any \<equiv> \<lparr>TypeUrl = [], AnyValue = []\<rparr>"
abbreviation zero_Height :: Height where "zero_Height \<equiv> \<lparr>RevisionNumber = 0, RevisionHeight = 0\<rparr>"

definition lib_laws :: "pb_lib \<Rightarrow> pb_encodings \<Rightarrow> bool" where
  "lib_laws L E \<longleftrightarrow> pb_laws (AnyPb L) zero_Any (any_enc E) \<and> pb_laws (HeightPb L) zero_Height (height_enc E) \<and>
     pb_laws (PrefixPb L) [] (prefix_enc E)"

definition lib_returns :: "pb_lib \<Rightarrow> bool" where
  "lib_returns L \<longleftrightarrow> pb_returns (AnyPb L) \<and> pb_returns (HeightPb L) \<and> pb_returns (PrefixPb L)"

lemma lib_lawsD:
  assumes "lib_laws L E"
  shows "pb_laws (AnyPb L) zero_Any (any_enc E)" "pb_laws (HeightPb L) zero_Height (height_enc E)"
    "pb_laws (PrefixPb L) [] (prefix_enc E)"
  using assms by (auto simp: lib_laws_def)

lemmas any_laws = lib_lawsD(1) [THEN pb_lawsD(3)]
lemmas height_laws = lib_lawsD(2) [THEN pb_lawsD(3)]
lemmas prefix_laws = lib_lawsD(3) [THEN pb_lawsD(3)]
lemmas lib_marshals = lib_lawsD [THEN pb_lawsD(2)]
lemmas lib_sizes = lib_lawsD [THEN pb_lawsD(1)]

lemmas reads_simps = is_tag_def or_zero_def upd_option_def

section \<open>xx-multiv ClientState\<close>

definition multiv_ClientState_MarshalToSizedBuffer :: "pb_lib \<Rightarrow> MultivClientState \<Rightarrow> bytes \<Rightarrow> (bytes \<times> nat) outcome" where
  "multiv_ClientState_MarshalToSizedBuffer L m = sized_buffer (\<lambda>s.
     obind (put_varint_field 0x10 (Depth m) s)
     (put_option (AnyPb L) 0xa (UnderlyingClientState m)))"

definition multiv_ClientState_Size :: "pb_lib \<Rightarrow> MultivClientState \<Rightarrow> nat" where
  "multiv_ClientState_Size L m = size_optional (AnyPb L) (UnderlyingClientState m) + size_varint (Depth m)"

definition multiv_ClientState_fields :: "pb_lib \<Rightarrow> MultivClientState field_table" where
  "multiv_ClientState_fields L m fieldNum wireType l r =
     (if fieldNum = 1 then Some (get_message (AnyPb L) (\<lambda>m. or_zero zero_Any (UnderlyingClientState m))
        (\<lambda>x m. m\<lparr>UnderlyingClientState := Some x\<rparr>) m wireType l r)
      else if fieldNum = 2 then Some (get_varint (\<lambda>v m. m\<lparr>Depth := v\<rparr>) m wireType l r)
      else None)"

definition multiv_ClientState_pb :: "pb_lib \<Rightarrow> MultivClientState pb" where
  "multiv_ClientState_pb L = \<lparr>pb_Size = multiv_ClientState_Size L,
     pb_MarshalToSizedBuffer = multiv_ClientState_MarshalToSizedBuffer L,
     pb_Unmarshal = unmarshal_with (multiv_ClientState_fields L)\<rparr>"

abbreviation zero_MultivClientState :: MultivClientState where
  "zero_MultivClientState \<equiv> \<lparr>UnderlyingClientState = None, Depth = 0\<rparr>"

definition wire_MultivClientState :: "pb_encodings \<Rightarrow> MultivClientState \<Rightarrow> bytes" where
  "wire_MultivClientState E m = wire_option (any_enc E) 0xa (UnderlyingClientState m) @ wire_varint 0x10 (Depth m)"

lemma multiv_ClientState_writes:
  "lib_laws L E \<Longrightarrow> marshals (multiv_ClientState_pb L) (wire_MultivClientState E)"
  unfolding multiv_ClientState_pb_def wire_MultivClientState_def multiv_ClientState_MarshalToSizedBuffer_def append_assoc [symmetric]
  by (intro marshals_by writes_then writes_intro lib_marshals)

lemma multiv_ClientState_reads:
  assumes "lib_laws L E"
  shows "reads (multiv_ClientState_fields L) (wire_MultivClientState E m) zero_MultivClientState m"
proof -
  let ?T = "multiv_ClientState_fields L"
  let ?m1 = "zero_MultivClientState\<lparr>UnderlyingClientState := UnderlyingClientState m\<rparr>"
  let ?m2 = "?m1\<lparr>Depth := Depth m\<rparr>"
  have f1: "reads ?T (wire_option (any_enc E) 0xa (UnderlyingClientState m)) zero_MultivClientState ?m1"
    by (rule reads_option [where num = 1 and S = "AnyPb L" and old = "\<lambda>m. or_zero zero_Any (UnderlyingClientState m)"
          and upd = "\<lambda>x m. m\<lparr>UnderlyingClientState := Some x\<rparr>"])
      (simp_all add: multiv_ClientState_fields_def reads_simps any_laws [OF assms] split: option.splits)
  have f2: "reads ?T (wire_varint 0x10 (Depth m)) ?m1 ?m2"
    by (rule reads_varint [where num = 2 and upd = "\<lambda>v m. m\<lparr>Depth := v\<rparr>"])
      (simp_all add: multiv_ClientState_fields_def reads_simps)
  have whole: "?m2 = m" by (cases m) simp
  show ?thesis
    using reads_append [OF f1 f2] unfolding whole wire_MultivClientState_def .
qed

interpretation multiv_ClientState: pb_message "lib_laws L E" "multiv_ClientState_pb L" zero_MultivClientState "wire_MultivClientState E" for L E
proof
  assume L: "lib_laws L E"
  show "pb_Size (multiv_ClientState_pb L) m = length (wire_MultivClientState E m)" for m
    by (simp add: multiv_ClientState_pb_def multiv_ClientState_Size_def wire_MultivClientState_def wire_lengths lib_sizes [OF L] split: option.splits)
  show "marshals (multiv_ClientState_pb L) (wire_MultivClientState E)"
    using L by (rule multiv_ClientState_writes)
  show "pb_Unmarshal (multiv_ClientState_pb L) zero_MultivClientState (wire_MultivClientState E m) = Ok m" if "length (wire_MultivClientState E m) < 2 ^ 63" for m
    using reads_unmarshal [OF multiv_ClientState_reads [OF L] that] by (simp add: multiv_ClientState_pb_def)
qed

section \<open>xx-multiv Proof\<close>

abbreviation zero_Proof :: Proof where
  "zero_Proof \<equiv> \<lparr>ClientProof = [], ClientState = None, ConsensusProof = [], ConsensusState = None,
     ProofHeight = zero_Height, ConsensusHeight = zero_Height\<rparr>"

definition multiv_Proof_MarshalToSizedBuffer :: "pb_lib \<Rightarrow> Proof \<Rightarrow> bytes \<Rightarrow> (bytes \<times> nat) outcome" where
  "multiv_Proof_MarshalToSizedBuffer L m = sized_buffer (\<lambda>s.
     obind (put_message (HeightPb L) 0x32 (ConsensusHeight m) s) (\<lambda>s.
     obind (put_message (HeightPb L) 0x2a (ProofHeight m) s) (\<lambda>s.
     obind (put_option (AnyPb L) 0x22 (ConsensusState m) s) (\<lambda>s.
     obind (put_bytes_field 0x1a (ConsensusProof m) s) (\<lambda>s.
     obind (put_option (AnyPb L) 0x12 (ClientState m) s) (\<lambda>s.
     put_bytes_field 0xa (ClientProof m) s))))))"

definition multiv_Proof_Size :: "pb_lib \<Rightarrow> Proof \<Rightarrow> nat" where
  "multiv_Proof_Size L m =
     size_bytes (ClientProof m) +
     size_optional (AnyPb L) (ClientState m) +
     size_bytes (ConsensusProof m) +
     size_optional (AnyPb L) (ConsensusState m) +
     size_slice (pb_Size (HeightPb L) (ProofHeight m)) +
     size_slice (pb_Size (HeightPb L) (ConsensusHeight m))"

definition multiv_Proof_fields :: "pb_lib \<Rightarrow> Proof field_table" where
  "multiv_Proof_fields L m fieldNum wireType l r =
     (if fieldNum = 1 then Some (get_bytes (\<lambda>b m. m\<lparr>ClientProof := b\<rparr>) m wireType l r)
      else if fieldNum = 2 then Some (get_message (AnyPb L) (\<lambda>m. or_zero zero_Any (ClientState m))
          (\<lambda>x m. m\<lparr>ClientState := Some x\<rparr>) m wireType l r)
      else if fieldNum = 3 then Some (get_bytes (\<lambda>b m. m\<lparr>ConsensusProof := b\<rparr>) m wireType l r)
      else if fieldNum = 4 then Some (get_message (AnyPb L) (\<lambda>m. or_zero zero_Any (ConsensusState m))
          (\<lambda>x m. m\<lparr>ConsensusState := Some x\<rparr>) m wireType l r)
      else if fieldNum = 5 then Some (get_message (HeightPb L) ProofHeight (\<lambda>x m. m\<lparr>ProofHeight := x\<rparr>) m wireType l r)
      else if fieldNum = 6 then Some (get_message (HeightPb L) ConsensusHeight (\<lambda>x m. m\<lparr>ConsensusHeight := x\<rparr>) m wireType l r)
      else None)"

definition multiv_Proof_pb :: "pb_lib \<Rightarrow> Proof pb" where
  "multiv_Proof_pb L = \<lparr>pb_Size = multiv_Proof_Size L,
     pb_MarshalToSizedBuffer = multiv_Proof_MarshalToSizedBuffer L,
     pb_Unmarshal = unmarshal_with (multiv_Proof_fields L)\<rparr>"

definition wire_Proof :: "pb_encodings \<Rightarrow> Proof \<Rightarrow> bytes" where
  "wire_Proof E m =
     wire_bytes 0xa (ClientProof m) @
     wire_option (any_enc E) 0x12 (ClientState m) @
     wire_bytes 0x1a (ConsensusProof m) @
     wire_option (any_enc E) 0x22 (ConsensusState m) @
     wire_slice 0x2a (height_enc E (ProofHeight m)) @
     wire_slice 0x32 (height_enc E (ConsensusHeight m))"

lemma multiv_Proof_writes:
  "lib_laws L E \<Longrightarrow> marshals (multiv_Proof_pb L) (wire_Proof E)"
  unfolding multiv_Proof_pb_def wire_Proof_def multiv_Proof_MarshalToSizedBuffer_def append_assoc [symmetric]
  by (intro marshals_by writes_then writes_intro lib_marshals)

lemma multiv_Proof_reads:
  assumes "lib_laws L E"
  shows "reads (multiv_Proof_fields L) (wire_Proof E m) zero_Proof m"
proof -
  let ?T = "multiv_Proof_fields L"
  let ?m1 = "zero_Proof\<lparr>ClientProof := ClientProof m\<rparr>"
  let ?m2 = "?m1\<lparr>ClientState := ClientState m\<rparr>"
  let ?m3 = "?m2\<lparr>ConsensusProof := ConsensusProof m\<rparr>"
  let ?m4 = "?m3\<lparr>ConsensusState := ConsensusState m\<rparr>"
  let ?m5 = "?m4\<lparr>ProofHeight := ProofHeight m\<rparr>"
  let ?m6 = "?m5\<lparr>ConsensusHeight := ConsensusHeight m\<rparr>"
  have f1: "reads ?T (wire_bytes 0xa (ClientProof m)) zero_Proof ?m1"
    by (rule reads_bytes [where num = 1 and upd = "\<lambda>b m. m\<lparr>ClientProof := b\<rparr>"])
      (simp_all add: multiv_Proof_fields_def reads_simps)
  have f2: "reads ?T (wire_option (any_enc E) 0x12 (ClientState m)) ?m1 ?m2"
    by (rule reads_option [where num = 2 and S = "AnyPb L" and old = "\<lambda>m. or_zero zero_Any (ClientState m)"
          and upd = "\<lambda>x m. m\<lparr>ClientState := Some x\<rparr>"])
      (simp_all add: multiv_Proof_fields_def reads_simps any_laws [OF assms] split: option.splits)
  have f3: "reads ?T (wire_bytes 0x1a (ConsensusProof m)) ?m2 ?m3"
    by (rule reads_bytes [where num = 3 and upd = "\<lambda>b m. m\<lparr>ConsensusProof := b\<rparr>"])
      (simp_all add: multiv_Proof_fields_def reads_simps)
  have f4: "reads ?T (wire_option (any_enc E) 0x22 (ConsensusState m)) ?m3 ?m4"
    by (rule reads_option [where num = 4 and S = "AnyPb L" and old = "\<lambda>m. or_zero zero_Any (ConsensusState m)"
          and upd = "\<lambda>x m. m\<lparr>ConsensusState := Some x\<rparr>"])
      (simp_all add: multiv_Proof_fields_def reads_simps any_laws [OF assms] split: option.splits)
  have f5: "reads ?T (wire_slice 0x2a (height_enc E (ProofHeight m))) ?m4 ?m5"
    by (rule reads_message [where num = 5 and S = "HeightPb L" and old = ProofHeight and upd = "\<lambda>x m. m\<lparr>ProofHeight := x\<rparr>"])
      (simp_all add: multiv_Proof_fields_def reads_simps height_laws [OF assms])
  have f6: "reads ?T (wire_slice 0x32 (height_enc E (ConsensusHeight m))) ?m5 ?m6"
    by (rule reads_message [where num = 6 and S = "HeightPb L" and old = ConsensusHeight and upd = "\<lambda>x m. m\<lparr>ConsensusHeight := x\<rparr>"])
      (simp_all add: multiv_Proof_fields_def reads_simps height_laws [OF assms])
  have whole: "?m6 = m" by (cases m) simp
  show ?thesis
    using reads_append [OF f1 reads_append [OF f2 reads_append [OF f3 reads_append [OF f4 reads_append [OF f5 f6]]]]] unfolding whole wire_Proof_def .
qed

interpretation multiv_Proof: pb_message "lib_laws L E" "multiv_Proof_pb L" zero_Proof "wire_Proof E" for L E
proof
  assume L: "lib_laws L E"
  show "pb_Size (multiv_Proof_pb L) m = length (wire_Proof E m)" for m
    by (simp add: multiv_Proof_pb_def multiv_Proof_Size_def wire_Proof_def wire_lengths lib_sizes [OF L] split: option.splits)
  show "marshals (multiv_Proof_pb L) (wire_Proof E)"
    using L by (rule multiv_Proof_writes)
  show "pb_Unmarshal (multiv_Proof_pb L) zero_Proof (wire_Proof E m) = Ok m" if "length (wire_Proof E m) < 2 ^ 63" for m
    using reads_unmarshal [OF multiv_Proof_reads [OF L] that] by (simp add: multiv_Proof_pb_def)
qed

section \<open>xx-multiv LeafProof\<close>

abbreviation zero_LeafProof :: LeafProof where
  "zero_LeafProof \<equiv> \<lparr>LfProof = [], LfProofHeight = zero_Height\<rparr>"

definition multiv_LeafProof_MarshalToSizedBuffer :: "pb_lib \<Rightarrow> LeafProof \<Rightarrow> bytes \<Rightarrow> (bytes \<times> nat) outcome" where
  "multiv_LeafProof_MarshalToSizedBuffer L m = sized_buffer (\<lambda>s.
     obind (put_message (HeightPb L) 0x12 (LfProofHeight m) s) (\<lambda>s.
     put_bytes_field 0xa (LfProof m) s))"

definition multiv_LeafProof_Size :: "pb_lib \<Rightarrow> LeafProof \<Rightarrow> nat" where
  "multiv_LeafProof_Size L m =
     size_bytes (LfProof m) +
     size_slice (pb_Size (HeightPb L) (LfProofHeight m))"

definition multiv_LeafProof_fields :: "pb_lib \<Rightarrow> LeafProof field_table" where
  "multiv_LeafProof_fields L m fieldNum wireType l r =
     (if fieldNum = 1 then Some (get_bytes (\<lambda>b m. m\<lparr>LfProof := b\<rparr>) m wireType l r)
      else if fieldNum = 2 then Some (get_message (HeightPb L) LfProofHeight (\<lambda>x m. m\<lparr>LfProofHeight := x\<rparr>) m wireType l r)
      else None)"

definition multiv_LeafProof_pb :: "pb_lib \<Rightarrow> LeafProof pb" where
  "multiv_LeafProof_pb L = \<lparr>pb_Size = multiv_LeafProof_Size L,
     pb_MarshalToSizedBuffer = multiv_LeafProof_MarshalToSizedBuffer L,
     pb_Unmarshal = unmarshal_with (multiv_LeafProof_fields L)\<rparr>"

definition wire_LeafProof :: "pb_encodings \<Rightarrow> LeafProof \<Rightarrow> bytes" where
  "wire_LeafProof E m =
     wire_bytes 0xa (LfProof m) @
     wire_slice 0x12 (height_enc E (LfProofHeight m))"

lemma multiv_LeafProof_writes:
  "lib_laws L E \<Longrightarrow> marshals (multiv_LeafProof_pb L) (wire_LeafProof E)"
  unfolding multiv_LeafProof_pb_def wire_LeafProof_def multiv_LeafProof_MarshalToSizedBuffer_def append_assoc [symmetric]
  by (intro marshals_by writes_then writes_intro lib_marshals)

lemma multiv_LeafProof_reads:
  assumes "lib_laws L E"
  shows "reads (multiv_LeafProof_fields L) (wire_LeafProof E m) zero_LeafProof m"
proof -
  let ?T = "multiv_LeafProof_fields L"
  let ?m1 = "zero_LeafProof\<lparr>LfProof := LfProof m\<rparr>"
  let ?m2 = "?m1\<lparr>LfProofHeight := LfProofHeight m\<rparr>"
  have f1: "reads ?T (wire_bytes 0xa (LfProof m)) zero_LeafProof ?m1"
    by (rule reads_bytes [where num = 1 and upd = "\<lambda>b m. m\<lparr>LfProof := b\<rparr>"])
      (simp_all add: multiv_LeafProof_fields_def reads_simps)
  have f2: "reads ?T (wire_slice 0x12 (height_enc E (LfProofHeight m))) ?m1 ?m2"
    by (rule reads_message [where num = 2 and S = "HeightPb L" and old = LfProofHeight and upd = "\<lambda>x m. m\<lparr>LfProofHeight := x\<rparr>"])
      (simp_all add: multiv_LeafProof_fields_def reads_simps height_laws [OF assms])
  have whole: "?m2 = m" by (cases m) simp
  show ?thesis
    using reads_append [OF f1 f2] unfolding whole wire_LeafProof_def .
qed

interpretation multiv_LeafProof: pb_message "lib_laws L E" "multiv_LeafProof_pb L" zero_LeafProof "wire_LeafProof E" for L E
proof
  assume L: "lib_laws L E"
  show "pb_Size (multiv_LeafProof_pb L) m = length (wire_LeafProof E m)" for m
    by (simp add: multiv_LeafProof_pb_def multiv_LeafProof_Size_def wire_LeafProof_def wire_lengths lib_sizes [OF L] split: option.splits)
  show "marshals (multiv_LeafProof_pb L) (wire_LeafProof E)"
    using L by (rule multiv_LeafProof_writes)
  show "pb_Unmarshal (multiv_LeafProof_pb L) zero_LeafProof (wire_LeafProof E m) = Ok m" if "length (wire_LeafProof E m) < 2 ^ 63" for m
    using reads_unmarshal [OF multiv_LeafProof_reads [OF L] that] by (simp add: multiv_LeafProof_pb_def)
qed

section \<open>xx-multiv MultiProof\<close>

abbreviation zero_MultiProof :: MultiProof where
  "zero_MultiProof \<equiv> \<lparr>Head = zero_Proof, Branches = [], Leaf = zero_LeafProof\<rparr>"

definition multiv_MultiProof_MarshalToSizedBuffer :: "pb_lib \<Rightarrow> MultiProof \<Rightarrow> bytes \<Rightarrow> (bytes \<times> nat) outcome" where
  "multiv_MultiProof_MarshalToSizedBuffer L m = sized_buffer (\<lambda>s.
     obind (put_message (multiv_LeafProof_pb L) 0x1a (Leaf m) s) (\<lambda>s.
     obind (put_repeated (multiv_Proof_pb L) 0x12 (Branches m) s) (\<lambda>s.
     put_message (multiv_Proof_pb L) 0xa (Head m) s)))"

definition multiv_MultiProof_Size :: "pb_lib \<Rightarrow> MultiProof \<Rightarrow> nat" where
  "multiv_MultiProof_Size L m =
     size_slice (pb_Size (multiv_Proof_pb L) (Head m)) +
     sum_list (map (\<lambda>e. size_slice (pb_Size (multiv_Proof_pb L) e)) (Branches m)) +
     size_slice (pb_Size (multiv_LeafProof_pb L) (Leaf m))"

definition multiv_MultiProof_fields :: "pb_lib \<Rightarrow> MultiProof field_table" where
  "multiv_MultiProof_fields L m fieldNum wireType l r =
     (if fieldNum = 1 then Some (get_message (multiv_Proof_pb L) Head (\<lambda>x m. m\<lparr>Head := x\<rparr>) m wireType l r)
      else if fieldNum = 2 then Some (get_message (multiv_Proof_pb L) (\<lambda>_. zero_Proof)
          (\<lambda>x m. m\<lparr>Branches := Branches m @ [x]\<rparr>) m wireType l r)
      else if fieldNum = 3 then Some (get_message (multiv_LeafProof_pb L) Leaf (\<lambda>x m. m\<lparr>Leaf := x\<rparr>) m wireType l r)
      else None)"

definition multiv_MultiProof_pb :: "pb_lib \<Rightarrow> MultiProof pb" where
  "multiv_MultiProof_pb L = \<lparr>pb_Size = multiv_MultiProof_Size L,
     pb_MarshalToSizedBuffer = multiv_MultiProof_MarshalToSizedBuffer L,
     pb_Unmarshal = unmarshal_with (multiv_MultiProof_fields L)\<rparr>"

definition wire_MultiProof :: "pb_encodings \<Rightarrow> MultiProof \<Rightarrow> bytes" where
  "wire_MultiProof E m =
     wire_slice 0xa (wire_Proof E (Head m)) @
     wire_repeated (wire_Proof E) 0x12 (Branches m) @
     wire_slice 0x1a (wire_LeafProof E (Leaf m))"

lemma multiv_MultiProof_writes:
  "lib_laws L E \<Longrightarrow> marshals (multiv_MultiProof_pb L) (wire_MultiProof E)"
  unfolding multiv_MultiProof_pb_def wire_MultiProof_def multiv_MultiProof_MarshalToSizedBuffer_def append_assoc [symmetric]
  by (intro marshals_by writes_then writes_intro lib_marshals multiv_Proof.marshal_enc multiv_LeafProof.marshal_enc)

lemma fold_branches: "fold (\<lambda>x m. m\<lparr>Branches := Branches m @ [x]\<rparr>) ps m = (m :: MultiProof)\<lparr>Branches := Branches m @ ps\<rparr>"
  by (induction ps arbitrary: m) simp_all

lemma multiv_MultiProof_reads:
  assumes "lib_laws L E"
  shows "reads (multiv_MultiProof_fields L) (wire_MultiProof E m) zero_MultiProof m"
proof -
  let ?T = "multiv_MultiProof_fields L"
  let ?m1 = "zero_MultiProof\<lparr>Head := Head m\<rparr>"
  let ?m2 = "?m1\<lparr>Branches := Branches m\<rparr>"
  let ?m3 = "?m2\<lparr>Leaf := Leaf m\<rparr>"
  have f1: "reads ?T (wire_slice 0xa (wire_Proof E (Head m))) zero_MultiProof ?m1"
    by (rule reads_message [where num = 1 and S = "multiv_Proof_pb L" and old = Head and upd = "\<lambda>x m. m\<lparr>Head := x\<rparr>"])
      (simp_all add: multiv_MultiProof_fields_def reads_simps multiv_Proof.unmarshal_enc [OF assms])
  have f2: "reads ?T (wire_repeated (wire_Proof E) 0x12 (Branches m)) ?m1 ?m2"
    by (rule reads_repeated [where num = 2 and S = "multiv_Proof_pb L" and z = zero_Proof and upd = "\<lambda>x m. m\<lparr>Branches := Branches m @ [x]\<rparr>"])
      (simp_all add: multiv_MultiProof_fields_def reads_simps multiv_Proof.unmarshal_enc [OF assms] fold_branches)
  have f3: "reads ?T (wire_slice 0x1a (wire_LeafProof E (Leaf m))) ?m2 ?m3"
    by (rule reads_message [where num = 3 and S = "multiv_LeafProof_pb L" and old = Leaf and upd = "\<lambda>x m. m\<lparr>Leaf := x\<rparr>"])
      (simp_all add: multiv_MultiProof_fields_def reads_simps multiv_LeafProof.unmarshal_enc [OF assms])
  have whole: "?m3 = m" by (cases m) simp
  show ?thesis
    using reads_append [OF f1 reads_append [OF f2 f3]] unfolding whole wire_MultiProof_def .
qed

interpretation multiv_MultiProof: pb_message "lib_laws L E" "multiv_MultiProof_pb L" zero_MultiProof "wire_MultiProof E" for L E
proof
  assume L: "lib_laws L E"
  show "pb_Size (multiv_MultiProof_pb L) m = length (wire_MultiProof E m)" for m
    by (simp add: multiv_MultiProof_pb_def multiv_MultiProof_Size_def wire_MultiProof_def wire_lengths lib_sizes [OF L] multiv_Proof.size_enc [OF L] multiv_LeafProof.size_enc [OF L] split: option.splits)
  show "marshals (multiv_MultiProof_pb L) (wire_MultiProof E)"
    using L by (rule multiv_MultiProof_writes)
  show "pb_Unmarshal (multiv_MultiProof_pb L) zero_MultiProof (wire_MultiProof E m) = Ok m" if "length (wire_MultiProof E m) < 2 ^ 63" for m
    using reads_unmarshal [OF multiv_MultiProof_reads [OF L] that] by (simp add: multiv_MultiProof_pb_def)
qed

section \<open>xx-proxy ClientState\<close>

abbreviation zero_ProxyClientState :: ProxyClientState where
  "zero_ProxyClientState \<equiv> \<lparr>ProxyClientStateAny = None, UpstreamClientId = [], ProxyPrefix = None, IbcPrefix = None\<rparr>"

definition proxy_ClientState_MarshalToSizedBuffer :: "pb_lib \<Rightarrow> ProxyClientState \<Rightarrow> bytes \<Rightarrow> (bytes \<times> nat) outcome" where
  "proxy_ClientState_MarshalToSizedBuffer L m = sized_buffer (\<lambda>s.
     obind (put_option (PrefixPb L) 0x22 (IbcPrefix m) s) (\<lambda>s.
     obind (put_option (PrefixPb L) 0x1a (ProxyPrefix m) s) (\<lambda>s.
     obind (put_bytes_field 0x12 (string_bytes (UpstreamClientId m)) s) (\<lambda>s.
     put_option (AnyPb L) 0xa (ProxyClientStateAny m) s))))"

definition proxy_ClientState_Size :: "pb_lib \<Rightarrow> ProxyClientState \<Rightarrow> nat" where
  "proxy_ClientState_Size L m =
     size_optional (AnyPb L) (ProxyClientStateAny m) +
     size_bytes (string_bytes (UpstreamClientId m)) +
     size_optional (PrefixPb L) (ProxyPrefix m) +
     size_optional (PrefixPb L) (IbcPrefix m)"

definition proxy_ClientState_fields :: "pb_lib \<Rightarrow> ProxyClientState field_table" where
  "proxy_ClientState_fields L m fieldNum wireType l r =
     (if fieldNum = 1 then Some (get_message (AnyPb L) (\<lambda>m. or_zero zero_Any (ProxyClientStateAny m))
          (\<lambda>x m. m\<lparr>ProxyClientStateAny := Some x\<rparr>) m wireType l r)
      else if fieldNum = 2 then Some (get_bytes (\<lambda>b m. m\<lparr>UpstreamClientId := bytes_string b\<rparr>) m wireType l r)
      else if fieldNum = 3 then Some (get_message (PrefixPb L) (\<lambda>m. or_zero [] (ProxyPrefix m))
          (\<lambda>x m. m\<lparr>ProxyPrefix := Some x\<rparr>) m wireType l r)
      else if fieldNum = 4 then Some (get_message (PrefixPb L) (\<lambda>m. or_zero [] (IbcPrefix m))
          (\<lambda>x m. m\<lparr>IbcPrefix := Some x\<rparr>) m wireType l r)
      else None)"

definition proxy_ClientState_pb :: "pb_lib \<Rightarrow> ProxyClientState pb" where
  "proxy_ClientState_pb L = \<lparr>pb_Size = proxy_ClientState_Size L,
     pb_MarshalToSizedBuffer = proxy_ClientState_MarshalToSizedBuffer L,
     pb_Unmarshal = unmarshal_with (proxy_ClientState_fields L)\<rparr>"

definition wire_ProxyClientState :: "pb_encodings \<Rightarrow> ProxyClientState \<Rightarrow> bytes" where
  "wire_ProxyClientState E m =
     wire_option (any_enc E) 0xa (ProxyClientStateAny m) @
     wire_bytes 0x12 (string_bytes (UpstreamClientId m)) @
     wire_option (prefix_enc E) 0x1a (ProxyPrefix m) @
     wire_option (prefix_enc E) 0x22 (IbcPrefix m)"

lemma proxy_ClientState_writes:
  "lib_laws L E \<Longrightarrow> marshals (proxy_ClientState_pb L) (wire_ProxyClientState E)"
  unfolding proxy_ClientState_pb_def wire_ProxyClientState_def proxy_ClientState_MarshalToSizedBuffer_def append_assoc [symmetric]
  by (intro marshals_by writes_then writes_intro lib_marshals)

lemma proxy_ClientState_reads:
  assumes "lib_laws L E"
  shows "reads (proxy_ClientState_fields L) (wire_ProxyClientState E m) zero_ProxyClientState m"
proof -
  let ?T = "proxy_ClientState_fields L"
  let ?m1 = "zero_ProxyClientState\<lparr>ProxyClientStateAny := ProxyClientStateAny m\<rparr>"
  let ?m2 = "?m1\<lparr>UpstreamClientId := UpstreamClientId m\<rparr>"
  let ?m3 = "?m2\<lparr>ProxyPrefix := ProxyPrefix m\<rparr>"
  let ?m4 = "?m3\<lparr>IbcPrefix := IbcPrefix m\<rparr>"
  have f1: "reads ?T (wire_option (any_enc E) 0xa (ProxyClientStateAny m)) zero_ProxyClientState ?m1"
    by (rule reads_option [where num = 1 and S = "AnyPb L" and old = "\<lambda>m. or_zero zero_Any (ProxyClientStateAny m)"
          and upd = "\<lambda>x m. m\<lparr>ProxyClientStateAny := Some x\<rparr>"])
      (simp_all add: proxy_ClientState_fields_def reads_simps any_laws [OF assms] split: option.splits)
  have f2: "reads ?T (wire_bytes 0x12 (string_bytes (UpstreamClientId m))) ?m1 ?m2"
    by (rule reads_string [where num = 2 and upd = "\<lambda>s m. m\<lparr>UpstreamClientId := s\<rparr>"])
      (simp_all add: proxy_ClientState_fields_def reads_simps)
  have f3: "reads ?T (wire_option (prefix_enc E) 0x1a (ProxyPrefix m)) ?m2 ?m3"
    by (rule reads_option [where num = 3 and S = "PrefixPb L" and old = "\<lambda>m. or_zero [] (ProxyPrefix m)"
          and upd = "\<lambda>x m. m\<lparr>ProxyPrefix := Some x\<rparr>"])
      (simp_all add: proxy_ClientState_fields_def reads_simps prefix_laws [OF assms] split: option.splits)
  have f4: "reads ?T (wire_option (prefix_enc E) 0x22 (IbcPrefix m)) ?m3 ?m4"
    by (rule reads_option [where num = 4 and S = "PrefixPb L" and old = "\<lambda>m. or_zero [] (IbcPrefix m)"
          and upd = "\<lambda>x m. m\<lparr>IbcPrefix := Some x\<rparr>"])
      (simp_all add: proxy_ClientState_fields_def reads_simps prefix_laws [OF assms] split: option.splits)
  have whole: "?m4 = m" by (cases m) simp
  show ?thesis
    using reads_append [OF f1 reads_append [OF f2 reads_append [OF f3 f4]]] unfolding whole wire_ProxyClientState_def .
qed

interpretation proxy_ClientState: pb_message "lib_laws L E" "proxy_ClientState_pb L" zero_ProxyClientState "wire_ProxyClientState E" for L E
proof
  assume L: "lib_laws L E"
  show "pb_Size (proxy_ClientState_pb L) m = length (wire_ProxyClientState E m)" for m
    by (simp add: proxy_ClientState_pb_def proxy_ClientState_Size_def wire_ProxyClientState_def wire_lengths lib_sizes [OF L] split: option.splits)
  show "marshals (proxy_ClientState_pb L) (wire_ProxyClientState E)"
    using L by (rule proxy_ClientState_writes)
  show "pb_Unmarshal (proxy_ClientState_pb L) zero_ProxyClientState (wire_ProxyClientState E m) = Ok m" if "length (wire_ProxyClientState E m) < 2 ^ 63" for m
    using reads_unmarshal [OF proxy_ClientState_reads [OF L] that] by (simp add: proxy_ClientState_pb_def)
qed

section \<open>xx-proxy ConsensusState\<close>

abbreviation zero_ProxyConsensusState :: ProxyConsensusState where
  "zero_ProxyConsensusState \<equiv> \<lparr>ProxyConsensusStateAny = None\<rparr>"

definition proxy_ConsensusState_MarshalToSizedBuffer :: "pb_lib \<Rightarrow> ProxyConsensusState \<Rightarrow> bytes \<Rightarrow> (bytes \<times> nat) outcome" where
  "proxy_ConsensusState_MarshalToSizedBuffer L m = sized_buffer (\<lambda>s.
     put_option (AnyPb L) 0xa (ProxyConsensusStateAny m) s)"

definition proxy_ConsensusState_Size :: "pb_lib \<Rightarrow> ProxyConsensusState \<Rightarrow> nat" where
  "proxy_ConsensusState_Size L m =
     size_optional (AnyPb L) (ProxyConsensusStateAny m)"

definition proxy_ConsensusState_fields :: "pb_lib \<Rightarrow> ProxyConsensusState field_table" where
  "proxy_ConsensusState_fields L m fieldNum wireType l r =
     (if fieldNum = 1 then Some (get_message (AnyPb L) (\<lambda>m. or_zero zero_Any (ProxyConsensusStateAny m))
          (\<lambda>x m. m\<lparr>ProxyConsensusStateAny := Some x\<rparr>) m wireType l r)
      else None)"

definition proxy_ConsensusState_pb :: "pb_lib \<Rightarrow> ProxyConsensusState pb" where
  "proxy_ConsensusState_pb L = \<lparr>pb_Size = proxy_ConsensusState_Size L,
     pb_MarshalToSizedBuffer = proxy_ConsensusState_MarshalToSizedBuffer L,
     pb_Unmarshal = unmarshal_with (proxy_ConsensusState_fields L)\<rparr>"

definition wire_ProxyConsensusState :: "pb_encodings \<Rightarrow> ProxyConsensusState \<Rightarrow> bytes" where
  "wire_ProxyConsensusState E m =
     wire_option (any_enc E) 0xa (ProxyConsensusStateAny m)"

lemma proxy_ConsensusState_writes:
  "lib_laws L E \<Longrightarrow> marshals (proxy_ConsensusState_pb L) (wire_ProxyConsensusState E)"
  unfolding proxy_ConsensusState_pb_def wire_ProxyConsensusState_def proxy_ConsensusState_MarshalToSizedBuffer_def append_assoc [symmetric]
  by (intro marshals_by writes_then writes_intro lib_marshals)

lemma proxy_ConsensusState_reads:
  assumes "lib_laws L E"
  shows "reads (proxy_ConsensusState_fields L) (wire_ProxyConsensusState E m) zero_ProxyConsensusState m"
proof -
  let ?T = "proxy_ConsensusState_fields L"
  let ?m1 = "zero_ProxyConsensusState\<lparr>ProxyConsensusStateAny := ProxyConsensusStateAny m\<rparr>"
  have f1: "reads ?T (wire_option (any_enc E) 0xa (ProxyConsensusStateAny m)) zero_ProxyConsensusState ?m1"
    by (rule reads_option [where num = 1 and S = "AnyPb L" and old = "\<lambda>m. or_zero zero_Any (ProxyConsensusStateAny m)"
          and upd = "\<lambda>x m. m\<lparr>ProxyConsensusStateAny := Some x\<rparr>"])
      (simp_all add: proxy_ConsensusState_fields_def reads_simps any_laws [OF assms] split: option.splits)
  have whole: "?m1 = m" by (cases m) simp
  show ?thesis
    using f1 unfolding whole wire_ProxyConsensusState_def .
qed

interpretation proxy_ConsensusState: pb_message "lib_laws L E" "proxy_ConsensusState_pb L" zero_ProxyConsensusState "wire_ProxyConsensusState E" for L E
proof
  assume L: "lib_laws L E"
  show "pb_Size (proxy_ConsensusState_pb L) m = length (wire_ProxyConsensusState E m)" for m
    by (simp add: proxy_ConsensusState_pb_def proxy_ConsensusState_Size_def wire_ProxyConsensusState_def wire_lengths lib_sizes [OF L] split: option.splits)
  show "marshals (proxy_ConsensusState_pb L) (wire_ProxyConsensusState E)"
    using L by (rule proxy_ConsensusState_writes)
  show "pb_Unmarshal (proxy_ConsensusState_pb L) zero_ProxyConsensusState (wire_ProxyConsensusState E m) = Ok m" if "length (wire_ProxyConsensusState E m) < 2 ^ 63" for m
    using reads_unmarshal [OF proxy_ConsensusState_reads [OF L] that] by (simp add: proxy_ConsensusState_pb_def)
qed

section \<open>Unmarshal returns\<close>

lemma lib_returnsD:
  assumes "lib_returns L"
  shows "pb_Unmarshal (AnyPb L) m b \<noteq> Diverge" "pb_Unmarshal (HeightPb L) h b \<noteq> Diverge"
    "pb_Unmarshal (PrefixPb L) p b \<noteq> Diverge"
  using assms by (auto simp: lib_returns_def pb_returns_def)

lemma multiv_ClientState_returns: "lib_returns L \<Longrightarrow> pb_Unmarshal (multiv_ClientState_pb L) m b \<noteq> Diverge"
  unfolding multiv_ClientState_pb_def pb.simps
  by (rule unmarshal_with_returns) (auto simp: multiv_ClientState_fields_def fields_ok lib_returnsD split: if_splits)

lemma multiv_Proof_returns: "lib_returns L \<Longrightarrow> pb_Unmarshal (multiv_Proof_pb L) m b \<noteq> Diverge"
  unfolding multiv_Proof_pb_def pb.simps
  by (rule unmarshal_with_returns) (auto simp: multiv_Proof_fields_def fields_ok lib_returnsD split: if_splits)

lemma multiv_LeafProof_returns: "lib_returns L \<Longrightarrow> pb_Unmarshal (multiv_LeafProof_pb L) m b \<noteq> Diverge"
  unfolding multiv_LeafProof_pb_def pb.simps
  by (rule unmarshal_with_returns) (auto simp: multiv_LeafProof_fields_def fields_ok lib_returnsD split: if_splits)

lemma multiv_MultiProof_returns: "lib_returns L \<Longrightarrow> pb_Unmarshal (multiv_MultiProof_pb L) m b \<noteq> Diverge"
  unfolding multiv_MultiProof_pb_def pb.simps
  by (rule unmarshal_with_returns)
    (auto simp: multiv_MultiProof_fields_def fields_ok multiv_Proof_returns multiv_LeafProof_returns split: if_splits)

lemma proxy_ClientState_returns: "lib_returns L \<Longrightarrow> pb_Unmarshal (proxy_ClientState_pb L) m b \<noteq> Diverge"
  unfolding proxy_ClientState_pb_def pb.simps
  by (rule unmarshal_with_returns) (auto simp: proxy_ClientState_fields_def fields_ok lib_returnsD split: if_splits)

lemma proxy_ConsensusState_returns: "lib_returns L \<Longrightarrow> pb_Unmarshal (proxy_ConsensusState_pb L) m b \<noteq> Diverge"
  unfolding proxy_ConsensusState_pb_def pb.simps
  by (rule unmarshal_with_returns) (auto simp: proxy_ConsensusState_fields_def fields_ok lib_returnsD split: if_splits)

end
