(* ===== verification/Wire_Bounds.thy ===== *)
theory Wire_Bounds
  imports Light_Client_Wire Client_Dispatch
begin

text \<open>
  What \<open>Unmarshal\<close> builds is no larger than its input: every byte of a field of the message
  comes from a byte of the wire, and every branch costs a tag and a length. The measures
  are those by which the dispatch of the light clients ends (\<open>Client_Dispatch\<close>).
\<close>

section \<open>Bounded readers\<close>

text \<open>A case of the switch adds at most what it consumes, besides the byte of its tag.\<close>

definition field_bounded :: "('m \<Rightarrow> nat) \<Rightarrow> 'm \<Rightarrow> ('m \<times> bytes) outcome \<Rightarrow> bytes \<Rightarrow> bool" where
  "field_bounded \<mu> m x r \<longleftrightarrow> (\<forall>m' r'. x = Ok (m', r') \<longrightarrow> \<mu> m' + length r' \<le> \<mu> m + length r)"

definition pb_bounded :: "('m \<Rightarrow> nat) \<Rightarrow> 'm pb \<Rightarrow> bool" where
  "pb_bounded \<mu> S \<longleftrightarrow> (\<forall>m b m'. pb_Unmarshal S m b = Ok m' \<longrightarrow> \<mu> m' \<le> \<mu> m + length b)"

lemma pb_boundedD: "pb_bounded \<mu> S \<Longrightarrow> pb_Unmarshal S m b = Ok m' \<Longrightarrow> \<mu> m' \<le> \<mu> m + length b"
  by (simp add: pb_bounded_def)

lemma read_slice_length: "read_slice l r = Ok (b, r') \<Longrightarrow> length b + length r' < length r"
  by (auto simp: read_slice_def Let_def obind_Ok_iff split: if_splits dest!: read_varint_shorter)

lemma get_bytes_bounded:
  assumes "\<And>b. \<mu> (upd b m) \<le> \<mu> m + length b"
  shows "field_bounded \<mu> m (get_bytes upd m w l r) r"
  unfolding field_bounded_def
proof (intro allI impI)
  fix m' r' assume "get_bytes upd m w l r = Ok (m', r')"
  then obtain b where "m' = upd b m" and "read_slice l r = Ok (b, r')"
    by (auto simp: get_bytes_def obind_Ok_iff split: if_splits)
  with assms [of b] show "\<mu> m' + length r' \<le> \<mu> m + length r" by (auto dest: read_slice_length)
qed

lemma get_varint_bounded:
  fixes upd :: "'a::len word \<Rightarrow> 'm \<Rightarrow> 'm"
  assumes "\<And>v. \<mu> (upd v m) \<le> \<mu> m"
  shows "field_bounded \<mu> m (get_varint upd m w l r) r"
  unfolding field_bounded_def
proof (intro allI impI)
  fix m' r' assume "get_varint upd m w l r = Ok (m', r')"
  then obtain v where "m' = upd v m" and "read_varint r 0 (0 :: 'a word) = Ok (v, r')"
    by (auto simp: get_varint_def obind_Ok_iff split: if_splits)
  with assms [of v] show "\<mu> m' + length r' \<le> \<mu> m + length r" by (auto dest: read_varint_shorter)
qed

text \<open>
  A message field: the length that precedes it pays for one more, so that a new element of a
  list may count one.
\<close>

lemma get_message_bounded:
  assumes "pb_bounded \<nu> S" and "\<And>x. \<mu> (upd x m) + \<nu> (old m) \<le> \<mu> m + \<nu> x + 1"
  shows "field_bounded \<mu> m (get_message S old upd m w l r) r"
  unfolding field_bounded_def
proof (intro allI impI)
  fix m' r' assume "get_message S old upd m w l r = Ok (m', r')"
  then obtain b x where "m' = upd x m" and "read_slice l r = Ok (b, r')" and "pb_Unmarshal S (old m) b = Ok x"
    by (auto simp: get_message_def obind_Ok_iff split: if_splits)
  with assms(2) [of x] pb_boundedD [OF assms(1)] read_slice_length [of l r b r']
  show "\<mu> m' + length r' \<le> \<mu> m + length r" by fastforce
qed

lemma unmarshal_loop_bounded:
  assumes "\<And>m num w l r x. table m num w l r = Some x \<Longrightarrow> field_bounded \<mu> m x r"
  shows "unmarshal_loop table l n r m = Ok m' \<Longrightarrow> \<mu> m' \<le> \<mu> m + length r"
proof (induction n arbitrary: r m)
  case (Suc n)
  show ?case
  proof (cases "r = []")
    case False
    with Suc.prems obtain wire r1 where r1: "read_varint r 0 (0 :: u64) = Ok (wire, r1)"
      by (auto simp: obind_Ok_iff Let_def)
    have shorter: "length r1 < length r" using r1 by (rule read_varint_shorter)
    let ?field = "table m (unat (ucast (drop_bit 3 wire) :: 32 word)) (unat (wire AND 7)) l r1"
    show ?thesis
    proof (cases ?field)
      case None
      with Suc.prems r1 False obtain k where "unmarshal_loop table l n (drop k r) m = Ok m'"
        by (auto simp: obind_Ok_iff Let_def split: if_splits)
      from Suc.IH [OF this] show ?thesis by simp
    next
      case (Some x)
      with Suc.prems r1 False obtain m2 r2 where "x = Ok (m2, r2)" and run: "unmarshal_loop table l n r2 m2 = Ok m'"
        by (auto simp: obind_Ok_iff Let_def split: if_splits)
      with assms [OF Some] have "\<mu> m2 + length r2 \<le> \<mu> m + length r1" by (simp add: field_bounded_def)
      with Suc.IH [OF run] shorter show ?thesis by simp
    qed
  qed (use Suc.prems in simp)
qed (auto split: if_splits)

lemma unmarshal_with_bounded:
  assumes "\<And>m num w l r x. table m num w l r = Some x \<Longrightarrow> field_bounded \<mu> m x r"
  shows "unmarshal_with table m b = Ok m' \<Longrightarrow> \<mu> m' \<le> \<mu> m + length b"
  unfolding unmarshal_with_def by (rule unmarshal_loop_bounded [OF assms])

lemmas fields_bounded = get_bytes_bounded get_varint_bounded get_message_bounded

section \<open>The messages of the light clients\<close>

text \<open>The bound that the imported messages keep: an \<open>Any\<close> holds no more than its bytes.\<close>

definition lib_bounded :: "pb_lib \<Rightarrow> bool" where
  "lib_bounded L \<longleftrightarrow> pb_bounded (\<lambda>a. length (AnyValue a)) (AnyPb L)"

lemma any_size_simps [simp]: "any_size None = 0" "any_size (Some a) = length (AnyValue a)"
  by (simp_all add: any_size_def)

lemma length_or_zero: "length (AnyValue (or_zero zero_Any v)) = any_size v"
  by (cases v) (simp_all add: or_zero_def)

lemma pb_bounded_zero: "pb_bounded (\<lambda>_. 0) S"
  by (simp add: pb_bounded_def)

lemma get_unmeasured:
  shows "(\<And>x. \<mu> (upd x m) \<le> \<mu> m) \<Longrightarrow> field_bounded \<mu> m (get_message (HeightPb L) old upd m w l r) r"
    and "(\<And>x. \<mu> (upd' x m) \<le> \<mu> m) \<Longrightarrow> field_bounded \<mu> m (get_message (PrefixPb L) old' upd' m w l r) r"
  by (rule get_message_bounded [OF pb_bounded_zero]; simp add: le_SucI)+

lemma get_any_bounded:
  assumes "lib_bounded L" and "\<And>x. \<mu> (upd x m) + any_size (sel m) \<le> \<mu> m + length (AnyValue x)"
  shows "field_bounded \<mu> m (get_message (AnyPb L) (\<lambda>m. or_zero zero_Any (sel m)) upd m w l r) r"
  using assms(1) unfolding lib_bounded_def
  by (rule get_message_bounded) (use assms(2) in \<open>simp add: length_or_zero le_SucI\<close>)

text \<open>All bytes that a proof of a multi-proof carries: \<open>proof_size\<close> leaves out the consensus state.\<close>

definition proof_content :: "Proof \<Rightarrow> nat" where
  "proof_content p = proof_size p + any_size (ConsensusState p)"

definition multiproof_content :: "MultiProof \<Rightarrow> nat" where
  "multiproof_content mp = proof_content (Head mp) + sum_list (map proof_content (Branches mp)) + length (LfProof (Leaf mp))"

lemma multiproof_content_le: "multiproof_size mp \<le> multiproof_content mp"
proof -
  have "sum_list (map proof_size ps) \<le> sum_list (map proof_content ps)" for ps
    by (rule sum_list_mono) (simp add: proof_content_def)
  then show ?thesis by (simp add: multiproof_size_def multiproof_content_def proof_content_def add_mono)
qed

lemma multiv_Proof_bounded: "lib_bounded L \<Longrightarrow> pb_bounded proof_content (multiv_Proof_pb L)"
  unfolding pb_bounded_def multiv_Proof_pb_def pb.simps
  by (intro allI impI, erule unmarshal_with_bounded [rotated])
    (auto simp: multiv_Proof_fields_def proof_content_def proof_size_def
      intro!: get_bytes_bounded get_any_bounded get_unmeasured(1) split: if_splits)

lemma multiv_LeafProof_bounded: "pb_bounded (\<lambda>m. length (LfProof m)) (multiv_LeafProof_pb L)"
  unfolding pb_bounded_def multiv_LeafProof_pb_def pb.simps
  by (intro allI impI, erule unmarshal_with_bounded [rotated])
    (auto simp: multiv_LeafProof_fields_def intro!: get_bytes_bounded get_unmeasured(1) split: if_splits)

lemma multiv_MultiProof_bounded:
  assumes "lib_bounded L"
  shows "pb_bounded (\<lambda>m. multiproof_content m + length (Branches m)) (multiv_MultiProof_pb L)"
  unfolding pb_bounded_def multiv_MultiProof_pb_def pb.simps
proof (intro allI impI, erule unmarshal_with_bounded [rotated])
  fix m num w l r x
  let ?\<mu> = "\<lambda>m. multiproof_content m + length (Branches m)"
  have zero: "proof_content zero_Proof = 0" by (simp add: proof_content_def proof_size_def)
  note branch = get_message_bounded [OF multiv_Proof_bounded [OF assms], where \<mu> = ?\<mu>]
  note leaf = get_message_bounded [OF multiv_LeafProof_bounded, where \<mu> = ?\<mu>]
  have "field_bounded ?\<mu> m (get_message (multiv_Proof_pb L) Head (\<lambda>x m. m\<lparr>Head := x\<rparr>) m w l r) r"
    and "field_bounded ?\<mu> m (get_message (multiv_Proof_pb L) (\<lambda>_. zero_Proof) (\<lambda>x m. m\<lparr>Branches := Branches m @ [x]\<rparr>) m w l r) r"
    and "field_bounded ?\<mu> m (get_message (multiv_LeafProof_pb L) Leaf (\<lambda>x m. m\<lparr>Leaf := x\<rparr>) m w l r) r"
    by (rule branch leaf; simp add: multiproof_content_def zero)+
  moreover assume "multiv_MultiProof_fields L m num w l r = Some x"
  ultimately show "field_bounded ?\<mu> m x r"
    by (auto simp: multiv_MultiProof_fields_def split: if_splits)
qed

lemma multiv_ClientState_bounded:
  "lib_bounded L \<Longrightarrow> pb_bounded (\<lambda>m. any_size (UnderlyingClientState m)) (multiv_ClientState_pb L)"
  unfolding pb_bounded_def multiv_ClientState_pb_def pb.simps
  by (intro allI impI, erule unmarshal_with_bounded [rotated])
    (auto simp: multiv_ClientState_fields_def intro!: get_any_bounded get_varint_bounded split: if_splits)

lemma proxy_ClientState_bounded:
  "lib_bounded L \<Longrightarrow> pb_bounded (\<lambda>m. any_size (ProxyClientStateAny m) + length (UpstreamClientId m)) (proxy_ClientState_pb L)"
  unfolding pb_bounded_def proxy_ClientState_pb_def pb.simps
  by (intro allI impI, erule unmarshal_with_bounded [rotated])
    (auto simp: proxy_ClientState_fields_def bytes_string_def
      intro!: get_bytes_bounded get_any_bounded get_unmeasured(2) split: if_splits)

lemma proxy_ConsensusState_bounded:
  "lib_bounded L \<Longrightarrow> pb_bounded (\<lambda>m. any_size (ProxyConsensusStateAny m)) (proxy_ConsensusState_pb L)"
  unfolding pb_bounded_def proxy_ConsensusState_pb_def pb.simps
  by (intro allI impI, erule unmarshal_with_bounded [rotated])
    (auto simp: proxy_ConsensusState_fields_def intro!: get_any_bounded split: if_splits)

end
