(* ===== verification/Wire_Unknown.thy ===== *)
theory Wire_Unknown
  imports Wire_Fields
begin

text \<open>
  Fields that a message does not know: their encodings for every wire type, groups nested to
  any depth included, and the proof that \<open>skip\<close> (\<open>skipMultiv\<close>, \<open>skipProxy\<close> in the generated code)
  steps over exactly their bytes.
\<close>

section \<open>Field keys\<close>

text \<open>The key of a field: number and wire type in one varint.\<close>

definition field_key :: "nat \<Rightarrow> nat \<Rightarrow> bytes" where
  "field_key num wt = varint_bytes (word_of_nat (8 * num + wt))"

lemma field_key_nonempty [simp]: "field_key num wt \<noteq> []"
  by (simp add: field_key_def flip: length_greater_0_conv add: length_varint_bytes)

lemma read_key:
  assumes num: "num < 2 ^ 31" and wt: "wt < 8"
  obtains v :: u64 where "\<And>r. read_varint (field_key num wt @ r) 0 0 = Ok (v, r)"
    and "unat (ucast (drop_bit 3 v) :: 32 word) = num" and "sint (ucast (drop_bit 3 v) :: 32 word) = int num"
    and "unat (v AND 7) = wt"
proof -
  define v where "v = (word_of_nat (8 * num + wt) :: u64)"
  have "8 * num + wt < 2 ^ 64" using assms by simp
  then have u: "unat v = 8 * num + wt" unfolding v_def by (subst unat_of_nat) (simp add: take_bit_nat_eq_self)
  have d: "unat (drop_bit 3 v) = num"
    using wt by (simp only: unat_drop_bit_eq u) (simp add: drop_bit_eq_div)
  have n: "unat (ucast (drop_bit 3 v) :: 32 word) = num"
    using num by (simp add: unsigned_ucast_eq d take_bit_nat_eq_self del: drop_bit_eq_div)
  have "sint (ucast (drop_bit 3 v) :: 32 word) = int num"
    using n num by (simp add: sint_uint uint_nat signed_take_bit_int_eq_self del: drop_bit_eq_div of_nat_unat)
  moreover have "unat (v AND 7) = wt"
  proof -
    have "v AND 7 = take_bit 3 v"
      by (simp add: take_bit_eq_mask mask_eq_exp_minus_1)
    then have "unat (v AND 7) = (8 * num + wt) mod 8"
      by (simp only: unsigned_take_bit_eq u) (simp add: take_bit_eq_mod)
    then show ?thesis using wt by simp
  qed
  moreover have "read_varint (field_key num wt @ r) 0 0 = Ok (v, r)" for r
    unfolding field_key_def v_def [symmetric] using read_written [of v r, where 'a = 64] by simp
  ultimately show ?thesis using n that by blast
qed

section \<open>Unknown fields and their bytes\<close>

text \<open>
  A field of each wire type with its number: a varint, eight bytes, length-delimited bytes, a
  group of fields, four bytes. \<open>unknown_ok\<close>: the number is a field number, and fixed-size
  values have their size.
\<close>

datatype unknown =
    Varint_field nat u64
  | Fixed64_field nat bytes
  | Bytes_field nat bytes
  | Group_field nat "unknown list"
  | Fixed32_field nat bytes

primrec unknown_number :: "unknown \<Rightarrow> nat" where
  "unknown_number (Varint_field n v) = n"
| "unknown_number (Fixed64_field n b) = n"
| "unknown_number (Bytes_field n b) = n"
| "unknown_number (Group_field n us) = n"
| "unknown_number (Fixed32_field n b) = n"

primrec unknown_wire :: "unknown \<Rightarrow> nat" where
  "unknown_wire (Varint_field n v) = 0"
| "unknown_wire (Fixed64_field n b) = 1"
| "unknown_wire (Bytes_field n b) = 2"
| "unknown_wire (Group_field n us) = 3"
| "unknown_wire (Fixed32_field n b) = 5"

fun unknown_ok :: "unknown \<Rightarrow> bool" where
  "unknown_ok (Varint_field n v) \<longleftrightarrow> 0 < n \<and> n < 2 ^ 31"
| "unknown_ok (Fixed64_field n b) \<longleftrightarrow> 0 < n \<and> n < 2 ^ 31 \<and> length b = 8"
| "unknown_ok (Bytes_field n b) \<longleftrightarrow> 0 < n \<and> n < 2 ^ 31"
| "unknown_ok (Group_field n us) \<longleftrightarrow> 0 < n \<and> n < 2 ^ 31 \<and> (\<forall>u\<in>set us. unknown_ok u)"
| "unknown_ok (Fixed32_field n b) \<longleftrightarrow> 0 < n \<and> n < 2 ^ 31 \<and> length b = 4"

fun wire_unknown :: "unknown \<Rightarrow> bytes" where
  "wire_unknown (Varint_field n v) = field_key n 0 @ varint_bytes v"
| "wire_unknown (Fixed64_field n b) = field_key n 1 @ b"
| "wire_unknown (Bytes_field n b) = field_key n 2 @ varint_bytes (word_of_nat (length b)) @ b"
| "wire_unknown (Group_field n us) = field_key n 3 @ concat (map wire_unknown us) @ field_key n 4"
| "wire_unknown (Fixed32_field n b) = field_key n 5 @ b"

definition wire_unknowns :: "unknown list \<Rightarrow> bytes" where
  "wire_unknowns us = concat (map wire_unknown us)"

lemma wire_unknown_key: "\<exists>w. wire_unknown u = field_key (unknown_number u) (unknown_wire u) @ w"
  by (cases u) auto

lemma unknown_ok_number: "unknown_ok u \<Longrightarrow> 0 < unknown_number u \<and> unknown_number u < 2 ^ 31"
  by (cases u) auto

section \<open>Skipping\<close>

text \<open>One turn of the loop of \<open>skip\<close>.\<close>

lemma skip_turn:
  assumes "num < 2 ^ 31" and "wt < 8"
    and f: "skip_field (length (pre @ field_key num wt @ r)) wt r d = Ok (i, d')" and "i < 2 ^ 63"
  shows "skip_loop (pre @ field_key num wt @ r) (length pre) d =
    (if d' = 0 then Ok i else skip_loop (pre @ field_key num wt @ r) i d')"
proof -
  obtain v :: u64 where "read_varint (field_key num wt @ r) 0 0 = Ok (v, r)" and "unat (v AND 7) = wt"
    by (rule read_key [OF assms(1,2)]) blast
  then show ?thesis
    using assms(3,4) by (subst skip_loop.simps) (simp add: not_le)
qed

text \<open>The value of a length-delimited field.\<close>

lemma skip_field_bytes:
  assumes "length (pre @ varint_bytes (word_of_nat (length b)) @ b @ r) < 2 ^ 63"
  shows "skip_field (length (pre @ varint_bytes (word_of_nat (length b)) @ b @ r)) 2
      (varint_bytes (word_of_nat (length b)) @ b @ r) d =
    Ok (length (pre @ varint_bytes (word_of_nat (length b)) @ b), d)"
proof -
  let ?n = "word_of_nat (length b) :: u64"
  have small: "length b < 2 ^ 63" using assms by simp
  then have u: "unat ?n = length b" by (simp add: unat_of_nat take_bit_nat_eq_self)
  have "sint ?n = int (length b)"
    using small u by (simp add: sint_uint uint_nat signed_take_bit_int_eq_self del: of_nat_unat)
  then show ?thesis using u by (simp add: skip_field_def)
qed

text \<open>
  From the start of an unknown field the loop gets to its end, at the depth it had; at depth
  zero it returns there.
\<close>

definition skips :: "bytes \<Rightarrow> bool" where
  "skips w \<longleftrightarrow> (\<forall>pre r d. length (pre @ w @ r) < 2 ^ 63 \<longrightarrow>
     skip_loop (pre @ w @ r) (length pre) d =
       (if d = 0 then Ok (length (pre @ w)) else skip_loop (pre @ w @ r) (length (pre @ w)) d))"

lemma skipsD:
  "skips w \<Longrightarrow> length (pre @ w @ r) < 2 ^ 63 \<Longrightarrow>
    skip_loop (pre @ w @ r) (length pre) d =
      (if d = 0 then Ok (length (pre @ w)) else skip_loop (pre @ w @ r) (length (pre @ w)) d)"
  by (simp add: skips_def)

lemma skips_field:
  assumes "num < 2 ^ 31" and "wt < 8"
    and "\<And>pre r d. length (pre @ w @ r) < 2 ^ 63 \<Longrightarrow>
      skip_field (length (pre @ w @ r)) wt (w @ r) d = Ok (length (pre @ w), d)"
  shows "skips (field_key num wt @ w)"
  unfolding skips_def
proof (intro allI impI)
  fix pre r d
  assume l: "length (pre @ (field_key num wt @ w) @ r) < 2 ^ 63"
  have "skip_field (length (pre @ field_key num wt @ w @ r)) wt (w @ r) d = Ok (length (pre @ field_key num wt @ w), d)"
    using assms(3) [of "pre @ field_key num wt" r d] l by simp
  from skip_turn [OF assms(1,2) this] l
  show "skip_loop (pre @ (field_key num wt @ w) @ r) (length pre) d =
      (if d = 0 then Ok (length (pre @ field_key num wt @ w))
       else skip_loop (pre @ (field_key num wt @ w) @ r) (length (pre @ field_key num wt @ w)) d)"
    by simp
qed

text \<open>The fields of a group, inside of which the depth is not zero.\<close>

lemma skip_fields:
  assumes "\<And>w. w \<in> set ws \<Longrightarrow> skips w" and "length (pre @ concat ws @ r) < 2 ^ 63"
  shows "skip_loop (pre @ concat ws @ r) (length pre) (Suc d) =
    skip_loop (pre @ concat ws @ r) (length (pre @ concat ws)) (Suc d)"
  using assms
proof (induction ws arbitrary: pre)
  case (Cons w ws)
  have "skip_loop (pre @ w @ concat ws @ r) (length pre) (Suc d) =
      skip_loop (pre @ w @ concat ws @ r) (length (pre @ w)) (Suc d)"
    using Cons.prems by (subst skipsD) simp_all
  also have "\<dots> = skip_loop ((pre @ w) @ concat ws @ r) (length ((pre @ w) @ concat ws)) (Suc d)"
    using Cons.IH [of "pre @ w"] Cons.prems by simp
  finally show ?case by simp
qed simp

lemma skips_group:
  assumes "num < 2 ^ 31" and "\<And>w. w \<in> set ws \<Longrightarrow> skips w"
  shows "skips (field_key num 3 @ concat ws @ field_key num 4)"
  unfolding skips_def
proof (intro allI impI)
  fix pre r d
  let ?g = "field_key num 3 @ concat ws @ field_key num 4" and ?start = "pre @ field_key num 3"
  let ?all = "pre @ ?g @ r"
  assume l: "length ?all < 2 ^ 63"
  have "skip_loop ?all (length pre) d = skip_loop ?all (length ?start) (Suc d)"
    using skip_turn [of num 3 pre "concat ws @ field_key num 4 @ r" d "length ?start" "Suc d"] assms(1) l
    by (simp add: skip_field_def)
  also have "\<dots> = skip_loop ?all (length (?start @ concat ws)) (Suc d)"
    using skip_fields [of ws ?start "field_key num 4 @ r" d] assms(2) l by simp
  also have "\<dots> = (if d = 0 then Ok (length (pre @ ?g)) else skip_loop ?all (length (pre @ ?g)) d)"
    using skip_turn [of num 4 "?start @ concat ws" r "Suc d" "length (pre @ ?g)" d] assms(1) l
    by (simp add: skip_field_def)
  finally show "skip_loop ?all (length pre) d =
      (if d = 0 then Ok (length (pre @ ?g)) else skip_loop ?all (length (pre @ ?g)) d)" .
qed

lemma skips_unknown: "unknown_ok u \<Longrightarrow> skips (wire_unknown u)"
proof (induction u)
  case (Varint_field n v)
  then show ?case by (auto intro!: skips_field simp: skip_field_def)
next
  case (Fixed64_field n b)
  then show ?case by (auto intro!: skips_field simp: skip_field_def)
next
  case (Bytes_field n b)
  then show ?case using skip_field_bytes by (auto intro!: skips_field)
next
  case (Group_field n us)
  then show ?case by (auto intro!: skips_group)
next
  case (Fixed32_field n b)
  then show ?case by (auto intro!: skips_field simp: skip_field_def)
qed

lemma skip_unknown:
  "unknown_ok u \<Longrightarrow> length (wire_unknown u @ r) < 2 ^ 63 \<Longrightarrow> skip (wire_unknown u @ r) = Ok (length (wire_unknown u))"
  using skipsD [OF skips_unknown, of u "[]" r 0] by (simp add: skip_def)

section \<open>The loop of Unmarshal\<close>

lemma reads_unknown:
  assumes ok: "unknown_ok u" and u: "\<And>l r. table m (unknown_number u) (unknown_wire u) l r = None"
  shows "reads table (wire_unknown u) m m"
  unfolding reads_def parses_def
proof (intro allI impI)
  fix l r x n
  let ?w = "wire_unknown u"
  assume l: "l < 2 ^ 63" "length (?w @ r) \<le> l" and rest: "\<forall>n. length r \<le> n \<longrightarrow> unmarshal_loop table l n r m = x"
    and n: "length (?w @ r) \<le> n"
  obtain w where w: "?w = field_key (unknown_number u) (unknown_wire u) @ w" using wire_unknown_key by blast
  have wire: "unknown_wire u < 8" "unknown_wire u \<noteq> 4" by (cases u; simp)+
  obtain v :: u64 where v: "\<And>r. read_varint (field_key (unknown_number u) (unknown_wire u) @ r) 0 0 = Ok (v, r)"
    "unat (ucast (drop_bit 3 v) :: 32 word) = unknown_number u"
    "sint (ucast (drop_bit 3 v) :: 32 word) = int (unknown_number u)" "unat (v AND 7) = unknown_wire u"
    using read_key [OF conjunct2 [OF unknown_ok_number [OF ok]] wire(1)] by metis
  have pos: "0 < unknown_number u" using unknown_ok_number [OF ok] by simp
  have "0 < length ?w" by (simp add: w)
  with n have "length r < n" unfolding length_append by linarith
  then obtain k where k: "n = Suc k" and "length r \<le> k" by (cases n) auto
  have s: "skip (?w @ r) = Ok (length ?w)" using l by (intro skip_unknown [OF ok]) simp
  have rd: "read_varint (?w @ r) 0 0 = Ok (v, w @ r)" using v(1) [of "w @ r"] by (simp add: w)
  have fits: "l - length (?w @ r) + length ?w \<le> l" using l(2) by simp
  have ne: "?w \<noteq> []" by (simp add: w)
  show "unmarshal_loop table l n (?w @ r) m = x"
    using rest \<open>length r \<le> k\<close> fits l(1) wire(2) pos ne
    by (simp add: k Let_def rd s u v(2-4))
qed

lemma reads_unknowns:
  assumes "\<And>w. w \<in> set us \<Longrightarrow> unknown_ok w"
    and "\<And>w l r. w \<in> set us \<Longrightarrow> table m (unknown_number w) (unknown_wire w) l r = None"
  shows "reads table (wire_unknowns us) m m"
  using assms
proof (induction us)
  case (Cons u us)
  have "reads table (wire_unknown u) m m" using Cons.prems by (intro reads_unknown) auto
  moreover have "reads table (wire_unknowns us) m m" using Cons by auto
  ultimately show ?case unfolding wire_unknowns_def by (simp add: reads_append)
qed (simp add: wire_unknowns_def reads_nothing)

text \<open>Fields with numbers above those a message knows, before and after its encoding.\<close>

definition beyond :: "nat \<Rightarrow> unknown list \<Rightarrow> bool" where
  "beyond n us \<longleftrightarrow> (\<forall>u\<in>set us. unknown_ok u \<and> n < unknown_number u)"

lemma reads_around:
  assumes "beyond n us" and "beyond n vs" and "\<And>m num w l r. n < num \<Longrightarrow> table m num w l r = None"
    and "reads table e m m'"
  shows "reads table (wire_unknowns us @ e @ wire_unknowns vs) m m'"
  using assms(1-3) by (intro reads_append [OF reads_unknowns reads_append [OF assms(4) reads_unknowns]]) (auto simp: beyond_def)

lemma unmarshal_around:
  assumes "beyond n us" and "beyond n vs" and "\<And>m num w l r. n < num \<Longrightarrow> table m num w l r = None"
    and "reads table e m m'" and "length (wire_unknowns us @ e @ wire_unknowns vs) < 2 ^ 63"
  shows "unmarshal_with table m (wire_unknowns us @ e @ wire_unknowns vs) = Ok m'"
  using reads_unmarshal [OF reads_around [OF assms(1-4)] assms(5)] .

end
