(* ===== verification/Wire_Properties.thy ===== *)
theory Wire_Properties
  imports Wire_Bounds Wire_Unknown
begin

text \<open>
  What the generated code of the light clients promises. The witnesses use the protobuf
  encodings of \<open>Any\<close>, \<open>Height\<close> and \<open>MerklePrefix\<close>, built from the same field writers.
\<close>

section \<open>The messages of the imported packages, for witnesses\<close>

definition demo_Any_fields :: "Any field_table" where
  "demo_Any_fields m fieldNum wireType l r =
     (if fieldNum = 1 then Some (get_bytes (\<lambda>b m. m\<lparr>TypeUrl := bytes_string b\<rparr>) m wireType l r)
      else if fieldNum = 2 then Some (get_bytes (\<lambda>b m. m\<lparr>AnyValue := b\<rparr>) m wireType l r)
      else None)"

definition demo_Any_pb :: "Any pb" where
  "demo_Any_pb = \<lparr>pb_Size = (\<lambda>m. size_bytes (string_bytes (TypeUrl m)) + size_bytes (AnyValue m)),
     pb_MarshalToSizedBuffer = (\<lambda>m. sized_buffer (\<lambda>s.
       obind (put_bytes_field 0x12 (AnyValue m) s) (\<lambda>s.
       put_bytes_field 0xa (string_bytes (TypeUrl m)) s))),
     pb_Unmarshal = unmarshal_with demo_Any_fields\<rparr>"

definition demo_Height_fields :: "Height field_table" where
  "demo_Height_fields m fieldNum wireType l r =
     (if fieldNum = 1 then Some (get_varint (\<lambda>v m. m\<lparr>RevisionNumber := v\<rparr>) m wireType l r)
      else if fieldNum = 2 then Some (get_varint (\<lambda>v m. m\<lparr>RevisionHeight := v\<rparr>) m wireType l r)
      else None)"

definition demo_Height_pb :: "Height pb" where
  "demo_Height_pb = \<lparr>pb_Size = (\<lambda>m. size_varint (RevisionNumber m) + size_varint (RevisionHeight m)),
     pb_MarshalToSizedBuffer = (\<lambda>m. sized_buffer (\<lambda>s.
       obind (put_varint_field 0x10 (RevisionHeight m) s) (\<lambda>s.
       put_varint_field 0x8 (RevisionNumber m) s))),
     pb_Unmarshal = unmarshal_with demo_Height_fields\<rparr>"

definition demo_Prefix_fields :: "MerklePrefix field_table" where
  "demo_Prefix_fields m fieldNum wireType l r =
     (if fieldNum = 1 then Some (get_bytes (\<lambda>b m. bytes_string b) m wireType l r) else None)"

definition demo_Prefix_pb :: "MerklePrefix pb" where
  "demo_Prefix_pb = \<lparr>pb_Size = (\<lambda>m. size_bytes (string_bytes m)),
     pb_MarshalToSizedBuffer = (\<lambda>m. sized_buffer (\<lambda>s. put_bytes_field 0xa (string_bytes m) s)),
     pb_Unmarshal = unmarshal_with demo_Prefix_fields\<rparr>"

definition demo_pb_lib :: pb_lib where
  "demo_pb_lib = \<lparr>AnyPb = demo_Any_pb, HeightPb = demo_Height_pb, PrefixPb = demo_Prefix_pb\<rparr>"

definition demo_encodings :: pb_encodings where
  "demo_encodings = \<lparr>
     any_enc = (\<lambda>m. wire_bytes 0xa (string_bytes (TypeUrl m)) @ wire_bytes 0x12 (AnyValue m)),
     height_enc = (\<lambda>m. wire_varint 0x8 (RevisionNumber m) @ wire_varint 0x10 (RevisionHeight m)),
     prefix_enc = (\<lambda>m. wire_bytes 0xa (string_bytes m))\<rparr>"

lemma demo_Any_laws: "pb_laws demo_Any_pb zero_Any (any_enc demo_encodings)"
proof -
  have f1: "reads demo_Any_fields (wire_bytes 0xa (string_bytes (TypeUrl m))) zero_Any (zero_Any\<lparr>TypeUrl := TypeUrl m\<rparr>)" for m
    by (rule reads_string [where num = 1 and upd = "\<lambda>s m. m\<lparr>TypeUrl := s\<rparr>"])
      (simp_all add: demo_Any_fields_def is_tag_def)
  have f2: "reads demo_Any_fields (wire_bytes 0x12 (AnyValue m)) (zero_Any\<lparr>TypeUrl := TypeUrl m\<rparr>) m" for m
    using reads_bytes [of "0x12" 2 demo_Any_fields "zero_Any\<lparr>TypeUrl := TypeUrl m\<rparr>" "\<lambda>b m. m\<lparr>AnyValue := b\<rparr>" "AnyValue m"]
    by (cases m) (simp add: demo_Any_fields_def is_tag_def)
  have "pb_Unmarshal demo_Any_pb zero_Any (any_enc demo_encodings m) = Ok m"
    if "length (any_enc demo_encodings m) < 2 ^ 63" for m
    using reads_unmarshal [OF reads_append [OF f1 f2]] that by (simp add: demo_Any_pb_def demo_encodings_def)
  moreover have "marshals demo_Any_pb (any_enc demo_encodings)"
    unfolding demo_Any_pb_def demo_encodings_def pb_encodings.simps
    by (intro marshals_by writes_then writes_intro)
  ultimately show ?thesis
    by (simp add: pb_laws_def demo_Any_pb_def demo_encodings_def wire_lengths)
qed

lemma demo_Height_laws: "pb_laws demo_Height_pb zero_Height (height_enc demo_encodings)"
proof -
  have f1: "reads demo_Height_fields (wire_varint 0x8 (RevisionNumber m)) zero_Height (zero_Height\<lparr>RevisionNumber := RevisionNumber m\<rparr>)" for m
    by (rule reads_varint [where num = 1 and upd = "\<lambda>s m. m\<lparr>RevisionNumber := s\<rparr>"])
      (simp_all add: demo_Height_fields_def is_tag_def)
  have f2: "reads demo_Height_fields (wire_varint 0x10 (RevisionHeight m)) (zero_Height\<lparr>RevisionNumber := RevisionNumber m\<rparr>) m" for m
    using reads_varint [of "0x10" 2 demo_Height_fields "zero_Height\<lparr>RevisionNumber := RevisionNumber m\<rparr>"
        "\<lambda>b m. m\<lparr>RevisionHeight := b\<rparr>" "RevisionHeight m"]
    by (cases m) (simp add: demo_Height_fields_def is_tag_def)
  have "pb_Unmarshal demo_Height_pb zero_Height (height_enc demo_encodings m) = Ok m"
    if "length (height_enc demo_encodings m) < 2 ^ 63" for m
    using reads_unmarshal [OF reads_append [OF f1 f2]] that by (simp add: demo_Height_pb_def demo_encodings_def)
  moreover have "marshals demo_Height_pb (height_enc demo_encodings)"
    unfolding demo_Height_pb_def demo_encodings_def pb_encodings.simps
    by (intro marshals_by writes_then writes_intro)
  ultimately show ?thesis
    by (simp add: pb_laws_def demo_Height_pb_def demo_encodings_def wire_lengths)
qed

lemma demo_Prefix_laws: "pb_laws demo_Prefix_pb [] (prefix_enc demo_encodings)"
proof -
  have f1: "reads demo_Prefix_fields (wire_bytes 0xa (string_bytes m)) [] m" for m
    using reads_string [of "0xa" 1 demo_Prefix_fields "[]" "\<lambda>s m. s" m]
    by (simp add: demo_Prefix_fields_def is_tag_def)
  have "pb_Unmarshal demo_Prefix_pb [] (prefix_enc demo_encodings m) = Ok m"
    if "length (prefix_enc demo_encodings m) < 2 ^ 63" for m
    using reads_unmarshal [OF f1] that by (simp add: demo_Prefix_pb_def demo_encodings_def)
  moreover have "marshals demo_Prefix_pb (prefix_enc demo_encodings)"
    unfolding demo_Prefix_pb_def demo_encodings_def pb_encodings.simps
    by (intro marshals_by writes_intro)
  ultimately show ?thesis
    by (simp add: pb_laws_def demo_Prefix_pb_def demo_encodings_def wire_lengths)
qed

lemma demo_lib_laws: "lib_laws demo_pb_lib demo_encodings"
  by (simp add: lib_laws_def demo_pb_lib_def demo_Any_laws demo_Height_laws demo_Prefix_laws)

lemma demo_lib_returns: "lib_returns demo_pb_lib"
  unfolding lib_returns_def demo_pb_lib_def demo_Any_pb_def demo_Height_pb_def demo_Prefix_pb_def pb_returns_def
    pb_lib.simps pb.simps
  by (intro conjI allI unmarshal_with_returns)
    (auto simp: demo_Any_fields_def demo_Height_fields_def demo_Prefix_fields_def fields_ok split: if_splits)

section \<open>Multi-proofs and client states round trip\<close>

text \<open>
  C36. Every multi-proof, with any number of branches, marshals without an error to exactly
  \<open>Size\<close> bytes, and \<open>Unmarshal\<close> of them (below the range of Go's \<open>int\<close>) into a new
  \<open>MultiProof\<close> restores the head, the branches in their order, and the leaf.
\<close>

theorem MultiProof_round_trip:
  assumes "lib_laws L E"
  shows "\<exists>b. pb_Marshal (multiv_MultiProof_pb L) m = Ok b \<and> length b = multiv_MultiProof_Size L m \<and>
    (length b < 2 ^ 63 \<longrightarrow> pb_Unmarshal (multiv_MultiProof_pb L) zero_MultiProof b = Ok m)"
  using multiv_MultiProof.marshal_round_trip [OF assms, of m] by (simp add: multiv_MultiProof_pb_def)

theorem MultiProof_round_trip_witness:
  "\<exists>b. pb_Marshal (multiv_MultiProof_pb demo_pb_lib) (zero_MultiProof\<lparr>Branches := [zero_Proof, zero_Proof]\<rparr>) = Ok b \<and>
    length b = multiv_MultiProof_Size demo_pb_lib (zero_MultiProof\<lparr>Branches := [zero_Proof, zero_Proof]\<rparr>)"
  using MultiProof_round_trip [OF demo_lib_laws, of "zero_MultiProof\<lparr>Branches := [zero_Proof, zero_Proof]\<rparr>"] by auto

text \<open>
  C37. The client states of both light clients and the consensus state of the proxy client
  marshal without an error to exactly \<open>Size\<close> bytes and come back from \<open>Unmarshal\<close>; nil
  pointers, and the zero depth that is not written, included.
\<close>

theorem client_states_round_trip:
  assumes "lib_laws L E"
  shows "(\<exists>b. pb_Marshal (multiv_ClientState_pb L) m = Ok b \<and> length b = multiv_ClientState_Size L m \<and>
      (length b < 2 ^ 63 \<longrightarrow> pb_Unmarshal (multiv_ClientState_pb L) zero_MultivClientState b = Ok m)) \<and>
    (\<exists>b. pb_Marshal (proxy_ClientState_pb L) p = Ok b \<and> length b = proxy_ClientState_Size L p \<and>
      (length b < 2 ^ 63 \<longrightarrow> pb_Unmarshal (proxy_ClientState_pb L) zero_ProxyClientState b = Ok p)) \<and>
    (\<exists>b. pb_Marshal (proxy_ConsensusState_pb L) c = Ok b \<and> length b = proxy_ConsensusState_Size L c \<and>
      (length b < 2 ^ 63 \<longrightarrow> pb_Unmarshal (proxy_ConsensusState_pb L) zero_ProxyConsensusState b = Ok c))"
  using multiv_ClientState.marshal_round_trip [OF assms, of m] proxy_ClientState.marshal_round_trip [OF assms, of p]
    proxy_ConsensusState.marshal_round_trip [OF assms, of c]
  by (simp add: multiv_ClientState_pb_def proxy_ClientState_pb_def proxy_ConsensusState_pb_def)

theorem client_states_round_trip_witness:
  "\<exists>b. pb_Marshal (multiv_ClientState_pb demo_pb_lib) \<lparr>UnderlyingClientState = None, Depth = 300\<rparr> = Ok b \<and>
    (length b < 2 ^ 63 \<longrightarrow> pb_Unmarshal (multiv_ClientState_pb demo_pb_lib) zero_MultivClientState b =
      Ok \<lparr>UnderlyingClientState = None, Depth = 300\<rparr>)"
  using client_states_round_trip [OF demo_lib_laws, of "\<lparr>UnderlyingClientState = None, Depth = 300\<rparr>"] by blast

section \<open>Unmarshal on any input\<close>

text \<open>
  C38. \<open>Unmarshal\<close> of every message of the light clients returns on every byte string and
  every starting value: its loop ends within as many iterations as there are bytes, \<open>skip\<close>
  included, as long as \<open>Unmarshal\<close> of the imported messages returns.
\<close>

theorem Unmarshal_returns:
  assumes "lib_returns L"
  shows "pb_Unmarshal (multiv_MultiProof_pb L) m b \<noteq> Diverge \<and>
    pb_Unmarshal (multiv_ClientState_pb L) c b \<noteq> Diverge \<and>
    pb_Unmarshal (proxy_ClientState_pb L) p b \<noteq> Diverge \<and>
    pb_Unmarshal (proxy_ConsensusState_pb L) s b \<noteq> Diverge"
  using assms by (simp add: multiv_MultiProof_returns multiv_ClientState_returns proxy_ClientState_returns
      proxy_ConsensusState_returns)

theorem Unmarshal_returns_witness:
  "pb_Unmarshal (multiv_MultiProof_pb demo_pb_lib) zero_MultiProof [0x0a, 0xff, 0x01] \<noteq> Diverge"
  using Unmarshal_returns [OF demo_lib_returns] by blast

text \<open>
  C39. What \<open>Unmarshal\<close> builds is bounded by its input. All the bytes that a multi-proof carries
  (proofs, client and consensus states, leaf) together with the number of its branches are at
  most the length of the input; the same holds for the states packed in the client states and
  in the consensus state. So an attacker pays for every branch, and the dispatch of the light
  clients, which is bounded by these sizes, is bounded by the bytes received.
\<close>

theorem Unmarshal_bounded:
  assumes "lib_bounded L"
  shows "(pb_Unmarshal (multiv_MultiProof_pb L) zero_MultiProof b = Ok mp \<longrightarrow>
      multiproof_size mp \<le> multiproof_content mp \<and> multiproof_content mp + length (Branches mp) \<le> length b) \<and>
    (pb_Unmarshal (multiv_ClientState_pb L) zero_MultivClientState b = Ok c \<longrightarrow>
      any_size (UnderlyingClientState c) \<le> length b) \<and>
    (pb_Unmarshal (proxy_ClientState_pb L) zero_ProxyClientState b = Ok p \<longrightarrow>
      any_size (ProxyClientStateAny p) + length (UpstreamClientId p) \<le> length b) \<and>
    (pb_Unmarshal (proxy_ConsensusState_pb L) zero_ProxyConsensusState b = Ok k \<longrightarrow>
      any_size (ProxyConsensusStateAny k) \<le> length b)"
proof -
  note bounds = multiv_MultiProof_bounded [OF assms] multiv_ClientState_bounded [OF assms]
    proxy_ClientState_bounded [OF assms] proxy_ConsensusState_bounded [OF assms]
  show ?thesis
    using bounds [THEN pb_boundedD] multiproof_content_le
    by (fastforce simp: multiproof_content_def proof_content_def proof_size_def)
qed

lemma demo_lib_bounded: "lib_bounded demo_pb_lib"
  unfolding lib_bounded_def demo_pb_lib_def demo_Any_pb_def pb_bounded_def pb_lib.simps pb.simps
  by (intro allI impI, erule unmarshal_with_bounded [rotated])
    (auto simp: demo_Any_fields_def intro!: get_bytes_bounded split: if_splits)

lemma Unmarshal_bounded_witness:
  "\<exists>b. pb_Unmarshal (multiv_MultiProof_pb demo_pb_lib) zero_MultiProof b = Ok (zero_MultiProof\<lparr>Branches := [zero_Proof, zero_Proof]\<rparr>) \<and>
     2 \<le> length b"
proof -
  let ?mp = "zero_MultiProof\<lparr>Branches := [zero_Proof, zero_Proof]\<rparr>"
  have "length (wire_MultiProof demo_encodings ?mp) < 2 ^ 63"
    by (simp add: wire_MultiProof_def wire_Proof_def wire_LeafProof_def wire_repeated_def demo_encodings_def
        wire_varint_def wire_bytes_def wire_option_def length_wire_slice sov_def bit_len.simps)
  from multiv_MultiProof.unmarshal_enc [OF demo_lib_laws this]
  show ?thesis using Unmarshal_bounded [OF demo_lib_bounded, THEN conjunct1, rule_format, of _ ?mp] by fastforce
qed

text \<open>
  C40. Fields a message does not know are skipped. The encoding of any message of the light
  clients, with any number of unknown fields before and after it, is read as without them; an
  unknown field has any number above those of the message (below \<open>2 ^ 31\<close>) and any wire type:
  varint, eight bytes, length-delimited, four bytes, or a group with fields of all these kinds
  in it, groups included.
\<close>

theorem unknown_fields_skipped:
  assumes "lib_laws L E"
  shows "(beyond 3 us \<and> beyond 3 vs \<and> pb_Marshal (multiv_MultiProof_pb L) m = Ok b \<and>
      length (wire_unknowns us @ b @ wire_unknowns vs) < 2 ^ 63 \<longrightarrow>
      pb_Unmarshal (multiv_MultiProof_pb L) zero_MultiProof (wire_unknowns us @ b @ wire_unknowns vs) = Ok m) \<and>
    (beyond 2 us \<and> beyond 2 vs \<and> pb_Marshal (multiv_ClientState_pb L) c = Ok b \<and>
      length (wire_unknowns us @ b @ wire_unknowns vs) < 2 ^ 63 \<longrightarrow>
      pb_Unmarshal (multiv_ClientState_pb L) zero_MultivClientState (wire_unknowns us @ b @ wire_unknowns vs) = Ok c) \<and>
    (beyond 4 us \<and> beyond 4 vs \<and> pb_Marshal (proxy_ClientState_pb L) p = Ok b \<and>
      length (wire_unknowns us @ b @ wire_unknowns vs) < 2 ^ 63 \<longrightarrow>
      pb_Unmarshal (proxy_ClientState_pb L) zero_ProxyClientState (wire_unknowns us @ b @ wire_unknowns vs) = Ok p) \<and>
    (beyond 1 us \<and> beyond 1 vs \<and> pb_Marshal (proxy_ConsensusState_pb L) k = Ok b \<and>
      length (wire_unknowns us @ b @ wire_unknowns vs) < 2 ^ 63 \<longrightarrow>
      pb_Unmarshal (proxy_ConsensusState_pb L) zero_ProxyConsensusState (wire_unknowns us @ b @ wire_unknowns vs) = Ok k)"
proof (intro conjI impI; elim conjE)
  show "pb_Unmarshal (multiv_MultiProof_pb L) zero_MultiProof (wire_unknowns us @ b @ wire_unknowns vs) = Ok m"
    if "beyond 3 us" "beyond 3 vs" "pb_Marshal (multiv_MultiProof_pb L) m = Ok b"
      "length (wire_unknowns us @ b @ wire_unknowns vs) < 2 ^ 63"
    using unmarshal_around [OF that(1,2) _ multiv_MultiProof_reads [OF assms, of m]] multiv_MultiProof.Marshal_enc [OF assms, of m] that(3,4)
    by (simp add: multiv_MultiProof_pb_def multiv_MultiProof_fields_def)
  show "pb_Unmarshal (multiv_ClientState_pb L) zero_MultivClientState (wire_unknowns us @ b @ wire_unknowns vs) = Ok c"
    if "beyond 2 us" "beyond 2 vs" "pb_Marshal (multiv_ClientState_pb L) c = Ok b"
      "length (wire_unknowns us @ b @ wire_unknowns vs) < 2 ^ 63"
    using unmarshal_around [OF that(1,2) _ multiv_ClientState_reads [OF assms, of c]] multiv_ClientState.Marshal_enc [OF assms, of c] that(3,4)
    by (simp add: multiv_ClientState_pb_def multiv_ClientState_fields_def)
  show "pb_Unmarshal (proxy_ClientState_pb L) zero_ProxyClientState (wire_unknowns us @ b @ wire_unknowns vs) = Ok p"
    if "beyond 4 us" "beyond 4 vs" "pb_Marshal (proxy_ClientState_pb L) p = Ok b"
      "length (wire_unknowns us @ b @ wire_unknowns vs) < 2 ^ 63"
    using unmarshal_around [OF that(1,2) _ proxy_ClientState_reads [OF assms, of p]] proxy_ClientState.Marshal_enc [OF assms, of p] that(3,4)
    by (simp add: proxy_ClientState_pb_def proxy_ClientState_fields_def)
  show "pb_Unmarshal (proxy_ConsensusState_pb L) zero_ProxyConsensusState (wire_unknowns us @ b @ wire_unknowns vs) = Ok k"
    if "beyond 1 us" "beyond 1 vs" "pb_Marshal (proxy_ConsensusState_pb L) k = Ok b"
      "length (wire_unknowns us @ b @ wire_unknowns vs) < 2 ^ 63"
    using unmarshal_around [OF that(1,2) _ proxy_ConsensusState_reads [OF assms, of k]] proxy_ConsensusState.Marshal_enc [OF assms, of k] that(3,4)
    by (simp add: proxy_ConsensusState_pb_def proxy_ConsensusState_fields_def)
qed

theorem unknown_fields_skipped_witness:
  "let us = [Varint_field 5 300, Fixed64_field 7 [1, 2, 3, 4, 5, 6, 7, 8],
      Group_field 6 [Fixed32_field 1 [1, 2, 3, 4], Group_field 2 [Bytes_field 3 [9]]]] in
   \<exists>b. pb_Marshal (multiv_MultiProof_pb demo_pb_lib) zero_MultiProof = Ok b \<and>
     pb_Unmarshal (multiv_MultiProof_pb demo_pb_lib) zero_MultiProof (wire_unknowns us @ b @ wire_unknowns us) = Ok zero_MultiProof"
proof -
  let ?us = "[Varint_field 5 300, Fixed64_field 7 [1, 2, 3, 4, 5, 6, 7, 8],
      Group_field 6 [Fixed32_field 1 [1, 2, 3, 4], Group_field 2 [Bytes_field 3 [9]]]]"
  let ?b = "wire_MultiProof demo_encodings zero_MultiProof"
  have b: "pb_Marshal (multiv_MultiProof_pb demo_pb_lib) zero_MultiProof = Ok ?b"
    by (rule multiv_MultiProof.Marshal_enc [OF demo_lib_laws])
  have "beyond 3 ?us" by (simp add: beyond_def)
  moreover have "length (wire_unknowns ?us @ ?b @ wire_unknowns ?us) < 2 ^ 63"
    by (simp add: wire_unknowns_def field_key_def length_varint_bytes wire_MultiProof_def wire_Proof_def wire_LeafProof_def
        wire_repeated_def demo_encodings_def wire_varint_def wire_bytes_def wire_option_def length_wire_slice sov_def bit_len.simps)
  ultimately show ?thesis
    using unknown_fields_skipped [OF demo_lib_laws, THEN conjunct1, of ?us ?us zero_MultiProof ?b] b unfolding Let_def by blast
qed

end
