(* ===== verification/Spec2Isabelle.thy ===== *)
theory Spec2Isabelle
  imports End_To_End Relay_Properties Multi_Stage Keeper_Properties Store_Properties Module_Properties
    Client_Properties Wire_Properties
begin

text \<open>
  Verification of the IBC proxy, \<open>datachainlab/ibc-proxy\<close>.

  \<^bold>\<open>The program.\<close> A proxy chain runs light clients of upstream chains. The proxy module
  (\<open>modules/proxy\<close>) receives messages with proofs about an upstream chain, checks each
  statement with the upstream light client, and records it in its own store below a path
  \<open>upstream client / upstream prefix / ICS-24 key\<close>. A downstream chain does not follow the
  upstream chain: its Proxy Client (\<open>modules/light-clients/xx-proxy\<close>) verifies the proxy's
  record with a light client of the proxy chain. In the connection handshake both ends must
  show client states to each other; the multi-stage client
  (\<open>modules/light-clients/xx-multiv\<close>) verifies such a state through a chain of proxies, given
  as a \<open>MultiProof\<close>. All of this is Go code called by the IBC module of the Cosmos SDK.

  \<^bold>\<open>Theories and code.\<close>
  \<^item> \<open>Prelude\<close>: results of Go calls (a value, an error, a panic, or no return), the
    state-passing combinators, relations kept by every step (locale \<open>state_frame\<close>), strings.
  \<^item> \<open>Ibc_Types\<close>: the structs of the protobuf files, the keeper of \<open>keeper.go\<close>, and the
    interfaces to code outside the repository, which are parameters: \<open>lib\<close> (codec, packing,
    ICS-24 keys, commitments), \<open>client_ops\<close> (methods of \<open>exported.ClientState\<close>) and
    \<open>ClientKeeper\<close> (\<open>expected_keepers.go\<close>). The hypotheses about them are \<open>ics24_paths\<close>
    (the documented key formats), \<open>codec_ok\<close> (decoding inverts encoding), \<open>helpers_ok\<close>
    (bytes and equality of prefixes) and \<open>client_ids_ok\<close> (no slash in a client identifier
    with a light client).
  \<^item> \<open>Proxy_Keys\<close>: \<open>types/keys.go\<close>, \<open>NewKeeper\<close> and the prefix stores of \<open>keeper/keeper.go\<close>; the abstract
    \<open>slot\<close> of a commitment and its path; the store contract (locale \<open>kv_store\<close>).
  \<^item> \<open>Proxy_Client\<close>: \<open>xx-proxy/types/client_state.go\<close>, \<open>consensus_state.go\<close>, \<open>store.go\<close>,
    \<open>update.go\<close>; what a client can have read from its store about a height (\<open>reads_consensus\<close>).
  \<^item> \<open>Multiv_Client\<close>: \<open>xx-multiv/types/client_state.go\<close>, \<open>commitment.go\<close>, \<open>update.go\<close>.
  \<^item> \<open>Client_Dispatch\<close>: the dynamic dispatch of \<open>exported.ClientState\<close> over both clients and
    external ones, and \<open>keeper/client_keeper.go\<close>.
  \<^item> \<open>Commitment\<close>, \<open>Verify\<close>, \<open>Connection\<close>, \<open>Channel_Packet\<close>: the keeper's \<open>commitment.go\<close>;
    \<open>proxy.go\<close>; \<open>connection.go\<close>; \<open>channel.go\<close>, \<open>packet.go\<close> and \<open>client.go\<close>. The proxied
    objects that are read back share the locale \<open>proxied_object\<close>.
  \<^item> \<open>Messages\<close>, \<open>Msg_Server\<close>: \<open>types/msgs.go\<close> and the message structs of \<open>tx.pb.go\<close>;
    \<open>keeper/msg_server.go\<close> and \<open>genesis.go\<close>; the step relation \<open>module_step\<close> of the chain.
  \<^item> \<open>Wire\<close>, \<open>Wire_Fields\<close>, \<open>Light_Client_Wire\<close>: the generated \<open>Size\<close>, \<open>MarshalToSizedBuffer\<close>
    and \<open>Unmarshal\<close> of \<open>multiv.pb.go\<close> and the light client's \<open>proxy.pb.go\<close>, down to the
    varint loops, with the contract of a message type (locale \<open>pb_message\<close>). \<open>Wire_Unknown\<close>: fields
    a message does not know, of every wire type, groups within groups included.
  \<^item> \<open>Module_Glue\<close>: \<open>module.go\<close>, \<open>types/codec.go\<close> and the multi-stage client's \<open>codec.go\<close>, the names of
    \<open>keys.go\<close>, \<open>types/genesis.go\<close>, \<open>params.go\<close>, \<open>client/cli/cli.go\<close>, and the message service with its
    handlers of \<open>tx.pb.go\<close>. The interface registry, the JSON codec and the server that routes
    messages are parameters.
  \<^item> \<open>Fixtures\<close>, \<open>Scenario\<close>: a concrete codec, light client and chain state on which every
    property with hypotheses is applied.
  \<^item> \<open>End_To_End\<close>: the proxy chain and a downstream Proxy Client together. The hypothesis
    \<open>tracks\<close> is the soundness of the wrapped client relative to the consensus states it reads
    from its store, \<open>knows\<close> says that one of them commits to a state of the proxy chain; the
    instance reads the committed store off the number of the consensus state. \<open>Relay\<close> and
    \<open>Relay_Properties\<close>: the messages that carry a packet or an acknowledgement from one to the
    other, the rest of the proxy chain moving between them; \<open>complete\<close> is the converse of \<open>tracks\<close>.
  \<^item> \<open>Multi_Stage\<close>: a network of chains with Proxy Clients of each other, and what a multi-proof
    says about it.
  \<^item> \<open>Store_Typing\<close>, \<open>Store_Growth\<close>: the type of the module's store and what it makes safe; a
    calculus of how many entries a call may set. \<open>Wire_Bounds\<close>: the sizes of decoded messages.
  \<^item> \<open>Keeper_Properties\<close>, \<open>Store_Properties\<close>, \<open>Module_Properties\<close>, \<open>Client_Properties\<close>,
    \<open>Wire_Properties\<close>: the other properties.

  \<^bold>\<open>How state corresponds.\<close> A context \<open>ctx\<close> holds the proxy module's own store (a map from
  key strings to bytes) and the rest of the chain as an opaque value, which only the client
  keeper reads and writes (client stores). A handler is a function from a context to a result
  and a context, so effects before an error stay visible. The Cosmos SDK discards them when a
  transaction fails; the module's behaviour over time (\<open>module_step\<close>) keeps the context of
  every message, failed ones included, so what it shows of all runs holds with and without
  that. The light clients
  work on a \<open>kvstore\<close>: a map, or the extractor of \<open>update.go\<close> around one.

  \<^bold>\<open>What the lemmas show.\<close>
  \<^item> End to end: what a Proxy Client of a downstream chain accepts about a state it knows was
    accepted before by the proxy's own light client of the upstream chain, while a message of
    the run that carries the proof was handled, as a statement about the same object with the
    same value (C1). Conversely, what is provable on the upstream chain reaches the downstream
    chain: five messages on either side of a connection succeed in order, and the downstream
    client then accepts the packet's commitment or acknowledgement (C5, C6).
  \<^item> Refinement: the eight verify-and-record operations are one operation \<open>proxy_fact\<close> on a
    \<open>fact\<close> (C4); \<open>mirrors\<close> is the abstract machine that only records verified facts, and every
    handler is a behaviour of it with the proofs its message carries (\<open>carried\<close>); so every
    entry is traced to the message that wrote it and to the acceptance it was written after (C2).
  \<^item> Invariants of runs: recorded connections only move forward (C3); the store is well-typed,
    so that no read panics and eight of the eleven messages always return a success or an error
    (C8); a message writes only below the upstream chain it names (C9); the store grows by at
    most three entries a message (C24).
  \<^item> Each handler's effect on success, guards included, as an equivalence: Try and Ack of
    the connection handshake are three checks with a record after each (\<open>handshake_spec\<close>), the
    others a single check and record (C10--C18). With them, the behaviours that are
    surprising (C19, C22, C23).
  \<^item> The proxy's checks of itself and of message contents (C20, C21).
  \<^item> The module: what it registers is what it handles (C25), and its genesis keeps nothing of
    the store (C26).
  \<^item> The multi-stage client accepts exactly chains of trust of the right depth (C27, C28); on a
    network with sound light clients and genuine Proxy Clients these are real: the accepted
    state is stored on the chain that many hops away (C7).
  \<^item> The dispatch of all eight verifications terminates and is determinate (C29).
  \<^item> Paths: injective without slashes (C30), with a lemma on how they collide with them; the
    keeper's setters and getters, \<open>keys.go\<close> and the proxy client agree (C31).
  \<^item> The proxy client: the extractor store, initialisation, updates, and where an error gets
    lost (C32--C35).
  \<^item> Wire format: round trips, sizes, termination and bounds on any input, unknown fields
    of every kind (C36--C40).

  \<^bold>\<open>Bounds and fuel.\<close> \<open>dispatch L E n\<close> unfolds nested clients at most \<open>n\<close> times; \<open>n\<close> above the
  size of the client state plus the length of the proof is enough and larger values change
  nothing (C29). \<open>unmarshal_loop\<close> runs at most as many iterations as there are bytes,
  each of which consumes at least one (C38), and what it builds is no larger than its input (C39).
  Heights, sequences and delays are 64-bit words, depths and enum values 32-bit words.

  \<^bold>\<open>Not modelled.\<close> Gas, events and logging; the generated message serialisation of \<open>tx.pb.go\<close>
  and of the module's \<open>proxy.pb.go\<close>, its client stubs and descriptors; the global \<open>ModuleCdc\<close>,
  which the code does not use; the test chains below \<open>testing/\<close>. Error values keep their kind
  but not their wrapped texts. A nil and an empty byte slice are identified. Three messages are
  outside the second half of C8: the client state message and Try and Ack of the connection
  handshake marshal states taken from the message, and marshalling panics on what cannot be
  encoded; Try and Ack also panic on a proxy client state without prefixes (C20).
\<close>

end
